(* ===== verification/Prelude.thy ===== *)
theory Prelude
  imports Main "HOL-Library.AList" "HOL-Library.Char_ord" "HOL-Library.List_Lexorder"
begin

text \<open>
  Shared vocabulary of the development: how the Go run-time values that every component uses
  are represented, and the lemmas about them.

  \<^item> A Go call that can return an error or panic has a result of type \<open>('e, 'a) outcome\<close>:
    \<open>Ok v\<close>, \<open>Err e\<close> (the error return) or \<open>Panic\<close> (nil dereference, index out of
    range, write to a nil map).
  \<^item> A Go slice that the code compares with \<open>reflect.DeepEqual\<close> or with nil has type
    \<open>'a slice\<close>: \<open>None\<close> is the nil slice. A slice whose nilness no code observes is a list.
  \<^item> A Go map is a list of key/value pairs with distinct keys (\<open>gok\<close>). The order of the list
    is the order in which a \<open>range\<close> loop visits the entries; Go leaves that order open, so a
    theorem about every such list is a theorem about every iteration order. A map that the
    code compares with nil, or writes to without a check, is an \<open>option\<close> of such a list.
  \<^item> Strings are byte strings, as in Go.
\<close>

section \<open>Collections of facts\<close>

named_theorems gomap_simps \<open>lookup in an updated Go map\<close>
named_theorems go_defs \<open>small wrappers that are always unfolded\<close>

section \<open>Results of fallible calls\<close>

datatype ('e, 'a) outcome = Ok 'a | Err 'e | Panic

definition obind :: "('e, 'a) outcome \<Rightarrow> ('a \<Rightarrow> ('e, 'b) outcome) \<Rightarrow> ('e, 'b) outcome" where
  "obind r f = (case r of Ok v \<Rightarrow> f v | Err e \<Rightarrow> Err e | Panic \<Rightarrow> Panic)"

lemma obind_simps [simp]:
  "obind (Ok v) f = f v"
  "obind (Err e) f = Err e"
  "obind Panic f = Panic"
  by (simp_all add: obind_def)

lemma obind_Ok_iff: "obind r f = Ok w \<longleftrightarrow> (\<exists>v. r = Ok v \<and> f v = Ok w)"
  by (cases r) auto

fun is_Ok :: "('e, 'a) outcome \<Rightarrow> bool" where
  "is_Ok (Ok _) = True"
| "is_Ok _ = False"

text \<open>A loop whose body may fail: it appends what the body yields and stops at the first failure.\<close>

fun concat_outcome :: "('a \<Rightarrow> ('e, 'b list) outcome) \<Rightarrow> 'a list \<Rightarrow> ('e, 'b list) outcome" where
  "concat_outcome f [] = Ok []"
| "concat_outcome f (x # xs) =
     obind (f x) (\<lambda>ys. obind (concat_outcome f xs) (\<lambda>zs. Ok (ys @ zs)))"

lemma concat_outcome_append:
  "concat_outcome f (xs @ ys) =
     obind (concat_outcome f xs) (\<lambda>a. obind (concat_outcome f ys) (\<lambda>b. Ok (a @ b)))"
proof (induction xs)
  case Nil
  then show ?case by (cases "concat_outcome f ys") simp_all
next
  case (Cons x xs)
  then show ?case
    by (cases "f x"; cases "concat_outcome f xs"; cases "concat_outcome f ys") simp_all
qed

lemma concat_outcome_Ok: "(\<And>x. x \<in> set xs \<Longrightarrow> f x = Ok (g x)) \<Longrightarrow>
  concat_outcome f xs = Ok (concat (map g xs))"
  by (induction xs) auto

text \<open>A loop that returns the first error it meets, and one that carries a state as well.\<close>

fun first_error :: "('a \<Rightarrow> 'e option) \<Rightarrow> 'a list \<Rightarrow> 'e option" where
  "first_error f [] = None"
| "first_error f (x # xs) = (case f x of Some e \<Rightarrow> Some e | None \<Rightarrow> first_error f xs)"

lemma first_error_None_iff: "first_error f xs = None \<longleftrightarrow> (\<forall>x \<in> set xs. f x = None)"
  by (induction xs) (auto split: option.splits)

fun foldl_outcome :: "('s \<Rightarrow> 'a \<Rightarrow> ('e, 's) outcome) \<Rightarrow> 's \<Rightarrow> 'a list \<Rightarrow> ('e, 's) outcome" where
  "foldl_outcome f s [] = Ok s"
| "foldl_outcome f s (x # xs) = obind (f s x) (\<lambda>s. foldl_outcome f s xs)"

lemma foldl_outcome_append:
  "foldl_outcome f s (xs @ ys) = obind (foldl_outcome f s xs) (\<lambda>s. foldl_outcome f s ys)"
proof (induction xs arbitrary: s)
  case (Cons x xs)
  then show ?case by (cases "f s x") simp_all
qed simp

section \<open>Slices\<close>

type_synonym 'a slice = "'a list option"

definition elems :: "'a slice \<Rightarrow> 'a list" where
  "elems s = (case s of None \<Rightarrow> [] | Some xs \<Rightarrow> xs)"

lemma elems_simps [simp]: "elems None = []" "elems (Some xs) = xs"
  by (simp_all add: elems_def)

definition slice_sort :: "'a::linorder slice \<Rightarrow> 'a slice" where
  "slice_sort s = map_option sort s"

definition slice_append :: "'a slice \<Rightarrow> 'a \<Rightarrow> 'a slice" where
  "slice_append s x = Some (elems s @ [x])"

definition slice_delete_func :: "('a \<Rightarrow> bool) \<Rightarrow> 'a slice \<Rightarrow> 'a slice" where
  "slice_delete_func p s = map_option (filter (\<lambda>x. \<not> p x)) s"

lemma elems_slice_ops [simp]:
  "elems (slice_sort s) = sort (elems s)"
  "elems (slice_append s x) = elems s @ [x]"
  "elems (slice_delete_func p s) = filter (\<lambda>x. \<not> p x) (elems s)"
  by (auto simp: slice_sort_def slice_append_def slice_delete_func_def elems_def
      split: option.splits)

text \<open>
  \<open>slices.DeleteFunc\<close> works in place: the kept elements move to the front and the tail is
  zeroed. This is the backing array after the call, for code that ignores the returned slice.
\<close>

definition delete_func_in_place :: "'a \<Rightarrow> ('a \<Rightarrow> bool) \<Rightarrow> 'a list \<Rightarrow> 'a list" where
  "delete_func_in_place zero p xs =
     (let kept = filter (\<lambda>x. \<not> p x) xs
      in kept @ replicate (length xs - length kept) zero)"

lemma length_delete_func_in_place [simp]:
  "length (delete_func_in_place zero p xs) = length xs"
  by (simp add: delete_func_in_place_def Let_def)

lemma set_delete_func_in_place:
  "set (delete_func_in_place zero p xs) \<subseteq> insert zero (set xs)"
  by (auto simp: delete_func_in_place_def Let_def)

lemma delete_func_in_place_clean:
  "p' zero \<Longrightarrow> filter (\<lambda>x. \<not> p' x) (delete_func_in_place zero p xs)
     = filter (\<lambda>x. \<not> p' x \<and> \<not> p x) xs"
  by (simp add: delete_func_in_place_def Let_def conj_commute)

section \<open>Maps\<close>

type_synonym ('k, 'v) gomap = "('k \<times> 'v) list"

definition gok :: "('k, 'v) gomap \<Rightarrow> bool" where
  "gok m = distinct (map fst m)"

definition gget :: "('k, 'v) gomap \<Rightarrow> 'k \<Rightarrow> 'v option" where
  "gget m k = map_of m k"

definition gput :: "'k \<Rightarrow> 'v \<Rightarrow> ('k, 'v) gomap \<Rightarrow> ('k, 'v) gomap" where
  "gput k v m = AList.update k v m"

definition gdelete_func :: "('k \<Rightarrow> 'v \<Rightarrow> bool) \<Rightarrow> ('k, 'v) gomap \<Rightarrow> ('k, 'v) gomap" where
  "gdelete_func p m = filter (\<lambda>(k, v). \<not> p k v) m"

definition gdel :: "'k \<Rightarrow> ('k, 'v) gomap \<Rightarrow> ('k, 'v) gomap" where
  "gdel k m = gdelete_func (\<lambda>k' _. k' = k) m"

definition ghas :: "('k, 'v) gomap \<Rightarrow> 'k \<Rightarrow> bool" where
  "ghas m k \<longleftrightarrow> gget m k \<noteq> None"

abbreviation gkeys :: "('k, 'v) gomap \<Rightarrow> 'k list" where
  "gkeys m \<equiv> map fst m"

abbreviation gvals :: "('k, 'v) gomap \<Rightarrow> 'v list" where
  "gvals m \<equiv> map snd m"

text \<open>Reading a missing key gives the zero value of the element type; here for strings.\<close>

definition gstr :: "('k, string) gomap \<Rightarrow> 'k \<Rightarrow> string" where
  "gstr m k = (case gget m k of None \<Rightarrow> '''' | Some v \<Rightarrow> v)"

text \<open>A nil map reads as an empty one.\<close>

definition gmap_of :: "('k, 'v) gomap option \<Rightarrow> ('k, 'v) gomap" where
  "gmap_of m = (case m of None \<Rightarrow> [] | Some m' \<Rightarrow> m')"

lemma gmap_of_simps [simp]: "gmap_of None = []" "gmap_of (Some m) = m"
  by (simp_all add: gmap_of_def)

text \<open>\<open>reflect.DeepEqual\<close> on maps: same keys, equal values, in any order.\<close>

definition geq :: "('k, 'v) gomap \<Rightarrow> ('k, 'v) gomap \<Rightarrow> bool" where
  "geq a b \<longleftrightarrow> list_all (\<lambda>(k, v). gget b k = Some v) a \<and> list_all (\<lambda>(k, v). gget a k = Some v) b"

definition geq_nil :: "('k, 'v) gomap option \<Rightarrow> ('k, 'v) gomap option \<Rightarrow> bool" where
  "geq_nil a b = (case (a, b) of
      (None, None) \<Rightarrow> True
    | (Some x, Some y) \<Rightarrow> geq x y
    | _ \<Rightarrow> False)"

text \<open>\<open>maps.Copy(dst, src)\<close>.\<close>

definition gcopy :: "('k, 'v) gomap \<Rightarrow> ('k, 'v) gomap \<Rightarrow> ('k, 'v) gomap" where
  "gcopy dst src = foldl (\<lambda>m (k, v). gput k v m) dst src"

text \<open>What a client of a map relies on, with the lemmas that follow from it alone.\<close>

locale go_map =
  fixes get :: "'m \<Rightarrow> 'k \<Rightarrow> 'v option"
    and put :: "'k \<Rightarrow> 'v \<Rightarrow> 'm \<Rightarrow> 'm"
    and del :: "'k \<Rightarrow> 'm \<Rightarrow> 'm"
    and ok :: "'m \<Rightarrow> bool"
  assumes get_put: "get (put k v m) k' = (if k' = k then Some v else get m k')"
    and get_del: "get (del k m) k' = (if k' = k then None else get m k')"
    and ok_put: "ok m \<Longrightarrow> ok (put k v m)"
    and ok_del: "ok m \<Longrightarrow> ok (del k m)"
begin

lemma get_fill:
  "get (foldl (\<lambda>m k. put k (f k) m) m ks) k = (if k \<in> set ks then Some (f k) else get m k)"
  by (induction ks arbitrary: m) (auto simp: get_put)

lemma ok_fill: "ok m \<Longrightarrow> ok (foldl (\<lambda>m k. put k (f k) m) m ks)"
  by (induction ks arbitrary: m) (auto simp: ok_put)

lemma get_del_all:
  "get (foldl (\<lambda>m k. if p k then del k m else m) m ks) k
     = (if k \<in> set ks \<and> p k then None else get m k)"
  by (induction ks arbitrary: m) (auto simp: get_del)

lemma get_copy:
  "distinct (map fst kvs) \<Longrightarrow>
   get (foldl (\<lambda>m (k, v). put k v m) m kvs) k
     = (case map_of kvs k of None \<Rightarrow> get m k | Some v \<Rightarrow> Some v)"
proof (induction kvs arbitrary: m)
  case Nil
  then show ?case by simp
next
  case (Cons kv kvs)
  obtain a b where kv: "kv = (a, b)" by (cases kv)
  from Cons.prems kv have "map_of kvs a = None"
    by (simp add: map_of_eq_None_iff)
  with Cons kv show ?case by (auto simp: get_put split: option.splits)
qed

end

lemma gget_put [gomap_simps]: "gget (gput k v m) k' = (if k' = k then Some v else gget m k')"
  by (auto simp: gget_def gput_def update_conv)

lemma gok_put [intro]: "gok m \<Longrightarrow> gok (gput k v m)"
  by (simp add: gok_def gput_def distinct_update)

lemma gget_delete_func:
  "gok m \<Longrightarrow> gget (gdelete_func p m) k =
     (case gget m k of None \<Rightarrow> None | Some v \<Rightarrow> if p k v then None else Some v)"
proof (induction m)
  case Nil
  then show ?case by (simp add: gget_def gdelete_func_def)
next
  case (Cons kv m)
  obtain a b where kv: "kv = (a, b)" by (cases kv)
  from Cons.prems kv have "gok m" and na: "map_of m a = None"
    by (auto simp: gok_def map_of_eq_None_iff)
  with Cons.IH kv show ?case
    by (auto simp: gget_def gdelete_func_def split: option.splits)
qed

lemma gget_del [gomap_simps]: "gget (gdel k m) k' = (if k' = k then None else gget m k')"
  by (induction m) (auto simp: gget_def gdel_def gdelete_func_def)

lemma gok_delete_func [intro]: "gok m \<Longrightarrow> gok (gdelete_func p m)"
  unfolding gok_def gdelete_func_def by (rule distinct_map_filter)

lemma gok_del [intro]: "gok m \<Longrightarrow> gok (gdel k m)"
  by (auto simp: gdel_def)

interpretation gm: go_map gget gput gdel gok
  by unfold_locales (auto simp: gomap_simps)

lemma gget_Some_iff: "gok m \<Longrightarrow> gget m k = Some v \<longleftrightarrow> (k, v) \<in> set m"
  by (simp add: gget_def gok_def)

lemma gget_None_iff: "gget m k = None \<longleftrightarrow> k \<notin> set (gkeys m)"
  by (simp add: gget_def map_of_eq_None_iff)

lemma ghas_iff: "ghas m k \<longleftrightarrow> k \<in> set (gkeys m)"
  by (auto simp: ghas_def gget_None_iff)

lemma gget_Nil [simp]: "gget [] k = None"
  by (simp add: gget_def)

lemma gok_Nil [simp]: "gok []"
  by (simp add: gok_def)

lemma gget_Cons [simp]: "gget ((a, b) # m) k = (if k = a then Some b else gget m k)"
  by (simp add: gget_def)

lemma gkeys_put: "set (gkeys (gput k v m)) = insert k (set (gkeys m))"
  by (simp add: gput_def dom_update)

lemma fst_set_put [simp]: "fst ` set (gput k v m) = insert k (fst ` set m)"
  using gkeys_put [of k v m] by simp

lemma geq_iff: "gok a \<Longrightarrow> gok b \<Longrightarrow> geq a b \<longleftrightarrow> (\<forall>k. gget a k = gget b k)"
proof
  assume ok: "gok a" "gok b" and eq: "geq a b"
  show "\<forall>k. gget a k = gget b k"
  proof
    fix k
    show "gget a k = gget b k"
    proof (cases "gget a k")
      case None
      have "gget b k \<noteq> Some v" for v
        using eq None by (auto simp: geq_def list_all_iff dest!: gget_Some_iff [OF ok(2), THEN iffD1])
      with None show ?thesis by (cases "gget b k") auto
    next
      case (Some v)
      then have "gget b k = Some v"
        using eq ok by (auto simp: geq_def list_all_iff gget_Some_iff)
      with Some show ?thesis by simp
    qed
  qed
next
  assume ok: "gok a" "gok b" and eq: "\<forall>k. gget a k = gget b k"
  then show "geq a b"
    by (auto simp: geq_def list_all_iff gget_Some_iff [symmetric])
qed

lemma geq_refl [simp]: "gok m \<Longrightarrow> geq m m"
  by (simp add: geq_iff)

lemma geq_nil_refl: "gok (gmap_of m) \<Longrightarrow> geq_nil m m"
  by (cases m) (auto simp: geq_nil_def)

lemma gget_copy:
  "gok src \<Longrightarrow> gget (gcopy dst src) k
     = (case gget src k of None \<Rightarrow> gget dst k | Some v \<Rightarrow> Some v)"
  using gm.get_copy [of src dst k] by (simp add: gcopy_def gok_def gget_def)

lemma gok_copy [intro]: "gok dst \<Longrightarrow> gok (gcopy dst src)"
  unfolding gcopy_def by (induction src arbitrary: dst) auto

lemma gstr_put [gomap_simps]: "gstr (gput k v m) k' = (if k' = k then v else gstr m k')"
  by (simp add: gstr_def gget_put)

section \<open>Lists\<close>

definition list_contains :: "'a list \<Rightarrow> 'a \<Rightarrow> bool" where
  "list_contains xs x = list_ex (\<lambda>y. y = x) xs"

lemma list_contains_iff [simp]: "list_contains xs x \<longleftrightarrow> x \<in> set xs"
  by (auto simp: list_contains_def list_ex_iff)

fun find_index :: "('a \<Rightarrow> bool) \<Rightarrow> 'a list \<Rightarrow> nat option" where
  "find_index p [] = None"
| "find_index p (x # xs) = (if p x then Some 0 else map_option Suc (find_index p xs))"

lemma find_index_Some:
  "find_index p xs = Some i \<Longrightarrow> i < length xs \<and> p (xs ! i)"
  by (induction xs arbitrary: i) (auto split: if_splits)

lemma find_index_None: "find_index p xs = None \<longleftrightarrow> (\<forall>x \<in> set xs. \<not> p x)"
  by (induction xs) auto

lemma find_Some_in: "find p xs = Some x \<Longrightarrow> x \<in> set xs \<and> p x"
  by (auto simp: find_Some_iff)

text \<open>
  \<open>slices.BinarySearchFunc\<close>, its found flag: the insertion point is the first index whose key is
  not below the target, found by halving; the element there must have the target's key.
\<close>

function bsearch_loop :: "(nat \<Rightarrow> bool) \<Rightarrow> nat \<Rightarrow> nat \<Rightarrow> nat" where
  "bsearch_loop below i j =
     (if i < j then
        (let h = (i + j) div 2
         in if below h then bsearch_loop below (h + 1) j else bsearch_loop below i h)
      else i)"
  by pat_completeness auto
termination
  by (relation "measure (\<lambda>(below, i, j). j - i)") auto

declare bsearch_loop.simps [simp del]

definition binary_search_found :: "('a \<Rightarrow> 'k::linorder) \<Rightarrow> 'a list \<Rightarrow> 'k \<Rightarrow> bool" where
  "binary_search_found key xs k =
     (let n = length xs; i = bsearch_loop (\<lambda>h. key (xs ! h) < k) 0 n
      in i < n \<and> key (xs ! i) = k)"

lemma bsearch_loop_bounds:
  assumes "i \<le> j" and "\<And>a b. a \<le> b \<Longrightarrow> b < j \<Longrightarrow> below b \<Longrightarrow> below a"
  shows "i \<le> bsearch_loop below i j \<and> bsearch_loop below i j \<le> j
    \<and> (\<forall>a. i \<le> a \<and> a < bsearch_loop below i j \<longrightarrow> below a)
    \<and> (\<forall>a. bsearch_loop below i j \<le> a \<and> a < j \<longrightarrow> \<not> below a)"
  using assms
proof (induction below i j rule: bsearch_loop.induct)
  case (1 below i j)
  let ?h = "(i + j) div 2"
  show ?case
  proof (cases "i < j")
    case False
    then have "bsearch_loop below i j = i" by (subst bsearch_loop.simps) simp
    with "1.prems"(1) False show ?thesis by auto
  next
    case True
    then have h: "i \<le> ?h" "?h < j" by auto
    show ?thesis
    proof (cases "below ?h")
      case hb: True
      let ?r = "bsearch_loop below (?h + 1) j"
      have le: "below a" if "a \<le> ?h" for a using "1.prems"(2) h hb that by blast
      have IH: "?h + 1 \<le> ?r \<and> ?r \<le> j \<and> (\<forall>a. ?h + 1 \<le> a \<and> a < ?r \<longrightarrow> below a)
        \<and> (\<forall>a. ?r \<le> a \<and> a < j \<longrightarrow> \<not> below a)"
        using "1.IH"(1) [OF True refl hb] "1.prems"(2) h by simp
      have "below a" if "a < ?r" for a
        using le [of a] IH that by (cases "a \<le> ?h") auto
      moreover have "bsearch_loop below i j = ?r"
        using True hb by (simp add: bsearch_loop.simps [of below i j] Let_def)
      ultimately show ?thesis using IH h by auto
    next
      case hb: False
      let ?r = "bsearch_loop below i ?h"
      have ge: "\<not> below a" if "?h \<le> a" "a < j" for a using "1.prems"(2) hb that by blast
      have IH: "i \<le> ?r \<and> ?r \<le> ?h \<and> (\<forall>a. i \<le> a \<and> a < ?r \<longrightarrow> below a)
        \<and> (\<forall>a. ?r \<le> a \<and> a < ?h \<longrightarrow> \<not> below a)"
      proof (rule "1.IH"(2) [OF True refl hb h(1)])
        show "below a" if "a \<le> b" "b < ?h" "below b" for a b
          using "1.prems"(2) that h by (meson less_trans)
      qed
      have "\<not> below a" if "?r \<le> a" "a < j" for a
        using ge [of a] IH that by (cases "?h \<le> a") auto
      moreover have "bsearch_loop below i j = ?r"
        using True hb by (simp add: bsearch_loop.simps [of below i j] Let_def)
      ultimately show ?thesis using IH h by auto
    qed
  qed
qed

lemma binary_search_found_iff:
  assumes "sorted (map key xs)"
  shows "binary_search_found key xs k \<longleftrightarrow> (\<exists>x \<in> set xs. key x = k)"
proof -
  let ?below = "\<lambda>h. key (xs ! h) < k"
  let ?i = "bsearch_loop ?below 0 (length xs)"
  have mono: "\<And>a b. a \<le> b \<Longrightarrow> b < length xs \<Longrightarrow> ?below b \<Longrightarrow> ?below a"
  proof -
    fix a b :: nat
    assume "a \<le> b" "b < length xs" "?below b"
    moreover then have "key (xs ! a) \<le> key (xs ! b)"
      using assms sorted_nth_mono [of "map key xs" a b] by simp
    ultimately show "?below a" by simp
  qed
  have "0 \<le> ?i \<and> ?i \<le> length xs \<and> (\<forall>a. 0 \<le> a \<and> a < ?i \<longrightarrow> ?below a)
    \<and> (\<forall>a. ?i \<le> a \<and> a < length xs \<longrightarrow> \<not> ?below a)"
    by (rule bsearch_loop_bounds [OF le0]) (rule mono)
  then have b: "?i \<le> length xs" "\<And>a. a < ?i \<Longrightarrow> ?below a"
    "\<And>a. ?i \<le> a \<Longrightarrow> a < length xs \<Longrightarrow> \<not> ?below a"
    by blast+
  show ?thesis
  proof
    assume "binary_search_found key xs k"
    then show "\<exists>x \<in> set xs. key x = k"
      by (auto simp: binary_search_found_def Let_def)
  next
    assume "\<exists>x \<in> set xs. key x = k"
    then obtain n where n: "n < length xs" "key (xs ! n) = k"
      by (auto simp: in_set_conv_nth)
    have "?i \<le> n" using b(2) [of n] n by (cases "?i \<le> n") auto
    moreover with n have "key (xs ! ?i) \<le> k"
      using assms sorted_nth_mono [of "map key xs" ?i n] by simp
    moreover have "\<not> ?below ?i" using b(3) [of ?i] \<open>?i \<le> n\<close> n by simp
    ultimately show "binary_search_found key xs k"
      using n by (auto simp: binary_search_found_def Let_def)
  qed
qed

end
