(* ===== verification/Go_Strings.thy ===== *)
theory Go_Strings
  imports Prelude
begin

text \<open>
  The functions of Go's \<open>strings\<close> and \<open>strconv\<close> packages that the source calls, on byte
  strings: \<open>Join\<close>, \<open>Split\<close> and \<open>Cut\<close> at a one-byte separator, \<open>Count\<close> of one byte,
  \<open>HasSuffix\<close>, \<open>TrimSpace\<close> (its ASCII white space), \<open>TrimRight\<close> with a one-byte cutset,
  \<open>Replace\<close> of the first occurrence of a byte, \<open>FormatInt\<close>, \<open>ParseUint\<close> and \<open>ParseInt\<close>
  in base 10. The two parsers return the value and the error as Go does, because one caller
  ignores the error and keeps the value.
\<close>

section \<open>Joining, splitting, cutting\<close>

fun go_join :: "string \<Rightarrow> string list \<Rightarrow> string" where
  "go_join sep [] = []"
| "go_join sep [x] = x"
| "go_join sep (x # y # ys) = x @ sep @ go_join sep (y # ys)"

fun split_on :: "char \<Rightarrow> string \<Rightarrow> string list" where
  "split_on c [] = [[]]"
| "split_on c (x # xs) =
     (if x = c then [] # split_on c xs
      else (case split_on c xs of [] \<Rightarrow> [[x]] | p # ps \<Rightarrow> (x # p) # ps))"

lemma split_on_not_Nil [simp]: "split_on c xs \<noteq> []"
  by (cases xs) (auto split: list.splits)

lemma split_on_no_sep: "c \<notin> set xs \<Longrightarrow> split_on c xs = [xs]"
  by (induction xs) auto

lemma split_on_append: "c \<notin> set xs \<Longrightarrow> split_on c (xs @ c # ys) = xs # split_on c ys"
  by (induction xs) auto

lemma split_on_join:
  "xs \<noteq> [] \<Longrightarrow> (\<And>x. x \<in> set xs \<Longrightarrow> c \<notin> set x) \<Longrightarrow> split_on c (go_join [c] xs) = xs"
  by (induction "[c]" xs rule: go_join.induct) (auto simp: split_on_no_sep split_on_append)

lemma join_split_on: "go_join [c] (split_on c xs) = xs"
proof (induction xs)
  case Nil
  then show ?case by simp
next
  case (Cons x xs)
  obtain p ps where p: "split_on c xs = p # ps" by (cases "split_on c xs") auto
  with Cons.IH show ?case by (cases ps) auto
qed

text \<open>\<open>strings.Cut\<close>: before, after and whether the separator was found.\<close>

fun cut_at :: "char \<Rightarrow> string \<Rightarrow> string \<times> string \<times> bool" where
  "cut_at c [] = ([], [], False)"
| "cut_at c (x # xs) =
     (if x = c then ([], xs, True)
      else (case cut_at c xs of (b, a, f) \<Rightarrow> (x # b, a, f)))"

lemma cut_at_append: "c \<notin> set xs \<Longrightarrow> cut_at c (xs @ c # ys) = (xs, ys, True)"
  by (induction xs) auto

lemma cut_at_none: "c \<notin> set xs \<Longrightarrow> cut_at c xs = (xs, [], False)"
  by (induction xs) auto

lemma cut_at_found: "cut_at c xs = (b, a, True) \<Longrightarrow> xs = b @ c # a \<and> c \<notin> set b"
  by (induction xs arbitrary: b) (auto split: if_splits prod.splits)

definition count_char :: "char \<Rightarrow> string \<Rightarrow> nat" where
  "count_char c s = length (filter (\<lambda>x. x = c) s)"

definition has_suffix :: "string \<Rightarrow> string \<Rightarrow> bool" where
  "has_suffix s suf \<longleftrightarrow> length suf \<le> length s \<and> drop (length s - length suf) s = suf"

lemma has_suffix_iff: "has_suffix s suf \<longleftrightarrow> (\<exists>p. s = p @ suf)"
  unfolding has_suffix_def by (metis append_eq_conv_conj append_take_drop_id diff_add_inverse2
      le_add2 length_append add_diff_cancel_right')

definition is_space :: "char \<Rightarrow> bool" where
  "is_space c \<longleftrightarrow> list_contains [CHR '' '', CHR 0x09, CHR 0x0A, CHR 0x0B, CHR 0x0C, CHR 0x0D] c"

definition trim_right :: "(char \<Rightarrow> bool) \<Rightarrow> string \<Rightarrow> string" where
  "trim_right p s = rev (dropWhile p (rev s))"

definition trim_space :: "string \<Rightarrow> string" where
  "trim_space s = trim_right is_space (dropWhile is_space s)"

lemma trim_space_Nil [simp]: "trim_space [] = []"
  by (simp add: trim_space_def trim_right_def)

lemma trim_right_Nil_iff: "trim_right p s = [] \<longleftrightarrow> (\<forall>c \<in> set s. p c)"
  by (simp add: trim_right_def dropWhile_eq_Nil_conv)

fun replace_first :: "char \<Rightarrow> string \<Rightarrow> string \<Rightarrow> string" where
  "replace_first c r [] = []"
| "replace_first c r (x # xs) = (if x = c then r @ xs else x # replace_first c r xs)"

lemma replace_first_append: "c \<notin> set xs \<Longrightarrow> replace_first c r (xs @ c # ys) = xs @ r @ ys"
  by (induction xs) auto

section \<open>Numbers\<close>

definition digit_char :: "nat \<Rightarrow> char" where
  "digit_char d = char_of (48 + d)"

definition char_digit :: "char \<Rightarrow> nat option" where
  "char_digit c = (let n = of_char c :: nat in if 48 \<le> n \<and> n \<le> 57 then Some (n - 48) else None)"

lemma char_digit_digit_char [simp]: "d < 10 \<Longrightarrow> char_digit (digit_char d) = Some d"
  by (simp add: digit_char_def char_digit_def Let_def)

fun show_nat :: "nat \<Rightarrow> string" where
  "show_nat n = (if n < 10 then [digit_char n] else show_nat (n div 10) @ [digit_char (n mod 10)])"

declare show_nat.simps [simp del]

definition show_int :: "int \<Rightarrow> string" where
  "show_int i = (if i < 0 then CHR ''-'' # show_nat (nat (- i)) else show_nat (nat i))"

datatype num_error = ErrSyntax | ErrRange

text \<open>
  The digit loop of \<open>ParseUint\<close>: it gives up with a range error as soon as the value exceeds the
  largest one of the given width, before it looks at the rest of the string.
\<close>

fun parse_digits :: "nat \<Rightarrow> nat \<Rightarrow> string \<Rightarrow> nat \<times> num_error option" where
  "parse_digits mx acc [] = (acc, None)"
| "parse_digits mx acc (c # cs) =
     (case char_digit c of
        None \<Rightarrow> (0, Some ErrSyntax)
      | Some d \<Rightarrow> let n = acc * 10 + d in
          if mx < n then (mx, Some ErrRange) else parse_digits mx n cs)"

definition parse_uint :: "nat \<Rightarrow> string \<Rightarrow> nat \<times> num_error option" where
  "parse_uint bits s =
     (if s = [] then (0, Some ErrSyntax) else parse_digits (2 ^ bits - 1) 0 s)"

definition parse_int :: "nat \<Rightarrow> string \<Rightarrow> int \<times> num_error option" where
  "parse_int bits s =
     (case s of [] \<Rightarrow> (0, Some ErrSyntax)
      | c # cs \<Rightarrow>
        (let neg = (c = CHR ''-''); body = (if c = CHR ''+'' \<or> neg then cs else s);
             cutoff = 2 ^ (bits - 1)
         in (case parse_uint bits body of
               (_, Some ErrSyntax) \<Rightarrow> (0, Some ErrSyntax)
             | (un, _) \<Rightarrow>
                 if \<not> neg \<and> cutoff \<le> un then (int cutoff - 1, Some ErrRange)
                 else if neg \<and> cutoff < un then (- int cutoff, Some ErrRange)
                 else (if neg then - int un else int un, None))))"

lemma parse_digits_append:
  "parse_digits mx acc (xs @ ys) =
     (case parse_digits mx acc xs of (n, None) \<Rightarrow> parse_digits mx n ys | r \<Rightarrow> r)"
  by (induction xs arbitrary: acc) (auto simp: Let_def split: option.splits)

lemma parse_digits_show: "n \<le> mx \<Longrightarrow> parse_digits mx 0 (show_nat n) = (n, None)"
proof (induction n rule: show_nat.induct)
  case (1 n)
  show ?case
  proof (cases "n < 10")
    case True
    with "1.prems" show ?thesis by (subst show_nat.simps) (simp add: Let_def)
  next
    case False
    with 1 have "parse_digits mx 0 (show_nat (n div 10)) = (n div 10, None)" by simp
    moreover have "n div 10 * 10 + n mod 10 = n" by simp
    ultimately show ?thesis
      using False "1.prems" by (subst show_nat.simps) (simp add: parse_digits_append Let_def)
  qed
qed

lemma show_nat_digits: "set (show_nat n) \<subseteq> digit_char ` {0..<10}"
proof (induction n rule: show_nat.induct)
  case (1 n)
  show ?case
  proof (cases "n < 10")
    case True
    then show ?thesis by (subst show_nat.simps) simp
  next
    case False
    with 1 have "set (show_nat (n div 10)) \<subseteq> digit_char ` {0..<10}" by simp
    moreover have "digit_char (n mod 10) \<in> digit_char ` {0..<10}" by simp
    ultimately show ?thesis using False by (subst show_nat.simps) simp
  qed
qed

lemma show_nat_not_Nil [simp]: "show_nat n \<noteq> []"
  by (subst show_nat.simps) simp

lemma digit_char_not: "d < 10 \<Longrightarrow> c \<in> {CHR ''-'', CHR ''+'', CHR ''.'', CHR ''/''} \<Longrightarrow> digit_char d \<noteq> c"
proof
  assume "d < 10" "c \<in> {CHR ''-'', CHR ''+'', CHR ''.'', CHR ''/''}" "digit_char d = c"
  then have "char_digit c = Some d" using char_digit_digit_char [of d] by simp
  with \<open>c \<in> _\<close> show False by (auto simp: char_digit_def)
qed

lemma show_nat_no_sep:
  "c \<in> {CHR ''-'', CHR ''+'', CHR ''.'', CHR ''/''} \<Longrightarrow> c \<notin> set (show_nat n)"
proof
  assume c: "c \<in> {CHR ''-'', CHR ''+'', CHR ''.'', CHR ''/''}" and "c \<in> set (show_nat n)"
  with show_nat_digits [of n] obtain d where "d < 10" "c = digit_char d" by auto
  with digit_char_not [of d c] c show False by simp
qed

lemma parse_uint_show: "n < 2 ^ bits \<Longrightarrow> parse_uint bits (show_nat n) = (n, None)"
  by (simp add: parse_uint_def parse_digits_show)

lemma parse_int_show:
  assumes "0 < bits" and "- (2 ^ (bits - 1)) \<le> i" and "i < 2 ^ (bits - 1)"
  shows "parse_int bits (show_int i) = (i, None)"
proof (cases "i < 0")
  case True
  then have le: "nat (- i) \<le> 2 ^ (bits - 1)" using assms(2) by (simp add: nat_le_iff)
  also have "(2::nat) ^ (bits - 1) < 2 ^ bits" using assms(1) by simp
  finally have "parse_uint bits (show_nat (nat (- i))) = (nat (- i), None)"
    by (rule parse_uint_show)
  with True le show ?thesis by (simp add: parse_int_def show_int_def Let_def)
next
  case False
  then have lt: "nat i < 2 ^ (bits - 1)" using assms(3) by (simp add: nat_less_iff)
  also have "(2::nat) ^ (bits - 1) < 2 ^ bits" using assms(1) by simp
  finally have pu: "parse_uint bits (show_nat (nat i)) = (nat i, None)"
    by (rule parse_uint_show)
  obtain c cs where s: "show_nat (nat i) = c # cs" by (cases "show_nat (nat i)") auto
  have "c \<noteq> CHR ''-'' \<and> c \<noteq> CHR ''+''"
    using show_nat_no_sep [of _ "nat i"] s by auto
  with False lt pu s show ?thesis by (simp add: parse_int_def show_int_def Let_def)
qed

lemma parse_int_bounds:
  assumes "parse_int bits s = (i, e)"
  shows "- (2 ^ (bits - 1)) \<le> i \<and> i < 2 ^ (bits - 1)"
proof -
  have a: "- int x < 2 ^ k" for x k by (rule le_less_trans [of _ 0]) auto
  have b: "- (2 ^ k) \<le> int x" for x k by (rule order_trans [of _ 0]) auto
  show ?thesis
    using assms
    by (auto simp: parse_int_def Let_def a b split: list.splits if_splits prod.splits
        option.splits num_error.splits)
qed

end
