(* ===== verification/Api.thy ===== *)
theory Api
  imports Go_Strings "HOL-Library.Word"
begin

text \<open>
  The custom resources of \<open>api/v1\<close>: \<open>Child\<close>, \<open>IPSecConnectionSpec\<close>,
  \<open>IPSecConnectionStatus\<close>, \<open>IPSecConnection\<close>, \<open>CharonGroup\<close> and its references, the
  annotation and label keys, and the comparisons defined on them. Of the Kubernetes object
  metadata the model keeps the name and the namespace, which is all the code reads.
\<close>

section \<open>Names and keys (constants.go)\<close>

definition DeletePodMaxRetries :: nat where "DeletePodMaxRetries = 5"
definition UpdateStatusMaxRetries :: nat where "UpdateStatusMaxRetries = 5"
definition ReconcilerPendingIPsTimeoutSeconds :: int where
  "ReconcilerPendingIPsTimeoutSeconds = 35"

definition LabelPodType :: string where "LabelPodType = ''ipman.dialo.ai/type''"
definition LabelWorker :: string where "LabelWorker = ''ipman.dialo.ai/worker''"
definition LabelValueCharonPod :: string where "LabelValueCharonPod = ''charon''"
definition LabelValueRestctlPod :: string where "LabelValueRestctlPod = ''restctl''"
definition LabelValueXfrmPod :: string where "LabelValueXfrmPod = ''xfrm''"
definition JobNamePrefix :: string where "JobNamePrefix = ''ipman-injector''"
definition LabelGroupName :: string where "LabelGroupName = ''ipman.dialo.ai/group''"
definition LabelGroupNamespace :: string where
  "LabelGroupNamespace = ''ipman.dialo.ai/groupNamespace''"

definition AnnotationChildName :: string where "AnnotationChildName = ''ipman.dialo.ai/childName''"
definition AnnotationIpmanName :: string where "AnnotationIpmanName = ''ipman.dialo.ai/ipmanName''"
definition AnnotationPoolName :: string where "AnnotationPoolName = ''ipman.dialo.ai/poolName''"
definition AnnotationVxlanIP :: string where "AnnotationVxlanIP = ''ipman.dialo.ai/vxlanIp''"
definition AnnotationXfrmIP :: string where "AnnotationXfrmIP = ''ipman.dialo.ai/xfrmIp''"
definition AnnotationIntefaceID :: string where "AnnotationIntefaceID = ''ipman.dialo.ai/interfaceId''"
definition AnnotationRemoteIPs :: string where "AnnotationRemoteIPs = ''ipman.dialo.ai/remoteIps''"
definition AnnotationSpec :: string where "AnnotationSpec = ''ipman.dialo.ai/spec''"
definition AnnotationLocalIPs :: string where "AnnotationLocalIPs = ''ipman.dialo.ai/localIps''"
definition AnnotationXfrmUnderlyingIP :: string where
  "AnnotationXfrmUnderlyingIP = ''ipman.dialo.ai/xfrmUnderlyingIp''"

lemmas annotation_key_defs =
  AnnotationChildName_def AnnotationIpmanName_def AnnotationPoolName_def AnnotationVxlanIP_def
  AnnotationXfrmIP_def AnnotationIntefaceID_def AnnotationRemoteIPs_def AnnotationSpec_def
  AnnotationLocalIPs_def AnnotationXfrmUnderlyingIP_def

lemmas label_key_defs =
  LabelPodType_def LabelWorker_def LabelGroupName_def LabelGroupNamespace_def

definition XfrminionContainerName :: string where "XfrminionContainerName = ''xfrm-container''"
definition XfrmPodName :: string where "XfrmPodName = ''xfrm-pod''"
definition NodeSelectorHostName :: string where "NodeSelectorHostName = ''kubernetes.io/hostname''"
definition InterfaceRequestContainerName :: string where
  "InterfaceRequestContainerName = ''iface-request''"
definition CharonSocketHostVolumeName :: string where
  "CharonSocketHostVolumeName = ''charon-host-socket''"
definition CharonPodName :: string where "CharonPodName = ''charon-pod''"
definition RestctlPodName :: string where "RestctlPodName = ''restctl-pod''"
definition CharonSocketVolumeMountPath :: string where "CharonSocketVolumeMountPath = ''/var/run/''"
definition CharonConfVolumeName :: string where "CharonConfVolumeName = ''charon-conf''"
definition CharonConfVolumeMountPath :: string where "CharonConfVolumeMountPath = ''/etc/swanctl/''"
definition RestctlPort :: nat where "RestctlPort = 61410"
definition RestctlPortName :: string where "RestctlPortName = ''api''"
definition CharonAPIProxyContainerName :: string where "CharonAPIProxyContainerName = ''restctl''"
definition CharonDaemonContainerName :: string where "CharonDaemonContainerName = ''charon-daemon''"
definition RestctlContainerName :: string where "RestctlContainerName = ''restctl''"
definition LeasePrefix :: string where "LeasePrefix = ''ipman''"
definition LeasePostfix :: string where "LeasePostfix = ''lease-lock''"
definition WorkerContainerVxlanIPEnvVarName :: string where
  "WorkerContainerVxlanIPEnvVarName = ''VXLAN_IP''"

section \<open>Charon groups (charongroup.go)\<close>

record nsn =
  nsn_name :: string
  nsn_namespace :: string

record charon_group_spec =
  gs_hostNetwork :: bool
  gs_annotations :: "(string, string) gomap option"
  gs_nodeName :: string
  gs_interfaceName :: "string option"

record charon_group =
  g_name :: string
  g_namespace :: string
  g_spec :: charon_group_spec

record charon_group_ref =
  gr_name :: string
  gr_namespace :: string

definition CharonGroup_Nsn :: "charon_group \<Rightarrow> nsn" where
  "CharonGroup_Nsn g = \<lparr>nsn_name = g_name g, nsn_namespace = g_namespace g\<rparr>"

definition CharonGroupRef_Nsn :: "charon_group_ref \<Rightarrow> nsn" where
  "CharonGroupRef_Nsn r = \<lparr>nsn_name = gr_name r, nsn_namespace = gr_namespace r\<rparr>"

text \<open>\<open>SameNsn\<close> is generic in two types with an \<open>Nsn\<close> method, passed here as functions.\<close>

definition SameNsn :: "('a \<Rightarrow> nsn) \<Rightarrow> ('b \<Rightarrow> nsn) \<Rightarrow> 'a \<Rightarrow> 'b \<Rightarrow> bool" where
  "SameNsn nsnA nsnB a b \<longleftrightarrow> nsnA a = nsnB b"

definition CharonGroup_Equals :: "charon_group \<Rightarrow> charon_group_ref \<Rightarrow> bool" where
  "CharonGroup_Equals g other = SameNsn CharonGroup_Nsn CharonGroupRef_Nsn g other"

definition CharonGroupRef_Equals :: "charon_group_ref \<Rightarrow> charon_group_ref \<Rightarrow> bool" where
  "CharonGroupRef_Equals gr other = SameNsn CharonGroupRef_Nsn CharonGroupRef_Nsn other gr"

definition CharonGroup_String :: "charon_group \<Rightarrow> string" where
  "CharonGroup_String g = g_name g @ ''-'' @ g_namespace g"

lemma CharonGroupRef_Equals_iff: "CharonGroupRef_Equals a b \<longleftrightarrow> a = b"
  by (cases a; cases b) (auto simp: CharonGroupRef_Equals_def SameNsn_def CharonGroupRef_Nsn_def)

lemma CharonGroup_Equals_iff:
  "CharonGroup_Equals g r \<longleftrightarrow> g_name g = gr_name r \<and> g_namespace g = gr_namespace r"
  by (auto simp: CharonGroup_Equals_def SameNsn_def CharonGroup_Nsn_def CharonGroupRef_Nsn_def)

section \<open>Children (ipmanChild.go)\<close>

record child =
  c_Name :: string
  LocalIPs :: "string slice"
  RemoteIPs :: "string slice"
  XfrmIfId :: int
  IpPools :: "(string, string slice) gomap option"
  XfrmIP :: string
  VxlanIP :: string
  c_Extra :: "(string, string) gomap option"

definition zero_child :: child where
  "zero_child = \<lparr>c_Name = [], LocalIPs = None, RemoteIPs = None, XfrmIfId = 0, IpPools = None,
     XfrmIP = [], VxlanIP = [], c_Extra = None\<rparr>"

text \<open>\<open>reflect.DeepEqual\<close> on two children.\<close>

definition child_deep_eq :: "child \<Rightarrow> child \<Rightarrow> bool" where
  "child_deep_eq a b \<longleftrightarrow>
     c_Name a = c_Name b \<and> LocalIPs a = LocalIPs b \<and> RemoteIPs a = RemoteIPs b
     \<and> XfrmIfId a = XfrmIfId b \<and> geq_nil (IpPools a) (IpPools b)
     \<and> XfrmIP a = XfrmIP b \<and> VxlanIP a = VxlanIP b \<and> geq_nil (c_Extra a) (c_Extra b)"

definition EqualExceptChangable :: "child \<Rightarrow> child \<Rightarrow> bool" where
  "EqualExceptChangable c c2 =
     child_deep_eq (c\<lparr>IpPools := None, LocalIPs := None\<rparr>) (c2\<lparr>IpPools := None, LocalIPs := None\<rparr>)"

lemma EqualExceptChangable_iff:
  "EqualExceptChangable a b \<longleftrightarrow>
     c_Name a = c_Name b \<and> RemoteIPs a = RemoteIPs b \<and> XfrmIfId a = XfrmIfId b
     \<and> XfrmIP a = XfrmIP b \<and> VxlanIP a = VxlanIP b \<and> geq_nil (c_Extra a) (c_Extra b)"
  by (auto simp: EqualExceptChangable_def child_deep_eq_def geq_nil_def)

text \<open>\<open>SerializeToConf\<close>: one strongSwan child section, tabs and newlines as in the format string.\<close>

definition nl :: string where "nl = [CHR 0x0A]"
definition tabs :: "nat \<Rightarrow> string" where "tabs n = replicate n (CHR 0x09)"

definition SerializeToConf :: "child \<Rightarrow> string" where
  "SerializeToConf c =
     (let local_ts = go_join '','' (elems (LocalIPs c));
          remote_ts = go_join '','' (elems (RemoteIPs c));
          conf = nl @ tabs 3 @ c_Name c @ '' {'' @ nl
            @ tabs 4 @ ''if_id_in = '' @ show_int (XfrmIfId c) @ nl
            @ tabs 4 @ ''if_id_out = '' @ show_int (XfrmIfId c) @ nl
            @ tabs 4 @ ''local_ts = '' @ local_ts @ nl
            @ tabs 4 @ ''remote_ts = '' @ remote_ts @ nl @ tabs 4
      in foldl (\<lambda>acc (k, v). acc @ k @ '' = '' @ v @ nl) conf (gmap_of (c_Extra c)) @ ''}'' @ nl)"

text \<open>
  \<open>childrenEqual\<close>: the sorted key lists must agree, and then every child of the first map must
  equal the child of the second under the same key (the zero child when there is none).
\<close>

definition childrenEqual :: "(string, child) gomap \<Rightarrow> (string, child) gomap \<Rightarrow> bool" where
  "childrenEqual a b =
     (let keys_a = sort (gkeys a); keys_b = sort (gkeys b)
      in if length keys_a \<noteq> length keys_b then False
         else if keys_a \<noteq> keys_b then False
         else list_all (\<lambda>(k, v). child_deep_eq v
                (case gget b k of None \<Rightarrow> zero_child | Some w \<Rightarrow> w)) a)"

lemma childrenEqual_iff:
  assumes "gok a" and "gok b"
  shows "childrenEqual a b \<longleftrightarrow>
    set (gkeys a) = set (gkeys b) \<and>
    (\<forall>k v w. gget a k = Some v \<longrightarrow> gget b k = Some w \<longrightarrow> child_deep_eq v w)"
proof -
  have keys: "sort (gkeys a) = sort (gkeys b) \<longleftrightarrow> set (gkeys a) = set (gkeys b)"
  proof
    assume "sort (gkeys a) = sort (gkeys b)"
    then have "set (sort (gkeys a)) = set (sort (gkeys b))" by simp
    then show "set (gkeys a) = set (gkeys b)" by simp
  next
    assume "set (gkeys a) = set (gkeys b)"
    then show "sort (gkeys a) = sort (gkeys b)"
      using assms by (intro sorted_distinct_set_unique) (simp_all add: gok_def)
  qed
  have len: "sort (gkeys a) = sort (gkeys b) \<Longrightarrow> length (gkeys a) = length (gkeys b)"
    by (metis length_sort)
  show ?thesis
  proof (cases "set (gkeys a) = set (gkeys b)")
    case False
    then show ?thesis using keys by (auto simp: childrenEqual_def Let_def)
  next
    case True
    have "(list_all (\<lambda>(k, v). child_deep_eq v
        (case gget b k of None \<Rightarrow> zero_child | Some w \<Rightarrow> w)) a) \<longleftrightarrow>
      (\<forall>k v w. gget a k = Some v \<longrightarrow> gget b k = Some w \<longrightarrow> child_deep_eq v w)"
    proof -
      have nb: "gget b k \<noteq> None" if "gget a k = Some v" for k v
        using that True gget_None_iff [of a k] gget_None_iff [of b k] by simp
      have "(list_all (\<lambda>(k, v). child_deep_eq v
          (case gget b k of None \<Rightarrow> zero_child | Some w \<Rightarrow> w)) a) \<longleftrightarrow>
        (\<forall>k v. gget a k = Some v \<longrightarrow> child_deep_eq v
          (case gget b k of None \<Rightarrow> zero_child | Some w \<Rightarrow> w))"
        by (auto simp: list_all_iff gget_Some_iff [OF assms(1)])
      also have "\<dots> \<longleftrightarrow> (\<forall>k v w. gget a k = Some v \<longrightarrow> gget b k = Some w \<longrightarrow> child_deep_eq v w)"
        using nb by (metis not_None_eq option.case(2))
      finally show ?thesis .
    qed
    with True keys len show ?thesis by (auto simp: childrenEqual_def Let_def)
  qed
qed

section \<open>Connections (ipman.go, ipmanSpec.go)\<close>

record secret_ref =
  s_Name :: string
  s_Namespace :: string
  s_Key :: string

definition secretRefEqual :: "secret_ref \<Rightarrow> secret_ref \<Rightarrow> bool" where
  "secretRefEqual a b \<longleftrightarrow>
     s_Name a = s_Name b \<and> s_Namespace a = s_Namespace b \<and> s_Key a = s_Key b"

record ipsec_spec =
  sp_Name :: string
  RemoteAddr :: string
  LocalAddr :: string
  LocalId :: string
  RemoteId :: string
  SecretRef :: secret_ref
  Children :: "(string, child) gomap"
  sp_Extra :: "(string, string) gomap"
  Group :: charon_group_ref

record ipsec_status =
  XfrmGatewayIPs :: "(string, string) gomap option"
  FreeIPs :: "(string, (string, string list) gomap) gomap option"
  PendingIPs :: "(string, string) gomap option"
  State :: string
  ChildrenState :: "(string, string) gomap option"

record ipsec_conn =
  cn_Name :: string
  cn_Namespace :: string
  Spec :: ipsec_spec
  Status :: ipsec_status

record conn_data =
  cd_Secret :: string
  cd_IPSecConnection :: ipsec_conn

definition IPSecConnection_Nsn :: "ipsec_conn \<Rightarrow> nsn" where
  "IPSecConnection_Nsn c = \<lparr>nsn_name = cn_Name c, nsn_namespace = cn_Namespace c\<rparr>"

text \<open>The three types with an \<open>Nsn\<close> method share the interface \<open>HasNsn\<close>.\<close>

locale has_nsn =
  fixes nsn_of :: "'a \<Rightarrow> nsn"
    and ref_of :: "'a \<Rightarrow> charon_group_ref"
  assumes ref_agrees: "CharonGroupRef_Nsn (ref_of x) = nsn_of x"
begin

lemma same_as_ref: "SameNsn nsn_of CharonGroupRef_Nsn x r \<longleftrightarrow> ref_of x = r"
  using ref_agrees [of x]
  by (cases r; cases "ref_of x") (auto simp: SameNsn_def CharonGroupRef_Nsn_def)

lemma same_trans:
  "SameNsn nsn_of CharonGroupRef_Nsn x r \<Longrightarrow> SameNsn nsn_of CharonGroupRef_Nsn y r
    \<Longrightarrow> SameNsn nsn_of nsn_of x y"
  by (simp add: SameNsn_def)

end

definition group_ref :: "charon_group \<Rightarrow> charon_group_ref" where
  "group_ref g = \<lparr>gr_name = g_name g, gr_namespace = g_namespace g\<rparr>"

interpretation group_nsn: has_nsn CharonGroup_Nsn group_ref
  by unfold_locales (simp add: CharonGroupRef_Nsn_def CharonGroup_Nsn_def group_ref_def)

interpretation ref_nsn: has_nsn CharonGroupRef_Nsn "\<lambda>r. r"
  by unfold_locales simp

interpretation conn_nsn: has_nsn IPSecConnection_Nsn
    "\<lambda>c. \<lparr>gr_name = cn_Name c, gr_namespace = cn_Namespace c\<rparr>"
  by unfold_locales (simp add: CharonGroupRef_Nsn_def IPSecConnection_Nsn_def)

definition IPSecConnectionSpec_DeepEqual :: "ipsec_spec \<Rightarrow> ipsec_spec \<Rightarrow> bool" where
  "IPSecConnectionSpec_DeepEqual v other =
     (if sp_Name v \<noteq> sp_Name other
         \<or> RemoteAddr v \<noteq> RemoteAddr other
         \<or> LocalId v \<noteq> LocalId other
         \<or> RemoteId v \<noteq> RemoteId other
         \<or> \<not> secretRefEqual (SecretRef v) (SecretRef other)
         \<or> \<not> childrenEqual (Children v) (Children other)
      then False else True)"

text \<open>Well-formed resources: every map has distinct keys.\<close>

definition child_ok :: "child \<Rightarrow> bool" where
  "child_ok c \<longleftrightarrow> gok (gmap_of (IpPools c)) \<and> gok (gmap_of (c_Extra c))"

definition spec_ok :: "ipsec_spec \<Rightarrow> bool" where
  "spec_ok s \<longleftrightarrow> gok (Children s) \<and> gok (sp_Extra s) \<and> (\<forall>(k, c) \<in> set (Children s). child_ok c)"

definition status_ok :: "ipsec_status \<Rightarrow> bool" where
  "status_ok st \<longleftrightarrow> gok (gmap_of (XfrmGatewayIPs st)) \<and> gok (gmap_of (FreeIPs st))
     \<and> (\<forall>(k, m) \<in> set (gmap_of (FreeIPs st)). gok m) \<and> gok (gmap_of (PendingIPs st))
     \<and> gok (gmap_of (ChildrenState st))"

definition zero_status :: ipsec_status where
  "zero_status = \<lparr>XfrmGatewayIPs = None, FreeIPs = None, PendingIPs = None, State = [],
     ChildrenState = None\<rparr>"

lemma child_deep_eq_refl: "child_ok c \<Longrightarrow> child_deep_eq c c"
  by (simp add: child_ok_def child_deep_eq_def geq_nil_refl)

end
