(* ===== verification/Json.thy ===== *)
theory Json
  imports Go_Strings
begin

text \<open>
  The part of \<open>encoding/json\<close> that the controller relies on: it stores the specification of a
  pod in an annotation as JSON text and reads it back. Values are trees; \<open>print_json\<close> writes
  the compact text \<open>json.Marshal\<close> writes (with its HTML escaping), \<open>parse_json\<close> reads JSON
  text with white space between tokens. A number keeps its literal, as the decoder does until it
  knows the target type. Strings hold UTF-8 bytes, which both directions copy; an escaped code
  point of the basic plane is encoded, surrogate pairs are not supported.
  \<open>parse_print_json\<close> shows that reading returns what was written.
\<close>

datatype json =
    JNull
  | JBool bool
  | JNum string
  | JStr string
  | JArr "json list"
  | JObj "(string \<times> json) list"

definition quote :: char where "quote = CHR 0x22"
definition bslash :: char where "bslash = CHR 0x5C"

definition hex_digit :: "nat \<Rightarrow> char" where
  "hex_digit d = (if d < 10 then char_of (48 + d) else char_of (87 + d))"

definition char_hex :: "char \<Rightarrow> nat option" where
  "char_hex c = (let n = of_char c :: nat in
     if 48 \<le> n \<and> n \<le> 57 then Some (n - 48)
     else if 97 \<le> n \<and> n \<le> 102 then Some (n - 87)
     else if 65 \<le> n \<and> n \<le> 70 then Some (n - 55) else None)"

lemma char_hex_hex_digit [simp]: "d < 16 \<Longrightarrow> char_hex (hex_digit d) = Some d"
  by (auto simp: hex_digit_def char_hex_def Let_def)

definition short_escapes :: "(char \<times> char) list" where
  "short_escapes = [(quote, quote), (bslash, bslash), (CHR 0x08, CHR ''b''), (CHR 0x0C, CHR ''f''),
     (CHR 0x0A, CHR ''n''), (CHR 0x0D, CHR ''r''), (CHR 0x09, CHR ''t'')]"

definition needs_u :: "char \<Rightarrow> bool" where
  "needs_u c \<longleftrightarrow> (of_char c :: nat) < 32 \<or> list_contains ''<>&'' c"

definition esc_char :: "char \<Rightarrow> string" where
  "esc_char c = (case map_of short_escapes c of
      Some e \<Rightarrow> [bslash, e]
    | None \<Rightarrow> if needs_u c
        then [bslash, CHR ''u'', CHR ''0'', CHR ''0'',
          hex_digit (of_char c div 16), hex_digit (of_char c mod 16)]
        else [c])"

definition print_str :: "string \<Rightarrow> string" where
  "print_str s = quote # concat (map esc_char s) @ [quote]"

fun print_json :: "json \<Rightarrow> string" where
  "print_json JNull = ''null''"
| "print_json (JBool b) = (if b then ''true'' else ''false'')"
| "print_json (JNum s) = s"
| "print_json (JStr s) = print_str s"
| "print_json (JArr xs) = ''['' @ go_join '','' (map print_json xs) @ '']''"
| "print_json (JObj kvs) =
     ''{'' @ go_join '','' (map (\<lambda>(k, v). print_str k @ '':'' @ print_json v) kvs) @ ''}''"

section \<open>Reading\<close>

text \<open>The character an escape letter stands for (\<open>/\<close> is accepted, never written).\<close>

definition unescape :: "char \<Rightarrow> char option" where
  "unescape e = map_of ((CHR ''/'', CHR ''/'') # map (\<lambda>(c, e). (e, c)) short_escapes) e"

definition utf8 :: "nat \<Rightarrow> string" where
  "utf8 n = (if n < 128 then [char_of n]
     else if n < 2048 then [char_of (192 + n div 64), char_of (128 + n mod 64)]
     else [char_of (224 + n div 4096), char_of (128 + n div 64 mod 64), char_of (128 + n mod 64)])"

definition hex4 :: "char \<Rightarrow> char \<Rightarrow> char \<Rightarrow> char \<Rightarrow> nat option" where
  "hex4 a b c d = (case (char_hex a, char_hex b, char_hex c, char_hex d) of
      (Some i, Some j, Some k, Some l) \<Rightarrow> Some (((i * 16 + j) * 16 + k) * 16 + l)
    | _ \<Rightarrow> None)"

definition push_str :: "string \<Rightarrow> (string \<times> string) option \<Rightarrow> (string \<times> string) option" where
  "push_str p r = map_option (\<lambda>(s, rest). (p @ s, rest)) r"

fun parse_str :: "string \<Rightarrow> (string \<times> string) option" where
  "parse_str [] = None"
| "parse_str [c] = (if c = quote then Some ([], []) else None)"
| "parse_str (c # d # cs) =
     (if c = quote then Some ([], d # cs)
      else if c = bslash then
        (if d = CHR ''u'' then
           (case cs of
              h1 # h2 # h3 # h4 # rest \<Rightarrow>
                (case hex4 h1 h2 h3 h4 of
                   None \<Rightarrow> None
                 | Some n \<Rightarrow> push_str (utf8 n) (parse_str rest))
            | _ \<Rightarrow> None)
         else (case unescape d of None \<Rightarrow> None | Some x \<Rightarrow> push_str [x] (parse_str cs)))
      else if (of_char c :: nat) < 32 then None
      else push_str [c] (parse_str (d # cs)))"

definition is_ws :: "char \<Rightarrow> bool" where
  "is_ws c \<longleftrightarrow> list_contains [CHR '' '', CHR 0x09, CHR 0x0A, CHR 0x0D] c"

definition skip_ws :: "string \<Rightarrow> string" where
  "skip_ws s = dropWhile is_ws s"

definition num_char :: "char \<Rightarrow> bool" where
  "num_char c \<longleftrightarrow> list_contains ''0123456789+-.eE'' c"

definition strip_prefix :: "string \<Rightarrow> string \<Rightarrow> string option" where
  "strip_prefix p s = (if take (length p) s = p then Some (drop (length p) s) else None)"

fun parse_value :: "nat \<Rightarrow> string \<Rightarrow> (json \<times> string) option"
  and parse_elems :: "nat \<Rightarrow> string \<Rightarrow> (json list \<times> string) option"
  and parse_members :: "nat \<Rightarrow> string \<Rightarrow> ((string \<times> json) list \<times> string) option"
where
  "parse_value 0 s = None"
| "parse_value (Suc n) s0 =
     (let s = skip_ws s0 in
      case s of [] \<Rightarrow> None
      | c # cs \<Rightarrow>
        if c = quote then map_option (\<lambda>(t, r). (JStr t, r)) (parse_str cs)
        else if c = CHR ''['' then
          (case skip_ws cs of
             [] \<Rightarrow> None
           | d # ds \<Rightarrow> if d = CHR '']'' then Some (JArr [], ds)
               else map_option (\<lambda>(xs, r). (JArr xs, r)) (parse_elems n cs))
        else if c = CHR ''{'' then
          (case skip_ws cs of
             [] \<Rightarrow> None
           | d # ds \<Rightarrow> if d = CHR ''}'' then Some (JObj [], ds)
               else map_option (\<lambda>(xs, r). (JObj xs, r)) (parse_members n cs))
        else if c = CHR ''n'' then map_option (\<lambda>r. (JNull, r)) (strip_prefix ''null'' s)
        else if c = CHR ''t'' then map_option (\<lambda>r. (JBool True, r)) (strip_prefix ''true'' s)
        else if c = CHR ''f'' then map_option (\<lambda>r. (JBool False, r)) (strip_prefix ''false'' s)
        else if num_char c then Some (JNum (takeWhile num_char s), dropWhile num_char s)
        else None)"
| "parse_elems 0 s = None"
| "parse_elems (Suc n) s =
     (case parse_value n s of
        None \<Rightarrow> None
      | Some (v, r) \<Rightarrow>
         (case skip_ws r of
            [] \<Rightarrow> None
          | c # cs \<Rightarrow> if c = CHR '','' then map_option (\<lambda>(vs, r'). (v # vs, r')) (parse_elems n cs)
              else if c = CHR '']'' then Some ([v], cs) else None))"
| "parse_members 0 s = None"
| "parse_members (Suc n) s =
     (case skip_ws s of
        [] \<Rightarrow> None
      | c # cs \<Rightarrow> if c \<noteq> quote then None else
         (case parse_str cs of
            None \<Rightarrow> None
          | Some (k, r) \<Rightarrow>
             (case skip_ws r of
                [] \<Rightarrow> None
              | d # ds \<Rightarrow> if d \<noteq> CHR '':'' then None else
                 (case parse_value n ds of
                    None \<Rightarrow> None
                  | Some (v, r') \<Rightarrow>
                     (case skip_ws r' of
                        [] \<Rightarrow> None
                      | e # es \<Rightarrow>
                         if e = CHR '','' then
                           map_option (\<lambda>(kvs, r''). ((k, v) # kvs, r'')) (parse_members n es)
                         else if e = CHR ''}'' then Some ([(k, v)], es) else None)))))"

definition parse_json :: "string \<Rightarrow> json option" where
  "parse_json s = (case parse_value (Suc (length s)) s of
      Some (j, r) \<Rightarrow> if skip_ws r = [] then Some j else None
    | None \<Rightarrow> None)"

section \<open>Reading back what was written\<close>

lemma push_str_Some: "push_str p (Some (s, r)) = Some (p @ s, r)"
  by (simp add: push_str_def)

lemma parse_str_plain:
  assumes "c \<noteq> quote" "c \<noteq> bslash" "\<not> (of_char c :: nat) < 32" "s \<noteq> []"
  shows "parse_str (c # s) = push_str [c] (parse_str s)"
  using assms by (cases s) auto

lemma map_of_swap:
  "distinct (map snd al) \<Longrightarrow> map_of al c = Some e \<Longrightarrow> map_of (map (\<lambda>(c, e). (e, c)) al) e = Some c"
proof (induction al)
  case Nil
  then show ?case by simp
next
  case (Cons x al)
  obtain a b where x: "x = (a, b)" by (cases x)
  show ?case
  proof (cases "c = a")
    case True
    with Cons.prems x show ?thesis by auto
  next
    case False
    with Cons.prems x have "map_of al c = Some e" by simp
    with Cons.prems(1) x have "e \<noteq> b" by (force dest!: map_of_SomeD)
    with Cons False x show ?thesis by simp
  qed
qed

lemma unescape_short: "map_of short_escapes c = Some e \<Longrightarrow> unescape e = Some c \<and> e \<noteq> CHR ''u''"
proof -
  assume m: "map_of short_escapes c = Some e"
  have d: "distinct (map snd short_escapes)"
    by (simp add: short_escapes_def quote_def bslash_def)
  have "e \<in> snd ` set short_escapes" using m by (force dest: map_of_SomeD)
  then have "e \<noteq> CHR ''/'' \<and> e \<noteq> CHR ''u''"
    by (auto simp: short_escapes_def quote_def bslash_def)
  with map_of_swap [OF d m] show ?thesis by (simp add: unescape_def)
qed

lemma quote_bslash: "quote \<noteq> bslash" "map_of short_escapes quote = Some quote"
    "map_of short_escapes bslash = Some bslash"
  by (simp_all add: quote_def bslash_def short_escapes_def)

lemma needs_u_small: "needs_u c \<Longrightarrow> (of_char c :: nat) < 128"
  by (auto simp: needs_u_def)

lemma hex4_digits: "i < 16 \<Longrightarrow> j < 16 \<Longrightarrow>
    hex4 (CHR ''0'') (CHR ''0'') (hex_digit i) (hex_digit j) = Some (i * 16 + j)"
proof -
  have "char_hex (CHR ''0'') = Some 0" by (simp add: char_hex_def)
  then show "i < 16 \<Longrightarrow> j < 16 \<Longrightarrow> ?thesis" by (simp add: hex4_def)
qed

lemma parse_str_esc:
  assumes "s \<noteq> []"
  shows "parse_str (esc_char c @ s) = push_str [c] (parse_str s)"
proof (cases "map_of short_escapes c")
  case (Some e)
  then show ?thesis
    using unescape_short [OF Some] quote_bslash(1) by (auto simp: esc_char_def)
next
  case None
  show ?thesis
  proof (cases "needs_u c")
    case True
    then have "(of_char c :: nat) < 128" by (rule needs_u_small)
    moreover have "of_char c div 16 * 16 + of_char c mod 16 = (of_char c :: nat)" by simp
    ultimately show ?thesis
      using None True quote_bslash(1) by (auto simp: esc_char_def hex4_digits utf8_def)
  next
    case False
    moreover have "c \<noteq> quote" "c \<noteq> bslash" using None quote_bslash by auto
    moreover have "\<not> (of_char c :: nat) < 32" using False by (simp add: needs_u_def)
    ultimately show ?thesis
      using None assms by (simp add: esc_char_def parse_str_plain)
  qed
qed

lemma parse_print_str: "parse_str (concat (map esc_char s) @ quote # r) = Some (s, r)"
proof (induction s)
  case Nil
  then show ?case by (cases r) simp_all
next
  case (Cons c s)
  have "parse_str (esc_char c @ concat (map esc_char s) @ quote # r)
      = push_str [c] (parse_str (concat (map esc_char s) @ quote # r))"
    by (rule parse_str_esc) simp
  with Cons.IH show ?case by (simp add: push_str_Some)
qed

text \<open>Numbers must be number literals; every value then starts with a character that is not white space.\<close>

fun json_ok :: "json \<Rightarrow> bool" where
  "json_ok (JNum s) \<longleftrightarrow> s \<noteq> [] \<and> list_all num_char s"
| "json_ok (JArr xs) \<longleftrightarrow> list_all json_ok xs"
| "json_ok (JObj kvs) \<longleftrightarrow> list_all (\<lambda>(k, v). json_ok v) kvs"
| "json_ok _ \<longleftrightarrow> True"

text \<open>The fuel a value needs: one unit per value and per list cell.\<close>

fun fuel_of :: "json \<Rightarrow> nat" where
  "fuel_of (JArr xs) = Suc (sum_list (map (\<lambda>x. Suc (fuel_of x)) xs))"
| "fuel_of (JObj kvs) = Suc (sum_list (map (\<lambda>(k, v). Suc (fuel_of v)) kvs))"
| "fuel_of _ = 1"

definition ends_value :: "string \<Rightarrow> bool" where
  "ends_value r \<longleftrightarrow> r = [] \<or> hd r \<in> {CHR '','', CHR '']'', CHR ''}''}"

lemma num_char_not:
  "num_char c \<Longrightarrow> c \<noteq> quote \<and> c \<noteq> CHR ''['' \<and> c \<noteq> CHR ''{'' \<and> c \<noteq> CHR ''n'' \<and> c \<noteq> CHR ''t''
     \<and> c \<noteq> CHR ''f'' \<and> \<not> is_ws c \<and> c \<noteq> CHR '']'' \<and> c \<noteq> CHR ''}''"
  by (auto simp: num_char_def quote_def is_ws_def)

lemma skip_ws_Cons [simp]: "\<not> is_ws c \<Longrightarrow> skip_ws (c # s) = c # s"
  by (simp add: skip_ws_def)

lemma not_ws [simp]: "\<not> is_ws quote" "\<not> is_ws (CHR ''['')" "\<not> is_ws (CHR '']'')" "\<not> is_ws (CHR ''{'')"
  "\<not> is_ws (CHR ''}'')" "\<not> is_ws (CHR '','')" "\<not> is_ws (CHR '':'')" "\<not> is_ws (CHR ''n'')"
  "\<not> is_ws (CHR ''t'')" "\<not> is_ws (CHR ''f'')"
  by (simp_all add: is_ws_def quote_def)

lemma quote_neq [simp]: "quote \<noteq> CHR ''[''" "quote \<noteq> CHR ''{''" "CHR ''['' \<noteq> quote"
  "CHR ''{'' \<noteq> quote" "CHR ''n'' \<noteq> quote" "CHR ''t'' \<noteq> quote" "CHR ''f'' \<noteq> quote"
  "quote \<noteq> CHR '']''" "quote \<noteq> CHR ''}''"
  by (simp_all add: quote_def)

lemma print_json_starts:
  "json_ok j \<Longrightarrow> \<exists>c cs. print_json j = c # cs \<and> \<not> is_ws c \<and> c \<noteq> CHR '']'' \<and> c \<noteq> CHR ''}''"
proof (cases j)
  case (JNum s)
  moreover assume "json_ok j"
  ultimately show ?thesis using num_char_not by (cases s) auto
qed (auto simp: print_str_def)


definition reads_back :: "json \<Rightarrow> bool" where
  "reads_back j \<longleftrightarrow>
     (\<forall>n r. fuel_of j \<le> n \<longrightarrow> ends_value r \<longrightarrow> parse_value n (print_json j @ r) = Some (j, r))"

lemma reads_backD:
  "reads_back j \<Longrightarrow> fuel_of j \<le> n \<Longrightarrow> ends_value r \<Longrightarrow> parse_value n (print_json j @ r) = Some (j, r)"
  by (simp add: reads_back_def)

lemma ends_value_sep [simp]: "ends_value (CHR '','' # r)" "ends_value (CHR '']'' # r)"
  "ends_value (CHR ''}'' # r)" "ends_value []"
  by (simp_all add: ends_value_def)

lemma parse_elems_join:
  assumes "xs \<noteq> []" and "\<And>x. x \<in> set xs \<Longrightarrow> reads_back x"
    and "sum_list (map (\<lambda>x. Suc (fuel_of x)) xs) \<le> n"
  shows "parse_elems n (go_join '','' (map print_json xs) @ CHR '']'' # r) = Some (xs, r)"
  using assms
proof (induction xs arbitrary: n)
  case Nil
  then show ?case by simp
next
  case (Cons x xs)
  then obtain m where n: "n = Suc m" and fx: "fuel_of x \<le> m"
    and fxs: "sum_list (map (\<lambda>x. Suc (fuel_of x)) xs) \<le> m"
    by (cases n) auto
  have rx: "reads_back x" using Cons.prems(2) by simp
  show ?case
  proof (cases xs)
    case Nil
    then show ?thesis by (simp add: n reads_backD [OF rx fx])
  next
    case (Cons y ys)
    have "parse_elems m (go_join '','' (map print_json xs) @ CHR '']'' # r) = Some (xs, r)"
      using Cons.IH [OF _ _ fxs] Cons.prems(2) Cons by simp
    then show ?thesis
      using Cons by (simp add: n reads_backD [OF rx fx])
  qed
qed

lemma parse_members_join:
  assumes "kvs \<noteq> []" and "\<And>k v. (k, v) \<in> set kvs \<Longrightarrow> reads_back v"
    and "sum_list (map (\<lambda>(k, v). Suc (fuel_of v)) kvs) \<le> n"
  shows "parse_members n (go_join '','' (map (\<lambda>(k, v). print_str k @ '':'' @ print_json v) kvs)
           @ CHR ''}'' # r) = Some (kvs, r)"
  using assms
proof (induction kvs arbitrary: n)
  case Nil
  then show ?case by simp
next
  case (Cons kv kvs)
  obtain k v where kv: "kv = (k, v)" by (cases kv)
  with Cons.prems obtain m where n: "n = Suc m" and fx: "fuel_of v \<le> m"
    and fxs: "sum_list (map (\<lambda>(k, v). Suc (fuel_of v)) kvs) \<le> m"
    by (cases n) auto
  have rv: "reads_back v" using Cons.prems(2) kv by auto
  have ks: "print_str k @ s = quote # (concat (map esc_char k) @ quote # s)" for s
    by (simp add: print_str_def)
  show ?case
  proof (cases kvs)
    case Nil
    then show ?thesis by (simp add: n kv ks parse_print_str reads_backD [OF rv fx])
  next
    case (Cons y ys)
    have "parse_members m (go_join '','' (map (\<lambda>(k, v). print_str k @ '':'' @ print_json v) kvs)
        @ CHR ''}'' # r) = Some (kvs, r)"
      using Cons.IH [OF _ _ fxs] Cons.prems(2) Cons by auto
    then show ?thesis
      using Cons by (simp add: n kv ks parse_print_str reads_backD [OF rv fx])
  qed
qed

lemma reads_back_num: "json_ok (JNum s) \<Longrightarrow> reads_back (JNum s)"
proof -
  assume ok: "json_ok (JNum s)"
  then obtain c cs where s: "s = c # cs" and c: "num_char c" by (cases s) auto
  have "parse_value n (s @ r) = Some (JNum s, r)" if "1 \<le> n" "ends_value r" for n r
  proof -
    obtain m where n: "n = Suc m" using \<open>1 \<le> n\<close> by (cases n) auto
    have "\<not> (r \<noteq> [] \<and> num_char (hd r))"
      using \<open>ends_value r\<close> by (auto simp: ends_value_def num_char_def)
    then have "takeWhile num_char (s @ r) = s" "dropWhile num_char (s @ r) = r"
      using ok by (cases r; auto simp: list_all_iff)+
    then show ?thesis
      using num_char_not [OF c] c by (simp add: n s Let_def)
  qed
  then show ?thesis by (simp add: reads_back_def)
qed

lemma list_head_print:
  "xs \<noteq> [] \<Longrightarrow> list_all json_ok xs \<Longrightarrow>
   \<exists>c cs. go_join '','' (map print_json xs) @ r = c # cs \<and> \<not> is_ws c \<and> c \<noteq> CHR '']''"
proof (cases xs)
  case (Cons x ys)
  moreover assume "list_all json_ok xs"
  ultimately obtain c cs where "print_json x = c # cs" "\<not> is_ws c" "c \<noteq> CHR '']''"
    using print_json_starts [of x] by auto
  with Cons show ?thesis by (cases ys) auto
qed simp

lemma reads_back_json: "json_ok j \<Longrightarrow> reads_back j"
proof (induction j)
  case (JNum s)
  then show ?case by (rule reads_back_num)
next
  case (JStr s)
  have "parse_value n (print_str s @ r) = Some (JStr s, r)" if "1 \<le> n" for n r
    using that by (cases n) (simp_all add: print_str_def Let_def parse_print_str)
  then show ?case by (simp add: reads_back_def)
next
  case (JArr xs)
  have rb: "reads_back x" if "x \<in> set xs" for x
    using JArr that by (simp add: list_all_iff)
  show ?case unfolding reads_back_def
  proof (intro allI impI)
    fix n r
    assume f: "fuel_of (JArr xs) \<le> n" and "ends_value r"
    obtain m where n: "n = Suc m" using f by (cases n) auto
    show "parse_value n (print_json (JArr xs) @ r) = Some (JArr xs, r)"
    proof (cases "xs = []")
      case False
      with list_head_print [OF False, of "CHR '']'' # r"] JArr.prems obtain c cs where
        h: "go_join '','' (map print_json xs) @ CHR '']'' # r = c # cs" "\<not> is_ws c" "c \<noteq> CHR '']''"
        by auto
      have "parse_elems m (go_join '','' (map print_json xs) @ CHR '']'' # r) = Some (xs, r)"
        using f n by (intro parse_elems_join [OF False rb]) simp_all
      with h show ?thesis by (simp add: n Let_def)
    qed (simp add: n Let_def)
  qed
next
  case (JObj kvs)
  have rb: "reads_back v" if "(k, v) \<in> set kvs" for k v
    using JObj.IH [OF that, of v] JObj.prems that by (auto simp: list_all_iff)
  show ?case unfolding reads_back_def
  proof (intro allI impI)
    fix n r
    assume f: "fuel_of (JObj kvs) \<le> n" and "ends_value r"
    obtain m where n: "n = Suc m" using f by (cases n) auto
    show "parse_value n (print_json (JObj kvs) @ r) = Some (JObj kvs, r)"
    proof (cases kvs)
      case Nil
      then show ?thesis by (simp add: n Let_def)
    next
      case (Cons kv kvs')
      then have ne: "kvs \<noteq> []" by simp
      let ?body = "go_join '','' (map (\<lambda>(k, v). print_str k @ '':'' @ print_json v) kvs)"
      have h: "\<exists>cs. ?body @ CHR ''}'' # r = quote # cs"
        using Cons by (cases kv; cases kvs') (simp_all add: print_str_def)
      have "parse_members m (?body @ CHR ''}'' # r) = Some (kvs, r)"
        using f n by (intro parse_members_join [OF ne rb]) simp_all
      with h show ?thesis by (auto simp: n Let_def)
    qed
  qed
qed (auto simp: reads_back_def Let_def strip_prefix_def dest!: Suc_le_D)

lemma sum_list_mono_add: "(\<And>x. x \<in> set xs \<Longrightarrow> f x \<le> (g x :: nat)) \<Longrightarrow> sum_list (map f xs) \<le> sum_list (map g xs)"
  by (induction xs) (auto simp: add_mono)

lemma length_go_join: "xs \<noteq> [] \<Longrightarrow> Suc (length (go_join [c] xs)) = sum_list (map (\<lambda>x. Suc (length x)) xs)"
  by (induction "[c]" xs rule: go_join.induct) auto

lemma fuel_le_length: "json_ok j \<Longrightarrow> fuel_of j \<le> length (print_json j)"
proof (induction j)
  case (JArr xs)
  show ?case
  proof (cases "xs = []")
    case False
    have "sum_list (map (\<lambda>x. Suc (fuel_of x)) xs) \<le> sum_list (map (\<lambda>x. Suc (length (print_json x))) xs)"
      using JArr by (intro sum_list_mono_add) (simp add: list_all_iff)
    also have "\<dots> = Suc (length (go_join '','' (map print_json xs)))"
      using False length_go_join [of "map print_json xs"] by (simp add: comp_def)
    finally show ?thesis by simp
  qed simp
next
  case (JObj kvs)
  show ?case
  proof (cases "kvs = []")
    case False
    let ?p = "\<lambda>(k, v). print_str k @ '':'' @ print_json v"
    have "sum_list (map (\<lambda>(k, v). Suc (fuel_of v)) kvs) \<le> sum_list (map (\<lambda>x. Suc (length (?p x))) kvs)"
    proof (rule sum_list_mono_add)
      fix x assume x: "x \<in> set kvs"
      obtain k v where kv: "x = (k, v)" by (cases x)
      with x JObj have "fuel_of v \<le> length (print_json v)" by (auto simp: list_all_iff)
      then show "(case x of (k, v) \<Rightarrow> Suc (fuel_of v)) \<le> Suc (length (?p x))"
        by (simp add: kv)
    qed
    also have "\<dots> = Suc (length (go_join '','' (map ?p kvs)))"
      using False length_go_join [of "map ?p kvs"] by (simp add: comp_def)
    finally show ?thesis by simp
  qed simp
qed (auto simp: print_str_def Suc_le_eq)

theorem parse_print_json: "json_ok j \<Longrightarrow> parse_json (print_json j) = Some j"
proof -
  assume ok: "json_ok j"
  have "fuel_of j \<le> Suc (length (print_json j))" using fuel_le_length [OF ok] by simp
  from reads_backD [OF reads_back_json [OF ok] this, of "[]"]
  show ?thesis by (simp add: parse_json_def skip_ws_def)
qed

end
