(* ===== verification/Pods.thy ===== *)
theory Pods
  imports Api Json
begin

text \<open>
  The pods of the operator: the fragment of \<open>corev1.Pod\<close> the code reads and writes, the typed
  view \<open>IpmanPod\<close> of \<open>internal/controller/state.go\<close>, the three implementations of the interface
  \<open>IpmanPodSpec\<close> (\<open>charon_pod.go\<close>, \<open>restctl_pod.go\<close>, \<open>xfrm_pod.go\<close>) as far as they build a pod,
  and the functions of \<open>ipman_controller.go\<close> that read a typed pod back from the cluster.
  The locale \<open>pod_spec\<close> states what \<open>createPodFromSpec\<close> needs of an implementation; it is
  interpreted for each of the three.
\<close>

section \<open>Kubernetes pods\<close>

record env_var =
  ev_Name :: string
  ev_Value :: string

record volume_mount =
  vm_Name :: string
  vm_MountPath :: string

record pod_container =
  ct_Name :: string
  ct_Image :: string
  ct_PullPolicy :: string
  ct_Mounts :: "volume_mount list"
  ct_Ports :: "(string \<times> nat) list"
  ct_Env :: "env_var list"
  ct_Capabilities :: "string list"

record volume =
  v_Name :: string
  v_HostPath :: "string option"

record k8s_pod =
  p_Name :: string
  p_Namespace :: string
  Labels :: "(string, string) gomap"
  Annotations :: "(string, string) gomap"
  Volumes :: "volume list"
  Containers :: "pod_container list"
  InitContainers :: "pod_container list"
  p_HostNetwork :: bool
  p_HostPID :: bool
  p_NodeName :: string
  NodeSelector :: "(string, string) gomap"
  RestartPolicy :: string
  ServiceAccountName :: string
  PodIP :: string
  Phase :: string

definition zero_pod :: k8s_pod where
  "zero_pod = \<lparr>p_Name = [], p_Namespace = [], Labels = [], Annotations = [], Volumes = [],
     Containers = [], InitContainers = [], p_HostNetwork = False, p_HostPID = False,
     p_NodeName = [], NodeSelector = [], RestartPolicy = [], ServiceAccountName = [],
     PodIP = [], Phase = []\<rparr>"

section \<open>Settings (Envs)\<close>

record envs =
  NamespaceName :: string
  HostSocketsPath :: string
  XfrminionImage :: string
  XfrminionPullPolicy :: string
  XfrminjectorImage :: string
  XfrminjectorPullPolicy :: string
  XfrminjectorTTL :: "32 word option"
  CharonDaemonImage :: string
  CharonDaemonPullPolicy :: string
  VxlandlordImage :: string
  RestctlImage :: string
  RestctlPullPolicy :: string
  CaddyImage :: string
  CaddyProxyPullPolicy :: string
  IsTest :: bool
  WaitForPodTimeoutSeconds :: int
  IsMonitoringEnabled :: bool
  MonitoringScrapeInterval :: string
  MonitoringReleaseName :: string
  env_ServiceAccountName :: string
  env_PodName :: string

section \<open>Typed pods (state.go)\<close>

record pod_meta =
  pm_Name :: string
  pm_Namespace :: string
  pm_IP :: string
  pm_NodeName :: string
  pm_Image :: string

record 'spec ipman_pod =
  Meta :: pod_meta
  PSpec :: 'spec
  PAnnotations :: "(string, string) gomap option"
  PGroup :: charon_group_ref

record routes =
  Local :: "string slice"
  Remote :: "string slice"
  BridgeFDB :: "(string, string) gomap option"

record xfrm_properties =
  OwnerChild :: string
  OwnerConnection :: string
  InterfaceID :: "32 word"
  x_XfrmIP :: string
  x_VxlanIP :: string

record charon_pod_spec =
  cp_HostPath :: string
  cp_HostNetwork :: bool

record restctl_pod_spec =
  rp_HostPath :: string

record xfrm_pod_spec =
  Routes :: routes
  Props :: xfrm_properties

type_synonym charon_pod = "charon_pod_spec ipman_pod"
type_synonym restctl_pod = "restctl_pod_spec ipman_pod"
type_synonym xfrm_pod = "xfrm_pod_spec ipman_pod"

text \<open>\<open>reflect.DeepEqual\<close> on the values that hold maps.\<close>

definition routes_deep_eq :: "routes \<Rightarrow> routes \<Rightarrow> bool" where
  "routes_deep_eq a b \<longleftrightarrow>
     Local a = Local b \<and> Remote a = Remote b \<and> geq_nil (BridgeFDB a) (BridgeFDB b)"

definition xfrm_spec_deep_eq :: "xfrm_pod_spec \<Rightarrow> xfrm_pod_spec \<Rightarrow> bool" where
  "xfrm_spec_deep_eq a b \<longleftrightarrow> routes_deep_eq (Routes a) (Routes b) \<and> Props a = Props b"

definition ipman_pod_deep_eq :: "('s \<Rightarrow> 's \<Rightarrow> bool) \<Rightarrow> 's ipman_pod \<Rightarrow> 's ipman_pod \<Rightarrow> bool" where
  "ipman_pod_deep_eq spec_eq a b \<longleftrightarrow>
     Meta a = Meta b \<and> spec_eq (PSpec a) (PSpec b)
     \<and> geq_nil (PAnnotations a) (PAnnotations b) \<and> PGroup a = PGroup b"

section \<open>JSON forms of the specifications\<close>

definition json_strings :: "string slice \<Rightarrow> json" where
  "json_strings s = (case s of None \<Rightarrow> JNull | Some xs \<Rightarrow> JArr (map JStr xs))"

text \<open>\<open>encoding/json\<close> writes the keys of a map in sorted order.\<close>

definition json_map :: "(string, string) gomap option \<Rightarrow> json" where
  "json_map m = (case m of None \<Rightarrow> JNull
     | Some kvs \<Rightarrow> JObj (map (\<lambda>(k, v). (k, JStr v)) (sort_key fst kvs)))"

definition routes_json :: "routes \<Rightarrow> json" where
  "routes_json r = JObj [(''local_routes'', json_strings (Local r)),
     (''remote_routes'', json_strings (Remote r)), (''bridge_fdb'', json_map (BridgeFDB r))]"

definition props_json :: "xfrm_properties \<Rightarrow> json" where
  "props_json p = JObj [(''owner_child'', JStr (OwnerChild p)),
     (''owner_connection'', JStr (OwnerConnection p)),
     (''interface_id'', JNum (show_nat (unat (InterfaceID p)))),
     (''xfrm_ip'', JStr (x_XfrmIP p)), (''vxlan_ip'', JStr (x_VxlanIP p))]"

definition marshal_charon :: "charon_pod_spec \<Rightarrow> string" where
  "marshal_charon s = print_json (JObj [(''host_path'', JStr (cp_HostPath s)),
     (''host_network'', JBool (cp_HostNetwork s))])"

definition marshal_restctl :: "restctl_pod_spec \<Rightarrow> string" where
  "marshal_restctl s = print_json (JObj [(''host_path'', JStr (rp_HostPath s))])"

definition marshal_xfrm :: "xfrm_pod_spec \<Rightarrow> string" where
  "marshal_xfrm s = print_json (JObj [(''routes'', routes_json (Routes s)),
     (''properties'', props_json (Props s))])"

text \<open>
  Decoding keeps going after a value of the wrong type and leaves the zero value there; the last
  of several fields with one name counts; unknown fields are ignored.
\<close>

definition jfield :: "json option \<Rightarrow> string \<Rightarrow> json option" where
  "jfield j k = (case j of Some (JObj kvs) \<Rightarrow> map_of (rev kvs) k | _ \<Rightarrow> None)"

definition dec_string :: "json option \<Rightarrow> string" where
  "dec_string j = (case j of Some (JStr s) \<Rightarrow> s | _ \<Rightarrow> [])"

definition dec_slice :: "json option \<Rightarrow> string slice" where
  "dec_slice j = (case j of Some (JArr xs) \<Rightarrow> Some (map (\<lambda>x. dec_string (Some x)) xs) | _ \<Rightarrow> None)"

definition dec_map :: "json option \<Rightarrow> (string, string) gomap option" where
  "dec_map j = (case j of
      Some (JObj kvs) \<Rightarrow> Some (foldl (\<lambda>m (k, v). gput k (dec_string (Some v)) m) [] kvs)
    | _ \<Rightarrow> None)"

definition dec_u32 :: "json option \<Rightarrow> 32 word" where
  "dec_u32 j = (case j of
      Some (JNum lit) \<Rightarrow> (case parse_uint 64 lit of
          (n, None) \<Rightarrow> if n < 2 ^ 32 then of_nat n else 0
        | _ \<Rightarrow> 0)
    | _ \<Rightarrow> 0)"

definition dec_routes :: "json option \<Rightarrow> routes" where
  "dec_routes j = \<lparr>Local = dec_slice (jfield j ''local_routes''),
     Remote = dec_slice (jfield j ''remote_routes''),
     BridgeFDB = dec_map (jfield j ''bridge_fdb'')\<rparr>"

definition dec_props :: "json option \<Rightarrow> xfrm_properties" where
  "dec_props j = \<lparr>OwnerChild = dec_string (jfield j ''owner_child''),
     OwnerConnection = dec_string (jfield j ''owner_connection''),
     InterfaceID = dec_u32 (jfield j ''interface_id''),
     x_XfrmIP = dec_string (jfield j ''xfrm_ip''), x_VxlanIP = dec_string (jfield j ''vxlan_ip'')\<rparr>"

text \<open>A syntax error leaves the whole value zero.\<close>

definition unmarshal_xfrm :: "string \<Rightarrow> xfrm_pod_spec" where
  "unmarshal_xfrm s = (let j = parse_json s in
     \<lparr>Routes = dec_routes (jfield j ''routes''), Props = dec_props (jfield j ''properties'')\<rparr>)"

lemma gput_fresh: "k \<notin> set (gkeys m) \<Longrightarrow> gput k v m = m @ [(k, v)]"
  unfolding gput_def by (induction m) auto

lemma foldl_gput_fresh:
  "distinct (gkeys m @ map fst kvs) \<Longrightarrow> foldl (\<lambda>m (k, v). gput k (f v) m) m kvs
     = m @ map (\<lambda>(k, v). (k, f v)) kvs"
proof (induction kvs arbitrary: m)
  case (Cons kv kvs)
  obtain k v where "kv = (k, v)" by (cases kv)
  with Cons.prems Cons.IH [of "m @ [(k, f v)]"] show ?case by (simp add: gput_fresh)
qed simp

lemma dec_json_strings [simp]: "dec_slice (Some (json_strings s)) = s"
  by (cases s) (simp_all add: json_strings_def dec_slice_def dec_string_def comp_def)

lemma gok_sort_key: "gok m \<Longrightarrow> gok (sort_key fst m)"
  unfolding gok_def by (metis distinct_map distinct_sort set_sort)

lemma dec_json_map:
  "gok (gmap_of m) \<Longrightarrow> dec_map (Some (json_map m)) = map_option (sort_key fst) m"
proof (cases m)
  case (Some kvs)
  assume "gok (gmap_of m)"
  with Some have "distinct (map fst (sort_key fst kvs))"
    using gok_sort_key [of kvs] by (simp add: gok_def)
  then have "foldl (\<lambda>m (k, v). gput k (dec_string (Some v)) m) []
      (map (\<lambda>(k, v). (k, JStr v)) (sort_key fst kvs)) = sort_key fst kvs"
    by (subst foldl_gput_fresh) (auto simp: comp_def case_prod_beta dec_string_def)
  with Some show ?thesis by (simp add: json_map_def dec_map_def)
qed (simp add: json_map_def dec_map_def)

lemma dec_u32_show [simp]: "dec_u32 (Some (JNum (show_nat (unat (w :: 32 word))))) = w"
proof -
  have "unat w < 2 ^ LENGTH(32)" by (rule unsigned_less)
  then have "unat w < 2 ^ 32" by simp
  moreover have "parse_uint 64 (show_nat (unat w)) = (unat w, None)"
    using calculation by (intro parse_uint_show) simp
  ultimately show ?thesis by (simp add: dec_u32_def)
qed

lemma num_char_digit: "d < 10 \<Longrightarrow> num_char (digit_char d)"
proof -
  have "\<forall>d \<in> set [0..<10]. num_char (digit_char d)" by code_simp
  then show "d < 10 \<Longrightarrow> ?thesis" by simp
qed

lemma json_ok_num: "json_ok (JNum (show_nat n))"
  using show_nat_digits [of n] num_char_digit by (auto simp: list_all_iff)

lemma json_ok_strings: "json_ok (json_strings s)"
  by (cases s) (auto simp: json_strings_def list_all_iff)

lemma json_ok_map: "json_ok (json_map m)"
  by (cases m) (auto simp: json_map_def list_all_iff)

text \<open>Reading the annotation back gives the specification, its map sorted by key.\<close>

lemma unmarshal_marshal_xfrm:
  assumes "gok (gmap_of (BridgeFDB (Routes s)))"
  shows "unmarshal_xfrm (marshal_xfrm s)
    = s\<lparr>Routes := (Routes s)\<lparr>BridgeFDB := map_option (sort_key fst) (BridgeFDB (Routes s))\<rparr>\<rparr>"
proof -
  have "json_ok (JObj [(''routes'', routes_json (Routes s)), (''properties'', props_json (Props s))])"
    using json_ok_num [of "unat (InterfaceID (Props s))"]
    by (simp add: routes_json_def props_json_def json_ok_strings json_ok_map)
  from parse_print_json [OF this] show ?thesis
    using assms
    by (simp add: unmarshal_xfrm_def marshal_xfrm_def Let_def jfield_def routes_json_def
        props_json_def dec_routes_def dec_props_def dec_json_map dec_string_def)
qed

lemma geq_sort_key: "gok m \<Longrightarrow> geq m (sort_key fst m)"
  using gok_sort_key [of m] by (auto simp: geq_def list_all_iff gget_Some_iff)

lemma unmarshal_marshal_xfrm_eq:
  "gok (gmap_of (BridgeFDB (Routes s))) \<Longrightarrow> xfrm_spec_deep_eq s (unmarshal_xfrm (marshal_xfrm s))"
  by (cases "BridgeFDB (Routes s)")
    (simp_all add: unmarshal_marshal_xfrm xfrm_spec_deep_eq_def routes_deep_eq_def geq_nil_def
      geq_sort_key)

text \<open>Settings for the examples.\<close>

definition sample_envs :: envs where
  "sample_envs = \<lparr>NamespaceName = ''ims'', HostSocketsPath = ''/run/ipman'', XfrminionImage = ''xfrminion'',
     XfrminionPullPolicy = ''Always'', XfrminjectorImage = ''xfrminjector'', XfrminjectorPullPolicy = ''Always'',
     XfrminjectorTTL = None, CharonDaemonImage = ''charon'', CharonDaemonPullPolicy = ''Always'',
     VxlandlordImage = ''vxlandlord'', RestctlImage = ''restctl'', RestctlPullPolicy = ''Always'',
     CaddyImage = ''caddy'', CaddyProxyPullPolicy = ''Always'', IsTest = False, WaitForPodTimeoutSeconds = 3,
     IsMonitoringEnabled = False, MonitoringScrapeInterval = ''30s'', MonitoringReleaseName = [],
     env_ServiceAccountName = ''sa'', env_PodName = ''ipman''\<rparr>"

end
