(* ===== verification/Pod_Specs.thy ===== *)
theory Pod_Specs
  imports Pods
begin

text \<open>
  Building a Kubernetes pod from a typed one (\<open>CreateK8sPodMeta\<close>, the three \<open>ApplySpec\<close> methods,
  \<open>createPodFromSpec\<close>) and reading a typed pod back (\<open>CharonFromPod\<close>, \<open>RestctlFromPod\<close>,
  \<open>XfrmFromPod\<close>, \<open>workerFromPod\<close>). The properties at the end say that what the reconciler
  creates is what its next run reads.
\<close>

section \<open>From a typed pod to a Kubernetes pod\<close>

definition CreateK8sPodMeta :: "string \<Rightarrow> ('s \<Rightarrow> string) \<Rightarrow> 's ipman_pod \<Rightarrow> k8s_pod" where
  "CreateK8sPodMeta typeLabel marshal p =
     (let pod = zero_pod\<lparr>p_Name := pm_Name (Meta p), p_Namespace := pm_Namespace (Meta p),
            Labels := [(LabelPodType, typeLabel), (LabelGroupName, gr_name (PGroup p)),
                       (LabelGroupNamespace, gr_namespace (PGroup p))]\<rparr>;
          an = marshal (PSpec p);
          pod = pod\<lparr>Annotations := gcopy [(AnnotationSpec, an)] (gmap_of (PAnnotations p))\<rparr>
      in if pm_NodeName (Meta p) \<noteq> []
         then pod\<lparr>NodeSelector := [(NodeSelectorHostName, pm_NodeName (Meta p))]\<rparr>
         else pod)"

definition createCharonSocketVolume :: "string \<Rightarrow> volume" where
  "createCharonSocketVolume hostPath =
     \<lparr>v_Name = CharonSocketHostVolumeName, v_HostPath = Some hostPath\<rparr>"

definition socket_mount :: volume_mount where
  "socket_mount = \<lparr>vm_Name = CharonSocketHostVolumeName, vm_MountPath = CharonSocketVolumeMountPath\<rparr>"

definition Charon_ApplySpec :: "charon_pod_spec \<Rightarrow> k8s_pod \<Rightarrow> envs \<Rightarrow> k8s_pod" where
  "Charon_ApplySpec s p e = p\<lparr>
     Volumes := [createCharonSocketVolume (cp_HostPath s),
       \<lparr>v_Name = CharonConfVolumeName, v_HostPath = None\<rparr>],
     Containers := [\<lparr>ct_Name = CharonDaemonContainerName, ct_Image = CharonDaemonImage e,
       ct_PullPolicy = CharonDaemonPullPolicy e,
       ct_Mounts = [socket_mount,
         \<lparr>vm_Name = CharonConfVolumeName, vm_MountPath = CharonConfVolumeMountPath\<rparr>],
       ct_Ports = [], ct_Env = [], ct_Capabilities = [''NET_ADMIN'', ''NET_RAW'']\<rparr>],
     p_HostNetwork := cp_HostNetwork s,
     p_HostPID := True,
     RestartPolicy := ''Never''\<rparr>"

definition Restctl_ApplySpec :: "restctl_pod_spec \<Rightarrow> k8s_pod \<Rightarrow> envs \<Rightarrow> k8s_pod" where
  "Restctl_ApplySpec s p e = p\<lparr>
     Volumes := [createCharonSocketVolume (rp_HostPath s)],
     p_HostPID := True,
     ServiceAccountName := env_ServiceAccountName e,
     Containers := [\<lparr>ct_Name = RestctlContainerName, ct_Image = RestctlImage e,
       ct_PullPolicy = RestctlPullPolicy e, ct_Mounts = [socket_mount],
       ct_Ports = [(RestctlPortName, RestctlPort)],
       ct_Env = [\<lparr>ev_Name = ''HOST_SOCKETS_PATH'', ev_Value = CharonSocketVolumeMountPath\<rparr>],
       ct_Capabilities = [''NET_ADMIN'', ''NET_RAW'']\<rparr>]\<rparr>"

definition Xfrm_ApplySpec :: "xfrm_pod_spec \<Rightarrow> k8s_pod \<Rightarrow> envs \<Rightarrow> k8s_pod" where
  "Xfrm_ApplySpec s p e = p\<lparr>
     Containers := [\<lparr>ct_Name = XfrminionContainerName, ct_Image = XfrminionImage e,
       ct_PullPolicy = XfrminionPullPolicy e, ct_Mounts = [], ct_Ports = [], ct_Env = [],
       ct_Capabilities = [''NET_ADMIN'']\<rparr>],
     RestartPolicy := ''Never'',
     p_HostPID := True\<rparr>"

text \<open>The type label, the JSON form and \<open>ApplySpec\<close> are the parts that depend on the type.\<close>

definition createPodFromSpec ::
  "string \<Rightarrow> ('s \<Rightarrow> string) \<Rightarrow> ('s \<Rightarrow> k8s_pod \<Rightarrow> envs \<Rightarrow> k8s_pod) \<Rightarrow> 's ipman_pod \<Rightarrow> envs \<Rightarrow> k8s_pod"
where
  "createPodFromSpec typeLabel marshal apply_spec p env =
     (let pod = CreateK8sPodMeta typeLabel marshal p in apply_spec (PSpec p) pod env)"

definition create_charon_pod :: "charon_pod \<Rightarrow> envs \<Rightarrow> k8s_pod" where
  "create_charon_pod = createPodFromSpec LabelValueCharonPod marshal_charon Charon_ApplySpec"

definition create_restctl_pod :: "restctl_pod \<Rightarrow> envs \<Rightarrow> k8s_pod" where
  "create_restctl_pod = createPodFromSpec LabelValueRestctlPod marshal_restctl Restctl_ApplySpec"

definition create_xfrm_pod :: "xfrm_pod \<Rightarrow> envs \<Rightarrow> k8s_pod" where
  "create_xfrm_pod = createPodFromSpec LabelValueXfrmPod marshal_xfrm Xfrm_ApplySpec"

section \<open>The interface IpmanPodSpec\<close>

lemma label_keys_distinct:
  "LabelPodType \<noteq> LabelGroupName" "LabelPodType \<noteq> LabelGroupNamespace"
  "LabelGroupName \<noteq> LabelGroupNamespace"
  by (simp_all add: label_key_defs)

lemma CreateK8sPodMeta_fields:
  "p_Name (CreateK8sPodMeta l m p) = pm_Name (Meta p)"
  "p_Namespace (CreateK8sPodMeta l m p) = pm_Namespace (Meta p)"
  "Labels (CreateK8sPodMeta l m p) = [(LabelPodType, l), (LabelGroupName, gr_name (PGroup p)),
     (LabelGroupNamespace, gr_namespace (PGroup p))]"
  "Annotations (CreateK8sPodMeta l m p)
     = gcopy [(AnnotationSpec, m (PSpec p))] (gmap_of (PAnnotations p))"
  "NodeSelector (CreateK8sPodMeta l m p) = (if pm_NodeName (Meta p) \<noteq> []
     then [(NodeSelectorHostName, pm_NodeName (Meta p))] else [])"
  by (simp_all add: CreateK8sPodMeta_def Let_def zero_pod_def)

locale pod_spec =
  fixes type_label :: string
    and marshal :: "'s \<Rightarrow> string"
    and apply_spec :: "'s \<Rightarrow> k8s_pod \<Rightarrow> envs \<Rightarrow> k8s_pod"
    and container_name :: string
    and image_of :: "envs \<Rightarrow> string"
  assumes keeps_name: "p_Name (apply_spec s p e) = p_Name p"
    and keeps_namespace: "p_Namespace (apply_spec s p e) = p_Namespace p"
    and keeps_labels: "Labels (apply_spec s p e) = Labels p"
    and keeps_annotations: "Annotations (apply_spec s p e) = Annotations p"
    and keeps_selector: "NodeSelector (apply_spec s p e) = NodeSelector p"
    and one_container: "map (\<lambda>c. (ct_Name c, ct_Image c)) (Containers (apply_spec s p e))
          = [(container_name, image_of e)]"
begin

abbreviation (input) created :: "'s ipman_pod \<Rightarrow> envs \<Rightarrow> k8s_pod" where
  "created p e \<equiv> createPodFromSpec type_label marshal apply_spec p e"

lemma created_name: "p_Name (created p e) = pm_Name (Meta p)"
  and created_namespace: "p_Namespace (created p e) = pm_Namespace (Meta p)"
  by (simp_all add: createPodFromSpec_def keeps_name keeps_namespace CreateK8sPodMeta_fields)

lemma created_type: "gget (Labels (created p e)) LabelPodType = Some type_label"
  by (simp add: createPodFromSpec_def keeps_labels CreateK8sPodMeta_fields)

lemma created_group:
  "gstr (Labels (created p e)) LabelGroupName = gr_name (PGroup p)"
  "gstr (Labels (created p e)) LabelGroupNamespace = gr_namespace (PGroup p)"
  using label_keys_distinct
  by (auto simp: createPodFromSpec_def keeps_labels CreateK8sPodMeta_fields gstr_def)

lemma created_spec_annotation:
  "gok (gmap_of (PAnnotations p)) \<Longrightarrow> gget (gmap_of (PAnnotations p)) AnnotationSpec = None \<Longrightarrow>
   gstr (Annotations (created p e)) AnnotationSpec = marshal (PSpec p)"
  by (simp add: createPodFromSpec_def keeps_annotations CreateK8sPodMeta_fields gstr_def
      gget_copy)

lemma created_selector:
  "gstr (NodeSelector (created p e)) NodeSelectorHostName = pm_NodeName (Meta p)"
  by (simp add: createPodFromSpec_def keeps_selector CreateK8sPodMeta_fields gstr_def)

end

interpretation charon_spec: pod_spec LabelValueCharonPod marshal_charon Charon_ApplySpec
    CharonDaemonContainerName CharonDaemonImage
  by unfold_locales (simp_all add: Charon_ApplySpec_def)

interpretation restctl_spec: pod_spec LabelValueRestctlPod marshal_restctl Restctl_ApplySpec
    RestctlContainerName RestctlImage
  by unfold_locales (simp_all add: Restctl_ApplySpec_def)

interpretation xfrm_spec: pod_spec LabelValueXfrmPod marshal_xfrm Xfrm_ApplySpec
    XfrminionContainerName XfrminionImage
  by unfold_locales (simp_all add: Xfrm_ApplySpec_def)

section \<open>From a Kubernetes pod to a typed pod\<close>

text \<open>
  The last matching volume counts; with none, or with one that is not a host path, the
  dereference at the end panics.
\<close>

definition ExtractCharonVolumeSocketPath :: "k8s_pod \<Rightarrow> ('e, string) outcome" where
  "ExtractCharonVolumeSocketPath p =
     (case find (\<lambda>v. v_Name v = CharonSocketHostVolumeName) (rev (Volumes p)) of
        None \<Rightarrow> Panic
      | Some v \<Rightarrow> (case v_HostPath v of None \<Rightarrow> Panic | Some path \<Rightarrow> Ok path))"

definition ExtractContainerImage :: "k8s_pod \<Rightarrow> string \<Rightarrow> string" where
  "ExtractContainerImage p containerName =
     foldl (\<lambda>img c. if ct_Name c = containerName then ct_Image c else img) [] (Containers p)"

definition pod_group :: "k8s_pod \<Rightarrow> charon_group_ref" where
  "pod_group p = \<lparr>gr_name = gstr (Labels p) LabelGroupName,
     gr_namespace = gstr (Labels p) LabelGroupNamespace\<rparr>"

definition pod_meta_of :: "k8s_pod \<Rightarrow> string \<Rightarrow> pod_meta" where
  "pod_meta_of p img = \<lparr>pm_Name = p_Name p, pm_Namespace = p_Namespace p, pm_IP = PodIP p,
     pm_NodeName = p_NodeName p, pm_Image = img\<rparr>"

definition CharonFromPod :: "k8s_pod \<Rightarrow> ('e, charon_pod) outcome" where
  "CharonFromPod p = obind (ExtractCharonVolumeSocketPath p) (\<lambda>path. Ok
     \<lparr>Meta = pod_meta_of p (ExtractContainerImage p CharonDaemonContainerName),
      PSpec = \<lparr>cp_HostPath = path, cp_HostNetwork = p_HostNetwork p\<rparr>,
      PAnnotations = Some (Annotations p),
      PGroup = pod_group p\<rparr>)"

definition RestctlFromPod :: "k8s_pod \<Rightarrow> ('e, restctl_pod) outcome" where
  "RestctlFromPod p = obind (ExtractCharonVolumeSocketPath p) (\<lambda>path. Ok
     \<lparr>Meta = pod_meta_of p (ExtractContainerImage p CharonAPIProxyContainerName),
      PSpec = \<lparr>rp_HostPath = path\<rparr>,
      PAnnotations = None,
      PGroup = pod_group p\<rparr>)"

definition XfrmFromPod :: "k8s_pod \<Rightarrow> xfrm_pod" where
  "XfrmFromPod p =
     \<lparr>Meta = pod_meta_of p (ExtractContainerImage p XfrminionContainerName),
      PSpec = unmarshal_xfrm (gstr (Annotations p) AnnotationSpec),
      PAnnotations = None,
      PGroup = pod_group p\<rparr>"

record worker =
  w_Meta :: pod_meta
  w_Routes :: "string list"
  w_OwnerConnection :: string
  w_OwnerChild :: string
  w_VxlanIP :: string

definition hasAnnotations :: "k8s_pod \<Rightarrow> bool" where
  "hasAnnotations p \<longleftrightarrow> ghas (Annotations p) AnnotationChildName
     \<and> ghas (Annotations p) AnnotationIpmanName \<and> ghas (Annotations p) AnnotationPoolName"

definition workerFromPod :: "k8s_pod \<Rightarrow> worker" where
  "workerFromPod p =
     \<lparr>w_Meta = pod_meta_of p [],
      w_Routes = [gstr (Annotations p) AnnotationRemoteIPs],
      w_OwnerConnection = gstr (Annotations p) AnnotationIpmanName,
      w_OwnerChild = gstr (Annotations p) AnnotationChildName,
      w_VxlanIP = gstr (Annotations p) AnnotationVxlanIP\<rparr>"

section \<open>What is created is what is read\<close>

text \<open>What the API server adds to a created pod once it runs.\<close>

definition scheduled :: "string \<Rightarrow> string \<Rightarrow> k8s_pod \<Rightarrow> k8s_pod" where
  "scheduled node ip p = p\<lparr>p_NodeName := node, PodIP := ip, Phase := ''Running''\<rparr>"

lemma scheduled_fields [simp]:
  "p_Name (scheduled n ip p) = p_Name p" "p_Namespace (scheduled n ip p) = p_Namespace p"
  "Labels (scheduled n ip p) = Labels p" "Annotations (scheduled n ip p) = Annotations p"
  "Volumes (scheduled n ip p) = Volumes p" "Containers (scheduled n ip p) = Containers p"
  "p_HostNetwork (scheduled n ip p) = p_HostNetwork p"
  "p_NodeName (scheduled n ip p) = n" "PodIP (scheduled n ip p) = ip"
  by (simp_all add: scheduled_def)

lemma ExtractCharonVolumeSocketPath_scheduled [simp]:
  "ExtractCharonVolumeSocketPath (scheduled n ip p) = ExtractCharonVolumeSocketPath p"
  "ExtractContainerImage (scheduled n ip p) c = ExtractContainerImage p c"
  by (simp_all add: ExtractCharonVolumeSocketPath_def ExtractContainerImage_def)

lemma socket_path_charon: "ExtractCharonVolumeSocketPath (create_charon_pod p e) = Ok (cp_HostPath (PSpec p))"
  by (simp add: create_charon_pod_def createPodFromSpec_def Charon_ApplySpec_def Let_def
      ExtractCharonVolumeSocketPath_def createCharonSocketVolume_def CharonConfVolumeName_def
      CharonSocketHostVolumeName_def)

lemma socket_path_restctl: "ExtractCharonVolumeSocketPath (create_restctl_pod p e) = Ok (rp_HostPath (PSpec p))"
  by (simp add: create_restctl_pod_def createPodFromSpec_def Restctl_ApplySpec_def Let_def
      ExtractCharonVolumeSocketPath_def createCharonSocketVolume_def)

lemma pod_group_eq:
  "gstr (Labels p) LabelGroupName = gr_name r \<Longrightarrow> gstr (Labels p) LabelGroupNamespace = gr_namespace r
    \<Longrightarrow> pod_group p = r"
  by (simp add: pod_group_def)

text \<open>
  The controller finds a charon pod it created as it wanted it: \<open>CharonFromPod\<close> applied to
  the running pod that \<open>createPodFromSpec\<close> built returns the same name, namespace, group, socket
  path and host-network flag, with the image of the settings, and does not panic.
\<close>

theorem charon_created_is_read:
  "CharonFromPod (scheduled node ip (create_charon_pod p env)) = (Ok
     \<lparr>Meta = \<lparr>pm_Name = pm_Name (Meta p), pm_Namespace = pm_Namespace (Meta p), pm_IP = ip,
        pm_NodeName = node, pm_Image = CharonDaemonImage env\<rparr>,
      PSpec = PSpec p,
      PAnnotations = Some (Annotations (create_charon_pod p env)),
      PGroup = PGroup p\<rparr> :: ('e, charon_pod) outcome)"
proof -
  have g: "pod_group (scheduled node ip (create_charon_pod p env)) = PGroup p"
    using charon_spec.created_group by (intro pod_group_eq) (simp_all add: create_charon_pod_def)
  have n: "p_HostNetwork (create_charon_pod p env) = cp_HostNetwork (PSpec p)"
    "ExtractContainerImage (create_charon_pod p env) CharonDaemonContainerName = CharonDaemonImage env"
    by (simp_all add: create_charon_pod_def createPodFromSpec_def Charon_ApplySpec_def
        ExtractContainerImage_def)
  have m: "p_Name (create_charon_pod p env) = pm_Name (Meta p)"
    "p_Namespace (create_charon_pod p env) = pm_Namespace (Meta p)"
    using charon_spec.created_name charon_spec.created_namespace
    by (simp_all add: create_charon_pod_def)
  show ?thesis
    by (simp add: CharonFromPod_def socket_path_charon g n m pod_meta_of_def)
qed

text \<open>
  C15. An xfrm pod survives the way through its JSON annotation: read back from the running pod
  that was created for it, it has the same name, namespace and group and a specification that
  \<open>reflect.DeepEqual\<close> accepts as equal, provided it has no extra annotation under the key of the
  specification.
\<close>

theorem xfrm_created_is_read:
  assumes "gok (gmap_of (BridgeFDB (Routes (PSpec p))))"
    and "gok (gmap_of (PAnnotations p))"
    and "gget (gmap_of (PAnnotations p)) AnnotationSpec = None"
  shows "let q = XfrmFromPod (scheduled node ip (create_xfrm_pod p env)) in
    xfrm_spec_deep_eq (PSpec p) (PSpec q) \<and> PGroup q = PGroup p
    \<and> Meta q = \<lparr>pm_Name = pm_Name (Meta p), pm_Namespace = pm_Namespace (Meta p), pm_IP = ip,
        pm_NodeName = node, pm_Image = XfrminionImage env\<rparr>"
proof -
  have g: "pod_group (scheduled node ip (create_xfrm_pod p env)) = PGroup p"
    using xfrm_spec.created_group by (intro pod_group_eq) (simp_all add: create_xfrm_pod_def)
  have i: "ExtractContainerImage (create_xfrm_pod p env) XfrminionContainerName = XfrminionImage env"
    by (simp add: create_xfrm_pod_def createPodFromSpec_def Xfrm_ApplySpec_def
        ExtractContainerImage_def)
  have m: "p_Name (create_xfrm_pod p env) = pm_Name (Meta p)"
    "p_Namespace (create_xfrm_pod p env) = pm_Namespace (Meta p)"
    "gstr (Annotations (create_xfrm_pod p env)) AnnotationSpec = marshal_xfrm (PSpec p)"
    using xfrm_spec.created_name xfrm_spec.created_namespace
      xfrm_spec.created_spec_annotation [OF assms(2,3)]
    by (simp_all add: create_xfrm_pod_def)
  show ?thesis
    using unmarshal_marshal_xfrm_eq [OF assms(1)]
    by (simp add: XfrmFromPod_def g i m pod_meta_of_def Let_def)
qed

definition sample_xfrm_pod :: xfrm_pod where
  "sample_xfrm_pod =
     \<lparr>Meta = \<lparr>pm_Name = ''xfrm-pod-a-c'', pm_Namespace = ''ims'', pm_IP = [], pm_NodeName = ''n1'',
        pm_Image = ''img''\<rparr>,
      PSpec = \<lparr>Routes = \<lparr>Local = Some [''10.0.2.0/24''], Remote = None,
          BridgeFDB = Some [(''b'', ''2''), (''a'', ''1'')]\<rparr>,
        Props = \<lparr>OwnerChild = ''a'', OwnerConnection = ''c'', InterfaceID = 101,
          x_XfrmIP = ''10.0.2.1/24'', x_VxlanIP = ''10.0.2.2/24''\<rparr>\<rparr>,
      PAnnotations = None,
      PGroup = \<lparr>gr_name = ''g'', gr_namespace = ''default''\<rparr>\<rparr>"

theorem xfrm_created_is_read_witness:
  "xfrm_spec_deep_eq (PSpec sample_xfrm_pod)
     (PSpec (XfrmFromPod (scheduled ''n1'' ''10.1.1.1'' (create_xfrm_pod sample_xfrm_pod sample_envs))))"
proof -
  have "gok (gmap_of (BridgeFDB (Routes (PSpec sample_xfrm_pod))))"
    "gok (gmap_of (PAnnotations sample_xfrm_pod))"
    "gget (gmap_of (PAnnotations sample_xfrm_pod)) AnnotationSpec = None"
    by (simp_all add: sample_xfrm_pod_def gok_def)
  from xfrm_created_is_read [OF this, of "''n1''" "''10.1.1.1''" sample_envs] show ?thesis
    by (simp add: Let_def)
qed

end
