(* ===== verification/Cluster.thy ===== *)
theory Cluster
  imports Pod_Specs
begin

text \<open>
  The two states the reconciler compares (\<open>ipman_controller.go\<close>): \<open>GetClusterState\<close> reads the
  current one from the API server, \<open>CreateDesiredState\<close> computes the desired one from the
  connections and the charon groups. Reads are the fields of the record \<open>api\<close>: the answer of the
  API server to each kind of list or get during one pass, an error or a value. The list of pods
  that \<open>CreateWorkers\<close> fetches is a separate field, since it is a separate request.
\<close>

datatype api_error = ApiNotFound | ApiConflict | ApiAlreadyExists | ApiOther

record k8s_node =
  n_Name :: string
  n_Labels :: "(string, string) gomap"
  n_MachineID :: string

record api =
  ListNodes :: "(api_error, k8s_node list) outcome"
  ListGroups :: "(api_error, charon_group list) outcome"
  ListPods :: "(api_error, k8s_pod list) outcome"
  ListWorkerPods :: "(api_error, k8s_pod list) outcome"
  ListConns :: "(api_error, ipsec_conn list) outcome"
  GetPodMonitor :: "(api_error, unit) outcome"
  GetPod :: "nsn \<Rightarrow> (api_error, k8s_pod) outcome"

datatype ctl_error =
    RequestError string string api_error
  | PlainApiError api_error
  | GroupNotFound string
  | CreatingGroups ctl_error
  | NoCharonPod api_error

fun wrap_request :: "string \<Rightarrow> string \<Rightarrow> (api_error, 'a) outcome \<Rightarrow> (ctl_error, 'a) outcome" where
  "wrap_request act resource (Ok v) = Ok v"
| "wrap_request act resource (Err e) = Err (RequestError act resource e)"
| "wrap_request act resource Panic = Panic"

fun plain_request :: "(api_error, 'a) outcome \<Rightarrow> (ctl_error, 'a) outcome" where
  "plain_request (Ok v) = Ok v"
| "plain_request (Err e) = Err (PlainApiError e)"
| "plain_request Panic = Panic"

section \<open>State (state.go)\<close>

record ipsec_state =
  is_Name :: string
  is_State :: string
  is_ChildrenState :: "(string, string) gomap option"
  is_Group :: charon_group_ref

record group_state =
  Charon :: "charon_pod option"
  Proxy :: "restctl_pod option"
  Xfrms :: "xfrm_pod list"
  GroupRef :: charon_group_ref
  IPSecs :: "ipsec_state list"

record cluster_state =
  Groups :: "group_state list"
  PodMonitor :: bool

section \<open>Looking pods up by group\<close>

text \<open>\<open>FindPod\<close> compares the namespace of the pod's group with itself, as the source does.\<close>

definition FindPod :: "'s ipman_pod list \<Rightarrow> charon_group_ref \<Rightarrow> 's ipman_pod option" where
  "FindPod ps gr = find (\<lambda>p. gr_name (PGroup p) = gr_name gr
      \<and> gr_namespace (PGroup p) = gr_namespace (PGroup p)) ps"

definition FindXfrms :: "xfrm_pod list \<Rightarrow> charon_group_ref \<Rightarrow> xfrm_pod list" where
  "FindXfrms ps gr = filter (\<lambda>p. \<not> (gr_name (PGroup p) \<noteq> gr_name gr
      \<or> gr_namespace (PGroup p) \<noteq> gr_namespace gr)) ps"

definition FindIPSecs :: "ipsec_state list \<Rightarrow> charon_group_ref \<Rightarrow> ipsec_state list" where
  "FindIPSecs cs gr = filter (\<lambda>c. \<not> (gr_name (is_Group c) \<noteq> gr_name gr
      \<or> gr_namespace (is_Group c) \<noteq> gr_namespace gr)) cs"

definition sortPods :: "'s ipman_pod list \<Rightarrow> 's ipman_pod list" where
  "sortPods ps = sort_key (\<lambda>p. pm_Name (Meta p)) ps"

lemma FindXfrms_eq: "FindXfrms ps gr = filter (\<lambda>p. PGroup p = gr) ps"
  unfolding FindXfrms_def by (rule filter_cong) auto

lemma FindIPSecs_eq: "FindIPSecs cs gr = filter (\<lambda>c. is_Group c = gr) cs"
  unfolding FindIPSecs_def by (rule filter_cong) auto

lemma FindPod_eq: "FindPod ps gr = find (\<lambda>p. gr_name (PGroup p) = gr_name gr) ps"
  by (simp add: FindPod_def)

section \<open>The current state\<close>

definition GetClusterNodes :: "api \<Rightarrow> (ctl_error, string list) outcome" where
  "GetClusterNodes a = obind (wrap_request ''List'' ''Nodes'' (ListNodes a)) (\<lambda>ns. Ok (map n_Name ns))"

definition GetClusterPodsByType :: "api \<Rightarrow> string \<Rightarrow> (ctl_error, k8s_pod list) outcome" where
  "GetClusterPodsByType a podType = obind (wrap_request ''List'' ''Pods'' (ListPods a))
     (\<lambda>ps. Ok (filter (\<lambda>p. gget (Labels p) LabelPodType = Some podType) ps))"

definition GetClusterPodsAs ::
  "api \<Rightarrow> string \<Rightarrow> (k8s_pod \<Rightarrow> (ctl_error, 's ipman_pod) outcome) \<Rightarrow> (ctl_error, 's ipman_pod list) outcome"
where
  "GetClusterPodsAs a label transformer = obind (GetClusterPodsByType a label)
     (concat_outcome (\<lambda>p. obind (transformer p) (\<lambda>q. Ok [q])))"

definition GetClusterIPSecs :: "api \<Rightarrow> (ctl_error, ipsec_state list) outcome" where
  "GetClusterIPSecs a = obind (plain_request (ListConns a)) (\<lambda>cs. Ok
     (map (\<lambda>c. \<lparr>is_Name = cn_Name c, is_State = State (Status c),
            is_ChildrenState = ChildrenState (Status c), is_Group = Group (Spec c)\<rparr>)
        (filter (\<lambda>c. trim_space (cn_Name c) \<noteq> []) cs)))"

definition monitor_present :: "envs \<Rightarrow> api \<Rightarrow> (ctl_error, bool) outcome" where
  "monitor_present env a =
     (if IsMonitoringEnabled env then
        (case GetPodMonitor a of
           Ok _ \<Rightarrow> Ok True
         | Err e \<Rightarrow> if e \<noteq> ApiNotFound then Err (RequestError ''Get'' ''PodMonitor'' e) else Ok False
         | Panic \<Rightarrow> Panic)
      else Ok False)"

definition GetClusterState :: "envs \<Rightarrow> api \<Rightarrow> (ctl_error, cluster_state) outcome" where
  "GetClusterState env a =
     obind (wrap_request ''List'' ''CharonGroups'' (ListGroups a)) (\<lambda>groups.
     obind (monitor_present env a) (\<lambda>pm.
     obind (GetClusterPodsAs a LabelValueCharonPod CharonFromPod) (\<lambda>charons.
     obind (GetClusterPodsAs a LabelValueRestctlPod RestctlFromPod) (\<lambda>proxies.
     obind (GetClusterPodsAs a LabelValueXfrmPod (\<lambda>p. Ok (XfrmFromPod p))) (\<lambda>xfrms.
     obind (GetClusterIPSecs a) (\<lambda>ipsecs.
       let xs = sortPods xfrms in
       Ok \<lparr>Groups = map (\<lambda>g. let ref = group_ref g in
              \<lparr>Charon = FindPod charons ref, Proxy = FindPod proxies ref,
               Xfrms = FindXfrms xs ref, GroupRef = ref, IPSecs = FindIPSecs ipsecs ref\<rparr>) groups,
          PodMonitor = pm\<rparr>))))))"

section \<open>The desired state\<close>

text \<open>\<open>GetGroup\<close> looks the group up by its name only.\<close>

definition GetGroup :: "api \<Rightarrow> charon_group_ref \<Rightarrow> (ctl_error, charon_group) outcome" where
  "GetGroup a gr = obind (plain_request (ListGroups a)) (\<lambda>gs.
     case find (\<lambda>g. g_name g = gr_name gr) gs of
       Some g \<Rightarrow> Ok g
     | None \<Rightarrow> Err (GroupNotFound (gr_name gr)))"

definition group_socket_path :: "envs \<Rightarrow> charon_group \<Rightarrow> string" where
  "group_socket_path env g =
     (let path = go_join ''/'' [g_name g, g_namespace g]; fullPath = HostSocketsPath env
      in if has_suffix fullPath ''/'' then fullPath @ path else fullPath @ ''/'' @ path)"

definition CreateCharons :: "envs \<Rightarrow> (nsn, charon_group) gomap \<Rightarrow> charon_pod list" where
  "CreateCharons env groups = map (\<lambda>(_, g).
     \<lparr>Meta = \<lparr>pm_Name = go_join ''-'' [CharonPodName, g_namespace g, g_name g],
        pm_Namespace = NamespaceName env, pm_IP = [], pm_NodeName = gs_nodeName (g_spec g),
        pm_Image = CharonDaemonImage env\<rparr>,
      PSpec = \<lparr>cp_HostPath = group_socket_path env g, cp_HostNetwork = gs_hostNetwork (g_spec g)\<rparr>,
      PAnnotations = gs_annotations (g_spec g),
      PGroup = group_ref g\<rparr>) groups"

definition CreateRestctls :: "envs \<Rightarrow> (nsn, charon_group) gomap \<Rightarrow> restctl_pod list" where
  "CreateRestctls env groups = map (\<lambda>(n, g).
     \<lparr>Meta = \<lparr>pm_Name = go_join ''-'' [RestctlPodName, nsn_namespace n, nsn_name n],
        pm_Namespace = NamespaceName env, pm_IP = [], pm_NodeName = gs_nodeName (g_spec g),
        pm_Image = CaddyImage env\<rparr>,
      PSpec = \<lparr>rp_HostPath = group_socket_path env g\<rparr>,
      PAnnotations = None,
      PGroup = \<lparr>gr_name = nsn_name n, gr_namespace = nsn_namespace n\<rparr>\<rparr>) groups"

type_synonym workers = "(string, (string, worker list) gomap) gomap"

text \<open>A missing entry of a nested map reads as an empty map, a missing list as an empty one.\<close>

definition workers_of :: "workers \<Rightarrow> string \<Rightarrow> string \<Rightarrow> worker list" where
  "workers_of ws con ch = (case gget ws con of None \<Rightarrow> []
     | Some m \<Rightarrow> (case gget m ch of None \<Rightarrow> [] | Some xs \<Rightarrow> xs))"

definition add_worker :: "workers \<Rightarrow> k8s_pod \<Rightarrow> workers" where
  "add_worker ws p =
     (if PodIP p = [] then ws
      else
        let podChn = gstr (Labels p) LabelWorker;
            podCon = gstr (Annotations p) AnnotationIpmanName;
            inner = (case gget ws podCon of None \<Rightarrow> [] | Some m \<Rightarrow> m);
            entries = (case gget inner podChn of None \<Rightarrow> [] | Some xs \<Rightarrow> xs)
        in gput podCon (gput podChn (entries @ [workerFromPod p]) inner) ws)"

definition CreateWorkers :: "api \<Rightarrow> (api_error, workers) outcome" where
  "CreateWorkers a = obind (ListWorkerPods a) (\<lambda>ps. Ok (foldl add_worker [] ps))"

definition xfrm_name :: "string \<Rightarrow> string \<Rightarrow> string" where
  "xfrm_name child_name conn_name = go_join ''-'' [XfrmPodName, child_name, conn_name]"

definition desired_fdb :: "worker list \<Rightarrow> (string, string) gomap" where
  "desired_fdb ws = foldl (\<lambda>m w. gput (w_VxlanIP w) (pm_IP (w_Meta w)) m) [] ws"

definition zero_group :: charon_group where
  "zero_group = \<lparr>g_name = [], g_namespace = [], g_spec = \<lparr>gs_hostNetwork = False,
     gs_annotations = None, gs_nodeName = [], gs_interfaceName = None\<rparr>\<rparr>"

definition desired_xfrm :: "envs \<Rightarrow> charon_group \<Rightarrow> workers \<Rightarrow> ipsec_conn \<Rightarrow> child \<Rightarrow> xfrm_pod" where
  "desired_xfrm env grp ws conn c =
     \<lparr>Meta = \<lparr>pm_Name = xfrm_name (c_Name c) (cn_Name conn), pm_Namespace = NamespaceName env,
        pm_IP = [], pm_NodeName = gs_nodeName (g_spec grp), pm_Image = XfrminionImage env\<rparr>,
      PSpec = \<lparr>Routes = \<lparr>Local = LocalIPs c, Remote = RemoteIPs c,
          BridgeFDB = Some (desired_fdb (workers_of ws (cn_Name conn) (c_Name c)))\<rparr>,
        Props = \<lparr>OwnerChild = c_Name c, OwnerConnection = cn_Name conn,
          InterfaceID = word_of_int (XfrmIfId c), x_XfrmIP = XfrmIP c, x_VxlanIP = VxlanIP c\<rparr>\<rparr>,
      PAnnotations = None,
      PGroup = Group (Spec conn)\<rparr>"

text \<open>
  \<open>CreateXfrms\<close>: a failing list of workers makes it return nil; a group that is not found is
  logged and the zero group used instead.
\<close>

definition CreateXfrms :: "envs \<Rightarrow> api \<Rightarrow> ipsec_conn list \<Rightarrow> xfrm_pod list" where
  "CreateXfrms env a cl =
     (case CreateWorkers a of
        Ok ws \<Rightarrow> concat (map (\<lambda>conn.
          let grp = (case GetGroup a (Group (Spec conn)) of Ok g \<Rightarrow> g | _ \<Rightarrow> zero_group)
          in map (\<lambda>(_, c). desired_xfrm env grp ws conn c) (Children (Spec conn))) cl)
      | _ \<Rightarrow> [])"

definition up_children :: "ipsec_conn \<Rightarrow> (string, string) gomap" where
  "up_children conn = foldl (\<lambda>m k. gput k ''UP'' m) [] (gkeys (Children (Spec conn)))"

definition createIPSecs :: "ipsec_conn list \<Rightarrow> ipsec_state list" where
  "createIPSecs cl = sort_key is_Name (map (\<lambda>conn.
     \<lparr>is_Name = cn_Name conn, is_State = ''UP'', is_ChildrenState = Some (up_children conn),
      is_Group = Group (Spec conn)\<rparr>) (filter (\<lambda>conn. trim_space (cn_Name conn) \<noteq> []) cl))"

fun collect_groups ::
  "api \<Rightarrow> (nsn, charon_group) gomap \<Rightarrow> ipsec_conn list \<Rightarrow> (ctl_error, (nsn, charon_group) gomap) outcome"
where
  "collect_groups a m [] = Ok m"
| "collect_groups a m (c # cs) = obind (GetGroup a (Group (Spec c)))
     (\<lambda>g. collect_groups a (gput (CharonGroup_Nsn g) g m) cs)"

definition CreateClusterNodes :: "envs \<Rightarrow> api \<Rightarrow> ipsec_conn list \<Rightarrow> (ctl_error, group_state list) outcome" where
  "CreateClusterNodes env a cl = obind (collect_groups a [] cl) (\<lambda>groups.
     let chs = CreateCharons env groups;
         prxs = CreateRestctls env groups;
         xfrms = sortPods (CreateXfrms env a cl);
         ipsecs = createIPSecs cl
     in Ok (map (\<lambda>(n, _).
          let ref = \<lparr>gr_name = nsn_name n, gr_namespace = nsn_namespace n\<rparr>
          in \<lparr>Charon = FindPod chs ref, Proxy = FindPod prxs ref, Xfrms = FindXfrms xfrms ref,
              GroupRef = ref, IPSecs = FindIPSecs ipsecs ref\<rparr>) groups))"

definition CreateNodes :: "envs \<Rightarrow> api \<Rightarrow> (ctl_error, group_state list) outcome" where
  "CreateNodes env a = obind (wrap_request ''List'' ''IPSecConnections'' (ListConns a)) (\<lambda>cl.
     obind (CreateClusterNodes env a cl) (\<lambda>gs. Ok (sort_key (\<lambda>g. gr_name (GroupRef g)) gs)))"

definition CreateDesiredState :: "envs \<Rightarrow> api \<Rightarrow> (ctl_error, cluster_state) outcome" where
  "CreateDesiredState env a = (case CreateNodes env a of
      Ok gs \<Rightarrow> Ok \<lparr>Groups = gs, PodMonitor = IsMonitoringEnabled env\<rparr>
    | Err e \<Rightarrow> Err (CreatingGroups e)
    | Panic \<Rightarrow> Panic)"

section \<open>Workers\<close>

definition is_worker_of :: "string \<Rightarrow> string \<Rightarrow> k8s_pod \<Rightarrow> bool" where
  "is_worker_of con ch p \<longleftrightarrow> PodIP p \<noteq> [] \<and> gstr (Annotations p) AnnotationIpmanName = con
     \<and> gstr (Labels p) LabelWorker = ch"

lemma workers_of_add:
  "workers_of (add_worker ws p) con ch
     = workers_of ws con ch @ (if is_worker_of con ch p then [workerFromPod p] else [])"
  by (auto simp: add_worker_def workers_of_def is_worker_of_def gget_put Let_def
      split: option.splits)

lemma workers_of_foldl:
  "workers_of (foldl add_worker ws ps) con ch
     = workers_of ws con ch @ map workerFromPod (filter (is_worker_of con ch) ps)"
  by (induction ps arbitrary: ws) (simp_all add: workers_of_add)

lemma workers_of_Nil [simp]: "workers_of [] con ch = []"
  by (simp add: workers_of_def)

lemma gok_desired_fdb [simp]: "gok (desired_fdb ws)"
proof -
  have "gok m \<Longrightarrow> gok (foldl (\<lambda>m w. gput (w_VxlanIP w) (pm_IP (w_Meta w)) m) m ws)" for m
    by (induction ws arbitrary: m) auto
  then show ?thesis by (simp add: desired_fdb_def)
qed

lemma gget_desired_fdb:
  "gget (desired_fdb ws) v
     = map_option (\<lambda>w. pm_IP (w_Meta w)) (find (\<lambda>w. w_VxlanIP w = v) (rev ws))"
proof -
  have "gget (foldl (\<lambda>m w. gput (w_VxlanIP w) (pm_IP (w_Meta w)) m) m ws) v
     = (case find (\<lambda>w. w_VxlanIP w = v) (rev ws) of Some w \<Rightarrow> Some (pm_IP (w_Meta w))
        | None \<Rightarrow> gget m v)" for m
  proof (induction ws rule: rev_induct)
    case Nil
    then show ?case by simp
  next
    case (snoc w ws)
    then show ?case by (auto simp: gget_put)
  qed
  then show ?thesis by (simp add: desired_fdb_def split: option.splits)
qed

section \<open>Properties\<close>

text \<open>
  C16. \<open>CreateXfrms\<close> wants exactly one xfrm pod per child of every connection: with the list of
  worker pods at hand, the names of the desired pods are, in order, those of the children of the
  connections, and the pod of a child carries the child's routes and interface id (truncated to
  32 bits) and a forwarding entry from every VXLAN address of a running worker of that child to
  the pod address of the last such worker.
\<close>

theorem CreateXfrms_per_child:
  assumes "ListWorkerPods a = Ok ps"
  shows "map (\<lambda>x. pm_Name (Meta x)) (CreateXfrms env a cl)
      = concat (map (\<lambda>conn. map (\<lambda>(_, c). xfrm_name (c_Name c) (cn_Name conn)) (Children (Spec conn))) cl)
    \<and> (\<forall>x \<in> set (CreateXfrms env a cl). \<exists>conn \<in> set cl. \<exists>c \<in> snd ` set (Children (Spec conn)).
        PGroup x = Group (Spec conn)
        \<and> Local (Routes (PSpec x)) = LocalIPs c \<and> Remote (Routes (PSpec x)) = RemoteIPs c
        \<and> InterfaceID (Props (PSpec x)) = word_of_int (XfrmIfId c)
        \<and> (\<forall>v. gget (gmap_of (BridgeFDB (Routes (PSpec x)))) v
             = map_option PodIP (find (\<lambda>p. gstr (Annotations p) AnnotationVxlanIP = v)
                 (rev (filter (is_worker_of (cn_Name conn) (c_Name c)) ps)))))"
proof -
  have find_map: "find P (map f xs) = map_option f (find (\<lambda>x. P (f x)) xs)"
    for P and f :: "k8s_pod \<Rightarrow> worker" and xs
    by (induction xs) auto
  show ?thesis
    using assms
    by (auto simp: CreateXfrms_def CreateWorkers_def Let_def map_concat comp_def case_prod_unfold
        desired_xfrm_def gget_desired_fdb workers_of_foldl rev_map find_map option.map_comp
        workerFromPod_def pod_meta_of_def)
qed

text \<open>One connection with two children and no running worker.\<close>

definition two_children :: ipsec_conn where
  "two_children = \<lparr>cn_Name = ''c'', cn_Namespace = [], Spec = \<lparr>sp_Name = ''c'', RemoteAddr = [], LocalAddr = [],
     LocalId = [], RemoteId = [], SecretRef = \<lparr>s_Name = [], s_Namespace = [], s_Key = []\<rparr>,
     Children = [(''a'', zero_child\<lparr>c_Name := ''a''\<rparr>), (''b'', zero_child\<lparr>c_Name := ''b'', XfrmIfId := 2 ^ 32 + 7\<rparr>)],
     sp_Extra = [], Group = \<lparr>gr_name = ''g'', gr_namespace = ''default''\<rparr>\<rparr>, Status = zero_status\<rparr>"

definition quiet_api :: api where
  "quiet_api = \<lparr>ListNodes = Ok [], ListGroups = Ok [], ListPods = Ok [], ListWorkerPods = Ok [],
     ListConns = Ok [two_children], GetPodMonitor = Err ApiNotFound, GetPod = (\<lambda>_. Err ApiNotFound)\<rparr>"

theorem CreateXfrms_per_child_witness:
  "map (\<lambda>x. pm_Name (Meta x)) (CreateXfrms sample_envs quiet_api [two_children]) = [''xfrm-pod-a-c'', ''xfrm-pod-b-c'']"
proof -
  have "ListWorkerPods quiet_api = Ok []" by (simp add: quiet_api_def)
  from CreateXfrms_per_child [OF this, of sample_envs "[two_children]"] show ?thesis
    by (simp add: two_children_def xfrm_name_def XfrmPodName_def)
qed

end
