(* ===== verification/Go_Time.thy ===== *)
theory Go_Time
  imports Json
begin

text \<open>
  Points in time as the code uses them: \<open>time.Parse\<close> and \<open>Format\<close> with \<open>time.Layout\<close>, which is
  \<open>01/02 03:04:05PM '06 -0700\<close>. A point in time is a number of nanoseconds since the epoch; the
  wall clock reading that \<open>Format\<close> prints is a record of its fields.
\<close>

definition second_ns :: int where "second_ns = 1000000000"

record wall_clock =
  wc_year :: nat
  wc_month :: nat
  wc_day :: nat
  wc_hour :: nat
  wc_minute :: nat
  wc_second :: nat
  wc_nano :: nat
  wc_zone :: int  \<comment> \<open>seconds east of UTC\<close>

definition leap_year :: "int \<Rightarrow> bool" where
  "leap_year y \<longleftrightarrow> y mod 4 = 0 \<and> (y mod 100 \<noteq> 0 \<or> y mod 400 = 0)"

definition days_in :: "nat \<Rightarrow> int \<Rightarrow> nat" where
  "days_in m y = (if m = 2 then (if leap_year y then 29 else 28)
     else if list_contains [4, 6, 9, 11] m then 30 else 31)"

text \<open>Days since 1970-01-01 in the proleptic Gregorian calendar.\<close>

definition days_from_civil :: "int \<Rightarrow> nat \<Rightarrow> nat \<Rightarrow> int" where
  "days_from_civil y m d =
     (let y' = (if m \<le> 2 then y - 1 else y);
          era = y' div 400;
          yoe = y' - era * 400;
          mp = int (if m > 2 then m - 3 else m + 9);
          doy = (153 * mp + 2) div 5 + int d - 1;
          doe = yoe * 365 + yoe div 4 - yoe div 100 + doy
      in era * 146097 + doe - 719468)"

definition instant_of :: "int \<Rightarrow> nat \<Rightarrow> nat \<Rightarrow> nat \<Rightarrow> nat \<Rightarrow> nat \<Rightarrow> nat \<Rightarrow> int \<Rightarrow> int" where
  "instant_of y mo d h mi s ns zone =
     (days_from_civil y mo d * 86400 + int h * 3600 + int mi * 60 + int s - zone) * second_ns + int ns"

definition instant :: "wall_clock \<Rightarrow> int" where
  "instant c = instant_of (int (wc_year c)) (wc_month c) (wc_day c) (wc_hour c) (wc_minute c)
     (wc_second c) (wc_nano c) (wc_zone c)"

section \<open>Format\<close>

definition two :: "nat \<Rightarrow> string" where
  "two n = [digit_char (n div 10 mod 10), digit_char (n mod 10)]"

definition format_layout :: "wall_clock \<Rightarrow> string" where
  "format_layout c =
     (let h12 = (if wc_hour c mod 12 = 0 then 12 else wc_hour c mod 12);
          zone = nat \<bar>wc_zone c\<bar> div 60
      in two (wc_month c) @ ''/'' @ two (wc_day c) @ '' '' @ two h12 @ '':'' @ two (wc_minute c)
         @ '':'' @ two (wc_second c) @ (if wc_hour c < 12 then ''AM'' else ''PM'')
         @ '' '' @ [CHR 0x27] @ two (wc_year c mod 100)
         @ '' '' @ (if wc_zone c < 0 then ''-'' else ''+'') @ two (zone div 60) @ two (zone mod 60))"

section \<open>Parse\<close>

definition cut_space :: "string \<Rightarrow> string" where
  "cut_space s = dropWhile (\<lambda>c. c = CHR '' '') s"

text \<open>\<open>skip\<close>: a space in the layout matches any number of spaces, or the end of the value.\<close>

fun skip_lit :: "string \<Rightarrow> string \<Rightarrow> string option" where
  "skip_lit [] v = Some v"
| "skip_lit (p # ps) v =
     (if p = CHR '' '' then
        (if v \<noteq> [] \<and> hd v \<noteq> CHR '' '' then None else skip_lit ps (cut_space v))
      else (case v of [] \<Rightarrow> None | c # cs \<Rightarrow> if c = p then skip_lit ps cs else None))"

fun getnum :: "string \<Rightarrow> (nat \<times> string) option" where
  "getnum (a # b # v) = (case (char_digit a, char_digit b) of
      (Some x, Some y) \<Rightarrow> Some (10 * x + y, v) | _ \<Rightarrow> None)"
| "getnum _ = None"

text \<open>The two characters of the year; the first may be a sign.\<close>

fun get_year :: "string \<Rightarrow> (int \<times> string) option" where
  "get_year (a # b # v) = (case char_digit b of
      None \<Rightarrow> None
    | Some y \<Rightarrow> (case char_digit a of
          Some x \<Rightarrow> Some (int (10 * x + y), v)
        | None \<Rightarrow> if a = CHR ''-'' then Some (- int y, v) else if a = CHR ''+'' then Some (int y, v) else None))"
| "get_year _ = None"

definition is_digit :: "char \<Rightarrow> bool" where
  "is_digit c \<longleftrightarrow> char_digit c \<noteq> None"

text \<open>A fraction of a second is accepted after the seconds though the layout has none.\<close>

fun get_fraction :: "string \<Rightarrow> nat \<times> string" where
  "get_fraction (p # d # v) =
     (if (p = CHR ''.'' \<or> p = CHR '','') \<and> is_digit d then
        (let digits = takeWhile is_digit (d # v);
             used = take 9 digits;
             n = foldl (\<lambda>acc c. acc * 10 + (case char_digit c of None \<Rightarrow> 0 | Some x \<Rightarrow> x)) 0 used
         in (n * 10 ^ (9 - length used), dropWhile is_digit (d # v)))
      else (0, p # d # v))"
| "get_fraction v = (0, v)"

fun get_zone :: "string \<Rightarrow> (int \<times> string) option" where
  "get_zone (s # v) = (case getnum v of
      None \<Rightarrow> None
    | Some (hr, v1) \<Rightarrow> (case getnum v1 of
          None \<Rightarrow> None
        | Some (mm, v2) \<Rightarrow>
            if hr > 24 \<or> mm > 60 then None
            else if s = CHR ''+'' then Some (int ((hr * 60 + mm) * 60), v2)
            else if s = CHR ''-'' then Some (- int ((hr * 60 + mm) * 60), v2)
            else None))"
| "get_zone [] = None"

fun get_pm :: "string \<Rightarrow> (bool \<times> string) option" where
  "get_pm (a # b # v) = (if [a, b] = ''PM'' then Some (True, v) else if [a, b] = ''AM'' then Some (False, v) else None)"
| "get_pm _ = None"

text \<open>The half of the day, the year and the zone, up to the end of the value.\<close>

definition parse_tail :: "string \<Rightarrow> (bool \<times> int \<times> int) option" where
  "parse_tail v =
     Option.bind (get_pm v) (\<lambda>(pm, v).
     Option.bind (skip_lit ('' '' @ [CHR 0x27]) v) (\<lambda>v.
     Option.bind (get_year v) (\<lambda>(y2, v).
     Option.bind (skip_lit '' '' v) (\<lambda>v.
     Option.bind (get_zone v) (\<lambda>(zone, v).
     if v \<noteq> [] then None else Some (pm, (if 69 \<le> y2 then y2 + 1900 else y2 + 2000), zone))))))"

definition parse_layout :: "string \<Rightarrow> int option" where
  "parse_layout v =
     Option.bind (getnum v) (\<lambda>(mo, v). if mo = 0 \<or> 12 < mo then None else
     Option.bind (skip_lit ''/'' v) (\<lambda>v.
     Option.bind (getnum v) (\<lambda>(d, v).
     Option.bind (skip_lit '' '' v) (\<lambda>v.
     Option.bind (getnum v) (\<lambda>(h, v). if 12 < h then None else
     Option.bind (skip_lit '':'' v) (\<lambda>v.
     Option.bind (getnum v) (\<lambda>(mi, v). if 60 \<le> mi then None else
     Option.bind (skip_lit '':'' v) (\<lambda>v.
     Option.bind (getnum v) (\<lambda>(s, v). if 60 \<le> s then None else
     let (ns, v) = get_fraction v in
     Option.bind (parse_tail v) (\<lambda>(pm, y, zone).
     let h = (if pm \<and> h < 12 then h + 12 else if \<not> pm \<and> h = 12 then 0 else h)
     in if d < 1 \<or> days_in mo y < d then None
        else Some (instant_of y mo d h mi s ns zone)))))))))))"

section \<open>Parsing what was printed\<close>

lemma getnum_two: "n < 100 \<Longrightarrow> getnum (two n @ v) = Some (n, v)"
  by (simp add: two_def)

lemma get_year_two: "n < 100 \<Longrightarrow> get_year (two n @ v) = Some (int n, v)"
  by (simp add: two_def)

lemma two_Cons: "two n = digit_char (n div 10 mod 10) # digit_char (n mod 10) # []"
  by (simp add: two_def)

lemma drop_space_two: "dropWhile (\<lambda>c. c = CHR '' '') (two n @ v) = two n @ v"
proof -
  have "digit_char (n div 10 mod 10) \<noteq> CHR '' ''"
  proof
    assume "digit_char (n div 10 mod 10) = CHR '' ''"
    then have "char_digit (CHR '' '') = Some (n div 10 mod 10)"
      using char_digit_digit_char [of "n div 10 mod 10"] by simp
    then show False by (simp add: char_digit_def)
  qed
  then show ?thesis by (simp add: two_Cons)
qed

definition clock_ok :: "wall_clock \<Rightarrow> bool" where
  "clock_ok c \<longleftrightarrow> 1969 \<le> wc_year c \<and> wc_year c \<le> 2068 \<and> 1 \<le> wc_month c \<and> wc_month c \<le> 12
     \<and> 1 \<le> wc_day c \<and> wc_day c \<le> days_in (wc_month c) (int (wc_year c))
     \<and> wc_hour c < 24 \<and> wc_minute c < 60 \<and> wc_second c < 60
     \<and> wc_zone c mod 60 = 0 \<and> \<bar>wc_zone c\<bar> \<le> 24 * 3600"

lemma get_pm_simps: "get_pm (''AM'' @ v) = Some (False, v)" "get_pm (''PM'' @ v) = Some (True, v)"
  by simp_all

lemma get_fraction_none: "get_fraction (CHR ''A'' # v) = (0, CHR ''A'' # v)" "get_fraction (CHR ''P'' # v) = (0, CHR ''P'' # v)"
  by (cases v; simp)+

lemma zone_read:
  assumes "z mod 60 = 0" "\<bar>z\<bar> \<le> 24 * 3600"
  shows "get_zone ((if z < 0 then ''-'' else ''+'') @ two (nat \<bar>z\<bar> div 60 div 60) @ two (nat \<bar>z\<bar> div 60 mod 60))
    = Some (z, [])"
proof -
  let ?Z = "nat \<bar>z\<bar> div 60"
  have le: "nat \<bar>z\<bar> \<le> 86400" using assms(2) by simp
  then have hr: "?Z div 60 \<le> 24" by simp
  have mm: "?Z mod 60 < 60" by simp
  have whole: "(?Z div 60 * 60 + ?Z mod 60) * 60 = nat \<bar>z\<bar>"
  proof -
    have "\<bar>z\<bar> mod 60 = 0" using assms(1) by (simp add: abs_if mod_minus_eq mod_eq_0_iff_dvd)
    then have "int (nat \<bar>z\<bar> mod 60) = 0" by (simp add: zmod_int)
    then have "nat \<bar>z\<bar> mod 60 = 0" by simp
    then show ?thesis using mult_div_mod_eq [of 60 "nat \<bar>z\<bar>"] by (simp add: mult.commute)
  qed
  have g: "getnum (two (?Z div 60) @ two (?Z mod 60)) = Some (?Z div 60, two (?Z mod 60))"
    "getnum (two (?Z mod 60)) = Some (?Z mod 60, [])"
    using getnum_two [of "?Z div 60" "two (?Z mod 60)"] getnum_two [of "?Z mod 60" "[]"] hr mm by simp_all
  show ?thesis
  proof (cases "z < 0")
    case True
    with g hr mm whole show ?thesis by (simp del: of_nat_mult of_nat_add)
  next
    case False
    with g hr mm whole show ?thesis by (simp del: of_nat_mult of_nat_add)
  qed
qed

lemma year_mod: "k * 100 \<le> n \<Longrightarrow> n < k * 100 + 100 \<Longrightarrow> n mod 100 = n - k * 100" for n k :: nat
proof -
  assume "k * 100 \<le> n" "n < k * 100 + 100"
  then have "n = (n - k * 100) + k * 100" "n - k * 100 < 100" by auto
  then show ?thesis by (metis mod_less mod_mult_self1)
qed

lemma parse_front:
  assumes "0 < mo" "mo \<le> 12" "d < 100" "h \<le> 12" "mi < 60" "s < 60"
    and "get_fraction t = (0, t)" "parse_tail t = Some (pm, y, zone)"
    and "1 \<le> d" "d \<le> days_in mo y"
  shows "parse_layout (two mo @ CHR ''/'' # two d @ CHR '' '' # two h @ CHR '':'' # two mi @ CHR '':'' # two s @ t)
    = Some (instant_of y mo d (if pm \<and> h < 12 then h + 12 else if \<not> pm \<and> h = 12 then 0 else h) mi s 0 zone)"
proof -
  have g: "getnum (two mo @ v) = Some (mo, v)" "getnum (two d @ v) = Some (d, v)" "getnum (two h @ v) = Some (h, v)"
    "getnum (two mi @ v) = Some (mi, v)" "getnum (two s @ v) = Some (s, v)" for v
    using assms(1-6) by (simp_all add: getnum_two)
  have sp: "skip_lit ''/'' (CHR ''/'' # v) = Some v" "skip_lit '':'' (CHR '':'' # v) = Some v"
    "skip_lit '' '' (CHR '' '' # two h @ v) = Some (two h @ v)" for v
    by (simp_all add: cut_space_def drop_space_two)
  show ?thesis
    unfolding parse_layout_def
    using assms by (simp only: g sp Option.bind.simps assms(7,8) prod.case Let_def if_False) simp
qed

lemma parse_format:
  assumes "clock_ok c"
  shows "parse_layout (format_layout c) = Some (instant (c\<lparr>wc_nano := 0\<rparr>))"
proof -
  note c = assms [unfolded clock_ok_def]
  let ?h12 = "if wc_hour c mod 12 = 0 then 12 else wc_hour c mod 12"
  have b: "wc_month c < 100" "wc_day c < 100" "?h12 < 100" "wc_minute c < 100" "wc_second c < 100"
    "wc_year c mod 100 < 100" "?h12 \<le> 12" "0 < ?h12"
    using c by (auto simp: days_in_def split: if_splits)
  let ?y = "int (wc_year c mod 100)"
  have y: "(if 69 \<le> ?y then ?y + 1900 else ?y + 2000) = int (wc_year c)"
  proof (cases "wc_year c < 2000")
    case True
    with c year_mod [of 19 "wc_year c"] show ?thesis by auto
  next
    case False
    with c year_mod [of 20 "wc_year c"] show ?thesis by auto
  qed
  let ?H = "wc_hour c"
  have hh: "(if \<not> ?H < 12 \<and> ?h12 < 12 then ?h12 + 12 else if \<not> \<not> ?H < 12 \<and> ?h12 = 12 then 0 else ?h12) = ?H"
    using c by (auto simp: mod_if)
  have z: "get_zone ((if wc_zone c < 0 then ''-'' else ''+'') @ two (nat \<bar>wc_zone c\<bar> div 60 div 60)
      @ two (nat \<bar>wc_zone c\<bar> div 60 mod 60)) = Some (wc_zone c, [])"
    using c by (intro zone_read) auto
  have g: "getnum (two (wc_month c) @ v) = Some (wc_month c, v)" "getnum (two (wc_day c) @ v) = Some (wc_day c, v)"
    "getnum (two ?h12 @ v) = Some (?h12, v)" "getnum (two (wc_minute c) @ v) = Some (wc_minute c, v)"
    "getnum (two (wc_second c) @ v) = Some (wc_second c, v)"
    "get_year (two (wc_year c mod 100) @ v) = Some (int (wc_year c mod 100), v)" for v
    using b by (simp_all only: getnum_two get_year_two)
  have tail: "parse_tail ((if ?H < 12 then ''AM'' else ''PM'') @ '' '' @ [CHR 0x27] @ two (wc_year c mod 100)
         @ '' '' @ (if wc_zone c < 0 then ''-'' else ''+'') @ two (nat \<bar>wc_zone c\<bar> div 60 div 60)
         @ two (nat \<bar>wc_zone c\<bar> div 60 mod 60)) = Some (\<not> ?H < 12, int (wc_year c), wc_zone c)"
    using z y by (cases "wc_zone c < 0"; cases "?H < 12") (simp_all add: parse_tail_def cut_space_def g)
  have f: "get_fraction ((if ?H < 12 then ''AM'' else ''PM'') @ v) = (0, (if ?H < 12 then ''AM'' else ''PM'') @ v)" for v
    by (simp add: get_fraction_none)
  have n: "0 < wc_month c" "wc_month c \<le> 12" "wc_minute c < 60" "wc_second c < 60" "1 \<le> wc_day c"
    "wc_day c \<le> days_in (wc_month c) (int (wc_year c))" using c by auto
  have "parse_layout (format_layout c) = Some (instant_of (int (wc_year c)) (wc_month c) (wc_day c)
      (if \<not> ?H < 12 \<and> ?h12 < 12 then ?h12 + 12 else if \<not> \<not> ?H < 12 \<and> ?h12 = 12 then 0 else ?h12)
      (wc_minute c) (wc_second c) 0 (wc_zone c))"
    using parse_front [OF n(1,2) b(2,7) n(3,4) f tail n(5,6)] by (simp only: format_layout_def Let_def append.simps)
  then show ?thesis unfolding hh by (simp add: instant_def)
qed

end
