(* ===== verification/Status.thy ===== *)
theory Status
  imports Cluster Go_Time
begin

text \<open>
  \<open>updateIPSecConnectionStatus\<close> of \<open>ipman_controller.go\<close>: the free addresses of a connection's
  pools and the addresses the webhook has handed out to pods that have not appeared yet. The clock
  is read once (\<open>now\<close>, nanoseconds since the epoch); the answers of the API server are those of
  the record \<open>api\<close>.
\<close>

section \<open>The steps\<close>

definition deadline :: "int \<Rightarrow> int" where
  "deadline t = t + second_ns * ReconcilerPendingIPsTimeoutSeconds"

text \<open>Pools that the child no longer has keep their entry.\<close>

definition fill_child ::
  "(string, (string, string list) gomap) gomap \<Rightarrow> string \<times> child \<Rightarrow> (string, (string, string list) gomap) gomap"
where
  "fill_child free entry = (case entry of (childName, c) \<Rightarrow>
     let old = (case gget free childName of None \<Rightarrow> [] | Some m \<Rightarrow> m)
     in gput childName (foldl (\<lambda>m (poolName, ips). gput poolName (elems ips) m) old (gmap_of (IpPools c))) free)"

definition pods_with_annotation :: "ipsec_conn \<Rightarrow> k8s_pod list \<Rightarrow> k8s_pod list" where
  "pods_with_annotation conn ps = filter (\<lambda>p. list_contains (gkeys (Children (Spec conn)))
     (gstr (Annotations p) AnnotationChildName)) ps"

definition pending_done :: "int \<Rightarrow> k8s_pod list \<Rightarrow> string \<Rightarrow> string \<Rightarrow> bool" where
  "pending_done now ps ip timestamp =
     (case parse_layout timestamp of
        None \<Rightarrow> True
      | Some ts \<Rightarrow> list_ex (\<lambda>p. gstr (Annotations p) AnnotationVxlanIP = ip) ps \<or> now > deadline ts)"

definition remove_taken ::
  "string list \<Rightarrow> string list \<Rightarrow> (string, (string, string list) gomap) gomap
   \<Rightarrow> (string, (string, string list) gomap) gomap"
where
  "remove_taken pendingIps podIpList free = map (\<lambda>(cn, pools). (cn, map (\<lambda>(poolName, ips). (poolName,
     filter (\<lambda>ip. \<not> (list_contains pendingIps ip \<or> list_contains podIpList ip)) ips)) pools)) free"

definition requeue_in :: "int \<Rightarrow> (string, string) gomap \<Rightarrow> int option" where
  "requeue_in now pending =
     (let left = map (\<lambda>v. deadline (case parse_layout v of None \<Rightarrow> 0 | Some t \<Rightarrow> t) - now) (gvals pending)
      in if left = [] then None else Some (Min (set left)))"

text \<open>The last loop only looks whether the restctl pod of a node exists.\<close>

fun check_nodes :: "envs \<Rightarrow> api \<Rightarrow> ipsec_conn \<Rightarrow> int option \<Rightarrow> k8s_node list \<Rightarrow> int option \<times> ctl_error option" where
  "check_nodes env a conn rq [] = (rq, None)"
| "check_nodes env a conn rq (n # ns) =
     (case GetGroup a (Group (Spec conn)) of
        Ok grp \<Rightarrow>
          if gstr (n_Labels n) NodeSelectorHostName = gs_nodeName (g_spec grp) then
            (case GetPod a \<lparr>nsn_name = RestctlPodName @ ''-'' @ n_MachineID n, nsn_namespace = NamespaceName env\<rparr> of
               Err ApiNotFound \<Rightarrow> (rq, None)
             | Err e \<Rightarrow> (None, Some (NoCharonPod e))
             | _ \<Rightarrow> check_nodes env a conn rq ns)
          else check_nodes env a conn rq ns
      | Err e \<Rightarrow> (rq, Some e)
      | Panic \<Rightarrow> check_nodes env a conn rq ns)"

definition updateIPSecConnectionStatus ::
  "envs \<Rightarrow> api \<Rightarrow> int \<Rightarrow> ipsec_conn \<Rightarrow> ipsec_conn \<times> int option \<times> ctl_error option"
where
  "updateIPSecConnectionStatus env a now conn =
     (let children = Children (Spec conn);
          free = gdelete_func (\<lambda>k _. \<not> ghas children k) (gmap_of (FreeIPs (Status conn)));
          free = foldl fill_child free children;
          filled = conn\<lparr>Status := (Status conn)\<lparr>FreeIPs := Some free\<rparr>\<rparr>
      in (case ListPods a of
            Ok ps \<Rightarrow>
              let annotated = pods_with_annotation conn ps;
                  pending = map_option (gdelete_func (pending_done now annotated)) (PendingIPs (Status conn));
                  podIpList = map (\<lambda>p. gstr (Annotations p) AnnotationVxlanIP) annotated;
                  free = remove_taken (gkeys (gmap_of pending)) podIpList free;
                  conn' = conn\<lparr>Status := (Status conn)\<lparr>FreeIPs := Some free, PendingIPs := pending\<rparr>\<rparr>;
                  requeueIn = requeue_in now (gmap_of pending)
              in (case ListNodes a of
                    Ok nodes \<Rightarrow> (conn', check_nodes env a conn requeueIn nodes)
                  | Err e \<Rightarrow> (conn', requeueIn, Some (PlainApiError e))
                  | Panic \<Rightarrow> (conn', requeueIn, None))
          | Err e \<Rightarrow> (filled, None, Some (PlainApiError e))
          | Panic \<Rightarrow> (filled, None, None)))"

section \<open>The fill and the filter\<close>

text \<open>The addresses in use: those of the pods whose child the connection has.\<close>

definition used_ips :: "ipsec_conn \<Rightarrow> k8s_pod list \<Rightarrow> string set" where
  "used_ips conn ps = (\<lambda>p. gstr (Annotations p) AnnotationVxlanIP) ` set (pods_with_annotation conn ps)"

definition free_of :: "ipsec_status \<Rightarrow> string \<Rightarrow> string \<Rightarrow> string list option" where
  "free_of st childName poolName = Option.bind (gget (gmap_of (FreeIPs st)) childName) (\<lambda>m. gget m poolName)"

lemma gget_fill_pools:
  "gok pools \<Longrightarrow> gget (foldl (\<lambda>m (poolName, ips). gput poolName (elems ips) m) m pools) p
     = (case gget pools p of None \<Rightarrow> gget m p | Some ips \<Rightarrow> Some (elems ips))"
proof (induction pools arbitrary: m)
  case (Cons kv pools)
  obtain k v where kv: "kv = (k, v)" by (cases kv)
  from Cons.prems kv have "gok pools" and "gget pools k = None"
    by (auto simp: gok_def gget_None_iff)
  with Cons.IH kv show ?case by (auto simp: gget_put split: option.splits)
qed simp

lemma gget_fill_children:
  "gok children \<Longrightarrow> gget (foldl fill_child free children) c
     = (case gget children c of
          None \<Rightarrow> gget free c
        | Some ch \<Rightarrow> Some (foldl (\<lambda>m (poolName, ips). gput poolName (elems ips) m)
            (case gget free c of None \<Rightarrow> [] | Some m \<Rightarrow> m) (gmap_of (IpPools ch))))"
proof (induction children arbitrary: free)
  case (Cons kv children)
  obtain k v where kv: "kv = (k, v)" by (cases kv)
  from Cons.prems kv have ok: "gok children" and none: "gget children k = None"
    by (auto simp: gok_def gget_None_iff)
  show ?case
    using Cons.IH [OF ok, of "fill_child free kv"] kv none
    by (auto simp: fill_child_def gget_put Let_def split: option.splits)
qed simp

lemma gget_map_values: "gget (map (\<lambda>(k, v). (k, f v)) m) c = map_option f (gget m c)"
  by (induction m) auto

lemma gget_remove_taken:
  "gget (remove_taken pend used free) c = map_option (map (\<lambda>(p, ips). (p, filter (\<lambda>ip. ip \<notin> set pend \<and> ip \<notin> set used) ips)))
     (gget free c)"
  unfolding remove_taken_def by (subst gget_map_values) simp

lemma status_step:
  assumes "ListPods a = Ok ps" and "updateIPSecConnectionStatus env a now conn = (conn', rq, err)"
  shows "PendingIPs (Status conn') = map_option (gdelete_func (pending_done now (pods_with_annotation conn ps))) (PendingIPs (Status conn))"
    and "FreeIPs (Status conn') = Some (remove_taken (gkeys (gmap_of (PendingIPs (Status conn'))))
      (map (\<lambda>p. gstr (Annotations p) AnnotationVxlanIP) (pods_with_annotation conn ps))
      (foldl fill_child (gdelete_func (\<lambda>k _. \<not> ghas (Children (Spec conn)) k) (gmap_of (FreeIPs (Status conn))))
        (Children (Spec conn))))"
    and "Spec conn' = Spec conn" and "cn_Name conn' = cn_Name conn"
  using assms by (auto simp: updateIPSecConnectionStatus_def Let_def split: outcome.splits)

lemma free_after:
  assumes "ListPods a = Ok ps" "updateIPSecConnectionStatus env a now conn = (conn', rq, err)"
    and ok: "spec_ok (Spec conn)" "gok (gmap_of (FreeIPs (Status conn)))"
    and c: "gget (Children (Spec conn)) c = Some ch"
  shows "free_of (Status conn') c p = map_option (filter (\<lambda>ip.
      ip \<notin> fst ` set (gmap_of (PendingIPs (Status conn'))) \<and> ip \<notin> used_ips conn ps))
      (case gget (gmap_of (IpPools ch)) p of Some ips \<Rightarrow> Some (elems ips) | None \<Rightarrow> free_of (Status conn) c p)"
proof -
  note st = status_step [OF assms(1,2)]
  have gp: "gok (gmap_of (IpPools ch))"
    using ok(1) c by (auto simp: spec_ok_def child_ok_def gget_Some_iff)
  have gc: "gok (Children (Spec conn))" using ok(1) by (simp add: spec_ok_def)
  have kept: "gget (gdelete_func (\<lambda>k _. \<not> ghas (Children (Spec conn)) k) (gmap_of (FreeIPs (Status conn)))) c
      = gget (gmap_of (FreeIPs (Status conn))) c"
    using c by (simp add: gget_delete_func [OF ok(2)] ghas_def split: option.split)
  let ?old = "case gget (gmap_of (FreeIPs (Status conn))) c of None \<Rightarrow> [] | Some m \<Rightarrow> m"
  have "free_of (Status conn') c p = map_option (filter (\<lambda>ip.
      ip \<notin> fst ` set (gmap_of (PendingIPs (Status conn'))) \<and> ip \<notin> used_ips conn ps))
      (gget (foldl (\<lambda>m (poolName, ips). gput poolName (elems ips) m) ?old (gmap_of (IpPools ch))) p)"
    by (simp add: free_of_def st(2) gget_remove_taken gget_fill_children [OF gc] c kept gget_map_values used_ips_def)
  then show ?thesis
    by (auto simp: gget_fill_pools [OF gp] free_of_def split: option.split)
qed

lemma pending_ips:
  assumes "ListPods a = Ok ps" and "updateIPSecConnectionStatus env a now conn = (conn', rq, err)"
    and "gok (gmap_of (PendingIPs (Status conn)))"
  shows "gget (gmap_of (PendingIPs (Status conn'))) ip = Some ts \<longleftrightarrow>
    gget (gmap_of (PendingIPs (Status conn))) ip = Some ts
    \<and> (\<exists>t. parse_layout ts = Some t \<and> now \<le> t + 35 * second_ns) \<and> ip \<notin> used_ips conn ps"
proof -
  have "gmap_of (PendingIPs (Status conn')) = gdelete_func (pending_done now (pods_with_annotation conn ps))
      (gmap_of (PendingIPs (Status conn)))"
    using status_step(1) [OF assms(1,2)] by (cases "PendingIPs (Status conn)") (simp_all add: gdelete_func_def)
  then show ?thesis
    by (auto simp: gget_delete_func [OF assms(3)] pending_done_def used_ips_def deadline_def
        ReconcilerPendingIPsTimeoutSeconds_def list_ex_iff not_less mult.commute split: option.splits)
qed

text \<open>The requeue delay.\<close>

lemma check_nodes_requeue: "snd (check_nodes env a conn rq ns) = None \<Longrightarrow> fst (check_nodes env a conn rq ns) = rq"
  by (induction ns) (auto split: outcome.splits api_error.splits if_splits)

lemma status_requeue:
  assumes "ListPods a = Ok ps" "updateIPSecConnectionStatus env a now conn = (conn', rq, None)"
  shows "rq = requeue_in now (gmap_of (PendingIPs (Status conn')))"
  using assms check_nodes_requeue [of env a conn]
  by (auto simp: updateIPSecConnectionStatus_def Let_def split: outcome.splits)
    (metis fst_conv snd_conv)

text \<open>Two children share a pool name; one address is pending, one is taken by a pod.\<close>

definition pool_conn :: ipsec_conn where
  "pool_conn = two_children\<lparr>Spec := (Spec two_children)\<lparr>Children :=
       [(''a'', zero_child\<lparr>c_Name := ''a'', IpPools := Some [(''p'', Some [''10.0.0.1'', ''10.0.0.2'', ''10.0.0.3''])]\<rparr>)]\<rparr>,
     Status := zero_status\<lparr>FreeIPs := Some [(''gone'', [(''p'', [''9.9.9.9''])]), (''a'', [(''old'', [''10.0.0.2'', ''10.0.0.9''])])],
       PendingIPs := Some [(''10.0.0.2'', ''01/02 03:04:05PM '' @ [CHR 0x27] @ ''06 +0000''), (''10.0.0.3'', ''nonsense'')]\<rparr>\<rparr>"

definition pool_pod :: k8s_pod where
  "pool_pod = zero_pod\<lparr>Annotations := [(AnnotationChildName, ''a''), (AnnotationVxlanIP, ''10.0.0.1'')]\<rparr>"

definition pool_api :: api where
  "pool_api = quiet_api\<lparr>ListPods := Ok [pool_pod]\<rparr>"

lemma pool_update:
  obtains conn' rq err where "updateIPSecConnectionStatus sample_envs pool_api 0 pool_conn = (conn', rq, err)"
  by (cases "updateIPSecConnectionStatus sample_envs pool_api 0 pool_conn")

lemma pool_facts:
  "ListPods pool_api = Ok [pool_pod]" "spec_ok (Spec pool_conn)" "gok (gmap_of (FreeIPs (Status pool_conn)))"
  "gok (gmap_of (PendingIPs (Status pool_conn)))" "used_ips pool_conn [pool_pod] = {''10.0.0.1''}"
  by (simp_all add: pool_api_def pool_conn_def two_children_def spec_ok_def child_ok_def gok_def zero_child_def
      used_ips_def pods_with_annotation_def pool_pod_def gstr_def AnnotationChildName_def AnnotationVxlanIP_def)

section \<open>Properties\<close>

text \<open>
  C21. The free addresses of a connection: after \<open>updateIPSecConnectionStatus\<close> has listed the pods,
  the status has, for every pool of every child, the pool's addresses in their order without those
  that are still pending and those of the pods of the connection's children; and it has nothing
  for a child that the specification does not have.
\<close>

theorem free_ips_correct:
  assumes "ListPods a = Ok ps" and "updateIPSecConnectionStatus env a now conn = (conn', rq, err)"
    and "spec_ok (Spec conn)" "gok (gmap_of (FreeIPs (Status conn)))"
  shows "(\<forall>c ch p ips. gget (Children (Spec conn)) c = Some ch \<and> gget (gmap_of (IpPools ch)) p = Some ips \<longrightarrow>
      free_of (Status conn') c p = Some (filter (\<lambda>ip.
        ip \<notin> fst ` set (gmap_of (PendingIPs (Status conn'))) \<and> ip \<notin> used_ips conn ps) (elems ips)))
    \<and> (\<forall>c. gget (Children (Spec conn)) c = None \<longrightarrow> gget (gmap_of (FreeIPs (Status conn'))) c = None)"
proof -
  note st = status_step [OF assms(1,2)]
  have gc: "gok (Children (Spec conn))" using assms(3) by (simp add: spec_ok_def)
  have "gget (gmap_of (FreeIPs (Status conn'))) c = None" if "gget (Children (Spec conn)) c = None" for c
    using that by (simp add: st(2) gget_remove_taken gget_fill_children [OF gc] gget_delete_func [OF assms(4)]
        ghas_def split: option.split)
  then show ?thesis using free_after [OF assms] by simp
qed

theorem free_ips_correct_witness:
  "\<exists>ips. free_of (Status (fst (updateIPSecConnectionStatus sample_envs pool_api 0 pool_conn))) ''a'' ''p'' = Some ips
     \<and> ''10.0.0.1'' \<notin> set ips
   \<and> gget (gmap_of (FreeIPs (Status (fst (updateIPSecConnectionStatus sample_envs pool_api 0 pool_conn))))) ''gone'' = None"
proof -
  obtain conn' rq err where u: "updateIPSecConnectionStatus sample_envs pool_api 0 pool_conn = (conn', rq, err)"
    by (rule pool_update)
  have c: "gget (Children (Spec pool_conn)) ''a'' = Some (zero_child\<lparr>c_Name := ''a'',
      IpPools := Some [(''p'', Some [''10.0.0.1'', ''10.0.0.2'', ''10.0.0.3''])]\<rparr>)"
    "gget (Children (Spec pool_conn)) ''gone'' = None"
    by (simp_all add: pool_conn_def two_children_def)
  note fr = free_ips_correct [OF pool_facts(1) u pool_facts(2,3)]
  from fr [THEN conjunct1, rule_format, OF conjI, OF c(1), of "''p''"]
    fr [THEN conjunct2, rule_format, OF c(2)] show ?thesis
    by (auto simp: u pool_facts(5))
qed

text \<open>
  C22. A pending address is kept exactly as long as it is needed: after the update the pending
  addresses are those whose timestamp can be read, whose deadline of 35 seconds has not passed and
  which no pod of the connection's children carries yet, with their timestamps unchanged.
\<close>

theorem pending_ips_correct:
  assumes "ListPods a = Ok ps" and "updateIPSecConnectionStatus env a now conn = (conn', rq, err)"
    and "gok (gmap_of (PendingIPs (Status conn)))"
  shows "gget (gmap_of (PendingIPs (Status conn'))) ip = Some ts \<longleftrightarrow>
    gget (gmap_of (PendingIPs (Status conn))) ip = Some ts
    \<and> (\<exists>t. parse_layout ts = Some t \<and> now \<le> t + 35 * second_ns) \<and> ip \<notin> used_ips conn ps"
  using assms by (rule pending_ips)

theorem pending_ips_correct_witness:
  "gget (gmap_of (PendingIPs (Status (fst (updateIPSecConnectionStatus sample_envs pool_api 0 pool_conn))))) ''10.0.0.3'' = None"
proof -
  obtain conn' rq err where u: "updateIPSecConnectionStatus sample_envs pool_api 0 pool_conn = (conn', rq, err)"
    by (rule pool_update)
  have "parse_layout ''nonsense'' = None" by code_simp
  then have "gget (gmap_of (PendingIPs (Status conn'))) ''10.0.0.3'' \<noteq> Some ts" for ts
    using pending_ips_correct [OF pool_facts(1) u pool_facts(4), of "''10.0.0.3''" ts]
    by (auto simp: pool_conn_def)
  then have "gget (gmap_of (PendingIPs (Status conn'))) ''10.0.0.3'' = None"
    by (cases "gget (gmap_of (PendingIPs (Status conn'))) ''10.0.0.3''") auto
  then show ?thesis by (simp add: u)
qed

text \<open>
  C23. The connection is looked at again in time: without an error the delay is absent exactly when
  no address is pending, and otherwise it is the time to the earliest deadline of a pending
  address, which lies between now and 35 seconds after the latest timestamp.
\<close>

theorem requeue_in_time:
  assumes "ListPods a = Ok ps" and "updateIPSecConnectionStatus env a now conn = (conn', rq, None)"
    and "gok (gmap_of (PendingIPs (Status conn)))"
  shows "case rq of
      None \<Rightarrow> gmap_of (PendingIPs (Status conn')) = []
    | Some d \<Rightarrow> 0 \<le> d
        \<and> (\<exists>ip ts t. gget (gmap_of (PendingIPs (Status conn'))) ip = Some ts \<and> parse_layout ts = Some t
             \<and> d = t + 35 * second_ns - now)
        \<and> (\<forall>ip ts t. gget (gmap_of (PendingIPs (Status conn'))) ip = Some ts \<and> parse_layout ts = Some t
             \<longrightarrow> d \<le> t + 35 * second_ns - now)"
proof -
  let ?pend = "gmap_of (PendingIPs (Status conn'))"
  note st = status_requeue [OF assms(1,2)] and pend = pending_ips [OF assms]
  have ok: "gok ?pend"
    using status_step(1) [OF assms(1,2)] assms(3) by (cases "PendingIPs (Status conn)") auto
  let ?left = "map (\<lambda>v. deadline (case parse_layout v of None \<Rightarrow> 0 | Some t \<Rightarrow> t) - now) (gvals ?pend)"
  have left: "x \<in> set ?left \<longleftrightarrow> (\<exists>ip ts t. gget ?pend ip = Some ts \<and> parse_layout ts = Some t \<and> x = t + 35 * second_ns - now)" for x
  proof
    assume "x \<in> set ?left"
    then obtain ip ts where k: "(ip, ts) \<in> set ?pend" "x = deadline (case parse_layout ts of None \<Rightarrow> 0 | Some t \<Rightarrow> t) - now"
      by auto
    then have g: "gget ?pend ip = Some ts" using ok by (simp add: gget_Some_iff)
    with pend [of ip ts] obtain t where "parse_layout ts = Some t" by blast
    with g k show "\<exists>ip ts t. gget ?pend ip = Some ts \<and> parse_layout ts = Some t \<and> x = t + 35 * second_ns - now"
      by (auto simp: deadline_def ReconcilerPendingIPsTimeoutSeconds_def)
  next
    assume "\<exists>ip ts t. gget ?pend ip = Some ts \<and> parse_layout ts = Some t \<and> x = t + 35 * second_ns - now"
    then obtain ip ts t where k: "(ip, ts) \<in> set ?pend" "parse_layout ts = Some t" "x = t + 35 * second_ns - now"
      using ok by (auto simp: gget_Some_iff)
    from k(1) have "ts \<in> set (gvals ?pend)" by force
    with k(2,3) show "x \<in> set ?left"
      by (auto simp: deadline_def ReconcilerPendingIPsTimeoutSeconds_def intro!: rev_image_eqI)
  qed
  show ?thesis
  proof (cases rq)
    case None
    with st show ?thesis by (simp add: requeue_in_def Let_def split: if_splits)
  next
    case (Some d)
    with st have ne: "set ?left \<noteq> {}" and d: "d = Min (set ?left)"
      by (simp_all add: requeue_in_def Let_def split: if_splits)
    have mem: "d \<in> set ?left" unfolding d by (rule Min_in) (use ne in auto)
    have least: "d \<le> x" if "x \<in> set ?left" for x unfolding d by (rule Min_le) (use that in auto)
    from mem [unfolded left] obtain ip ts t where k: "gget ?pend ip = Some ts" "parse_layout ts = Some t"
      "d = t + 35 * second_ns - now" by blast
    have "d \<le> t + 35 * second_ns - now" if "gget ?pend ip = Some ts" "parse_layout ts = Some t" for ip ts t
      using that by (intro least, unfold left) blast
    moreover have "0 \<le> d" using pend [of ip ts] k by auto
    ultimately show ?thesis using k Some by auto
  qed
qed

theorem requeue_in_time_witness:
  "\<exists>d. fst (snd (updateIPSecConnectionStatus sample_envs pool_api 0 pool_conn)) = Some d \<and> 0 \<le> d"
proof -
  obtain conn' rq err where u: "updateIPSecConnectionStatus sample_envs pool_api 0 pool_conn = (conn', rq, err)"
    by (rule pool_update)
  have e: "err = None"
    using u by (auto simp: updateIPSecConnectionStatus_def pool_api_def quiet_api_def Let_def)
  have "parse_layout (''01/02 03:04:05PM '' @ [CHR 0x27] @ ''06 +0000'') = Some 1136214245000000000" by code_simp
  moreover have "gget (gmap_of (PendingIPs (Status pool_conn))) ''10.0.0.2''
      = Some (''01/02 03:04:05PM '' @ [CHR 0x27] @ ''06 +0000'')"
    by (simp add: pool_conn_def)
  ultimately have "gget (gmap_of (PendingIPs (Status conn'))) ''10.0.0.2''
      = Some (''01/02 03:04:05PM '' @ [CHR 0x27] @ ''06 +0000'')"
    using pending_ips [OF pool_facts(1) u pool_facts(4)] by (simp add: pool_facts(5) second_ns_def)
  then have "gmap_of (PendingIPs (Status conn')) \<noteq> []" by auto
  with requeue_in_time [OF pool_facts(1) u [unfolded e] pool_facts(4)] show ?thesis
    by (auto simp: u split: option.splits)
qed

end
