(* ===== verification/Actions.thy ===== *)
theory Actions
  imports Cluster "HOL-Library.Multiset"
begin

text \<open>
  The actions of the reconciler (\<open>internal/controller/actions.go\<close>) as data, and what the route
  actions do to the routes recorded in the annotation of an xfrm pod: the part of their \<open>Do\<close>
  methods between reading the annotation and writing it back.
\<close>

datatype any_pod =
    AnyCharon charon_pod
  | AnyRestctl restctl_pod
  | AnyXfrm xfrm_pod

datatype action =
    DeleteMonitorAction
  | CreateMonitorAction
  | CreatePodAction any_pod
  | DeletePodAction any_pod
  | AddRemoteRouteAction string xfrm_pod
  | DeleteRemoteRouteAction string xfrm_pod
  | AddLocalRouteAction string xfrm_pod
  | DeleteLocalRouteAction string xfrm_pod
  | AddBridgeFDBAction string string xfrm_pod  \<comment> \<open>VXLAN address, underlying address\<close>
  | DeleteBridgeFDBAction string string xfrm_pod
  | OverrideConfigAction string "ipsec_conn list"
  | RestartConnectionAction string string
  | RestartChildConnectionAction string string string  \<comment> \<open>connection, child, restctl address\<close>
  | UpdateChildConnectionStatus string

fun route_step :: "action \<Rightarrow> routes \<Rightarrow> routes" where
  "route_step (AddRemoteRouteAction r _) rs
     = rs\<lparr>Remote := slice_sort (slice_append (Remote rs) r)\<rparr>"
| "route_step (DeleteRemoteRouteAction r _) rs
     = rs\<lparr>Remote := slice_sort (slice_delete_func (\<lambda>x. x = r) (Remote rs))\<rparr>"
| "route_step (AddLocalRouteAction r _) rs
     = rs\<lparr>Local := slice_sort (slice_append (Local rs) r)\<rparr>"
| "route_step (DeleteLocalRouteAction r _) rs
     = rs\<lparr>Local := slice_sort (slice_delete_func (\<lambda>x. x = r) (Local rs))\<rparr>"
| "route_step (AddBridgeFDBAction v u _) rs
     = rs\<lparr>BridgeFDB := Some (gput v u (gmap_of (BridgeFDB rs)))\<rparr>"
| "route_step (DeleteBridgeFDBAction v u _) rs
     = rs\<lparr>BridgeFDB := Some (gdel v (gmap_of (BridgeFDB rs)))\<rparr>"
| "route_step _ rs = rs"

definition run_routes :: "action list \<Rightarrow> routes \<Rightarrow> routes" where
  "run_routes acts rs = foldl (\<lambda>rs act. route_step act rs) rs acts"

lemma run_routes_simps [simp]:
  "run_routes [] rs = rs"
  "run_routes (a # acts) rs = run_routes acts (route_step a rs)"
  "run_routes (xs @ ys) rs = run_routes ys (run_routes xs rs)"
  by (simp_all add: run_routes_def)

text \<open>
  Local and remote routes are handled by two copies of the same code. This interface is what the
  common argument needs: the two actions act on one list of the routes and on nothing else.
\<close>

locale route_kind =
  fixes add del :: "string \<Rightarrow> xfrm_pod \<Rightarrow> action"
    and sel :: "routes \<Rightarrow> string slice"
    and rest :: "routes \<Rightarrow> 'r"
  assumes sel_add: "sel (route_step (add r p) rs) = slice_sort (slice_append (sel rs) r)"
    and sel_del: "sel (route_step (del r p) rs) = slice_sort (slice_delete_func (\<lambda>x. x = r) (sel rs))"
    and rest_add: "rest (route_step (add r p) rs) = rest rs"
    and rest_del: "rest (route_step (del r p) rs) = rest rs"
begin

lemma set_add: "set (elems (sel (route_step (add r p) rs))) = insert r (set (elems (sel rs)))"
  by (simp add: sel_add)

lemma set_del: "set (elems (sel (route_step (del r p) rs))) = set (elems (sel rs)) - {r}"
  by (auto simp: sel_del)

lemma distinct_add:
  "distinct (elems (sel rs)) \<Longrightarrow> r \<notin> set (elems (sel rs)) \<Longrightarrow> distinct (elems (sel (route_step (add r p) rs)))"
  by (simp add: sel_add)

lemma distinct_del:
  "distinct (elems (sel rs)) \<Longrightarrow> distinct (elems (sel (route_step (del r p) rs)))"
  by (simp add: sel_del)

end

interpretation local_kind: route_kind AddLocalRouteAction DeleteLocalRouteAction Local
    "\<lambda>rs. (Remote rs, BridgeFDB rs)"
  by unfold_locales simp_all

interpretation remote_kind: route_kind AddRemoteRouteAction DeleteRemoteRouteAction Remote
    "\<lambda>rs. (Local rs, BridgeFDB rs)"
  by unfold_locales simp_all

end
