(* ===== verification/Server.thy ===== *)
theory Server
  imports Actions
begin

text \<open>
  What the controller talks to: the Kubernetes API server and the HTTP servers in the restctl and
  xfrm pods. Both are outside the repository, so they are a parameter, a record of functions on a
  state of any type \<open>'w\<close>: each call returns the answer and the next state. A computation that
  makes such calls is a function on \<open>'w\<close> (\<open>io\<close>); \<open>None\<close> is one that never returns.

  At the end: the interface \<open>pod_store\<close>, the two laws of reading a pod after writing one that the
  proofs use, and \<open>map_server\<close>, an API server over plain maps, for which they hold.
\<close>

section \<open>Computations with calls\<close>

type_synonym ('w, 'e, 'a) io = "'w \<Rightarrow> (('e, 'a) outcome \<times> 'w) option"

definition ret :: "'a \<Rightarrow> ('w, 'e, 'a) io" where
  "ret v = (\<lambda>w. Some (Ok v, w))"

definition fail :: "'e \<Rightarrow> ('w, 'e, 'a) io" where
  "fail e = (\<lambda>w. Some (Err e, w))"

definition crash :: "('w, 'e, 'a) io" where
  "crash = (\<lambda>w. Some (Panic, w))"

definition bnd :: "('w, 'e, 'a) io \<Rightarrow> ('a \<Rightarrow> ('w, 'e, 'b) io) \<Rightarrow> ('w, 'e, 'b) io" where
  "bnd m f = (\<lambda>w. case m w of
      None \<Rightarrow> None
    | Some (Ok v, w') \<Rightarrow> f v w'
    | Some (Err e, w') \<Rightarrow> Some (Err e, w')
    | Some (Panic, w') \<Rightarrow> Some (Panic, w'))"

definition from_outcome :: "('e, 'a) outcome \<Rightarrow> ('w, 'e, 'a) io" where
  "from_outcome r = (\<lambda>w. Some (r, w))"

text \<open>A call whose error is returned, wrapped by \<open>f\<close>, and one whose error is a value.\<close>

fun map_err :: "('e \<Rightarrow> 'f) \<Rightarrow> ('e, 'a) outcome \<Rightarrow> ('f, 'a) outcome" where
  "map_err f (Ok v) = Ok v"
| "map_err f (Err e) = Err (f e)"
| "map_err f Panic = Panic"

fun as_value :: "('e, 'a) outcome \<Rightarrow> ('f, 'e + 'a) outcome" where
  "as_value (Ok v) = Ok (Inr v)"
| "as_value (Err e) = Ok (Inl e)"
| "as_value Panic = Panic"

definition call :: "('e \<Rightarrow> 'f) \<Rightarrow> ('w \<Rightarrow> ('e, 'a) outcome \<times> 'w) \<Rightarrow> ('w, 'f, 'a) io" where
  "call f c = (\<lambda>w. case c w of (r, w') \<Rightarrow> Some (map_err f r, w'))"

definition attempt :: "('w \<Rightarrow> ('e, 'a) outcome \<times> 'w) \<Rightarrow> ('w, 'f, 'e + 'a) io" where
  "attempt c = (\<lambda>w. case c w of (r, w') \<Rightarrow> Some (as_value r, w'))"

text \<open>A computation whose error the caller drops.\<close>

definition ignore_err :: "('w, 'e, 'a) io \<Rightarrow> ('w, 'f, unit) io" where
  "ignore_err m = (\<lambda>w. case m w of
      None \<Rightarrow> None
    | Some (Panic, w') \<Rightarrow> Some (Panic, w')
    | Some (_, w') \<Rightarrow> Some (Ok (), w'))"

lemma io_simps [simp]:
  "bnd (ret v) f w = f v w" "bnd (fail e) f w = Some (Err e, w)" "bnd crash f w = Some (Panic, w)"
  "ret v w = Some (Ok v, w)" "fail e w = Some (Err e, w)" "crash w = Some (Panic, w)"
  "bnd (from_outcome r) f w = (case r of Ok v \<Rightarrow> f v w | Err e \<Rightarrow> Some (Err e, w) | Panic \<Rightarrow> Some (Panic, w))"
  by (simp_all add: bnd_def ret_def fail_def crash_def from_outcome_def split: outcome.split)

lemma bnd_call:
  "c w = (Ok v, w') \<Longrightarrow> bnd (call f c) g w = g v w'"
  "c w = (Err e, w') \<Longrightarrow> bnd (call f c) g w = Some (Err (f e), w')"
  by (simp_all add: bnd_def call_def)

lemma bnd_attempt:
  "c w = (Ok v, w') \<Longrightarrow> bnd (attempt c) g w = g (Inr v) w'"
  "c w = (Err e, w') \<Longrightarrow> bnd (attempt c) g w = g (Inl e) w'"
  by (simp_all add: bnd_def attempt_def)

lemma bnd_Some: "m w = Some (Ok v, w') \<Longrightarrow> bnd m f w = f v w'"
  by (simp add: bnd_def)

text \<open>Running a list of computations in order, to the first failure.\<close>

fun in_order :: "('a \<Rightarrow> ('w, 'e, unit) io) \<Rightarrow> 'a list \<Rightarrow> ('w, 'e, unit) io" where
  "in_order f [] = ret ()"
| "in_order f (x # xs) = bnd (f x) (\<lambda>_. in_order f xs)"

section \<open>The calls\<close>

datatype post_request =
    RemoteRouteRequest string
  | LocalRouteRequest string
  | BridgeFdbRequest string
  | ReloadData "conn_data list"
  | RestartConnectionRequest string
  | RestartConnectionChildRequest string string
  | SetupVxlanRequest string string int  \<comment> \<open>xfrm address, VXLAN address, interface id\<close>

text \<open>A response; \<open>None\<close> as body is one that cannot be read.\<close>

record http_reply =
  StatusCode :: int
  Body :: "string option"

text \<open>The body of a request as a handler reads it: unreadable, not the JSON expected, or parsed.\<close>

datatype 'a body = Unreadable | NotJson | Parsed 'a

record xfrm_job =
  jb_Name :: string
  jb_Namespace :: string
  jb_TTL :: "32 word option"
  jb_NodeName :: string
  jb_SocketPath :: string
  jb_Image :: string
  jb_PullPolicy :: string
  TARGET_PID :: string
  XFRM_ID :: string
  INTERFACE_NAME :: string
  jb_Active :: int
  jb_Succeeded :: int
  jb_Failed :: int
  jb_Completed :: bool

record 'w server =
  sv_get_pod :: "nsn \<Rightarrow> 'w \<Rightarrow> (api_error, k8s_pod) outcome \<times> 'w"
  sv_list_pods :: "'w \<Rightarrow> (api_error, k8s_pod list) outcome \<times> 'w"
  sv_create_pod :: "k8s_pod \<Rightarrow> 'w \<Rightarrow> (api_error, unit) outcome \<times> 'w"
  sv_update_pod :: "k8s_pod \<Rightarrow> 'w \<Rightarrow> (api_error, unit) outcome \<times> 'w"
  sv_delete_pod :: "k8s_pod \<Rightarrow> 'w \<Rightarrow> (api_error, unit) outcome \<times> 'w"
  sv_get_conn :: "string \<Rightarrow> 'w \<Rightarrow> (api_error, ipsec_conn) outcome \<times> 'w"
  sv_list_conns :: "'w \<Rightarrow> (api_error, ipsec_conn list) outcome \<times> 'w"
  sv_update_status :: "ipsec_conn \<Rightarrow> 'w \<Rightarrow> (api_error, unit) outcome \<times> 'w"
  sv_get_group :: "nsn \<Rightarrow> 'w \<Rightarrow> (api_error, charon_group) outcome \<times> 'w"
  sv_list_groups :: "'w \<Rightarrow> (api_error, charon_group list) outcome \<times> 'w"
  sv_get_secret :: "nsn \<Rightarrow> 'w \<Rightarrow> (api_error, (string, string) gomap) outcome \<times> 'w"
  sv_create_monitor :: "string \<Rightarrow> 'w \<Rightarrow> (api_error, unit) outcome \<times> 'w"
  sv_delete_monitor :: "string \<Rightarrow> 'w \<Rightarrow> (api_error, unit) outcome \<times> 'w"
  sv_get_job :: "nsn \<Rightarrow> 'w \<Rightarrow> (api_error, xfrm_job) outcome \<times> 'w"
  sv_create_job :: "xfrm_job \<Rightarrow> 'w \<Rightarrow> (api_error, unit) outcome \<times> 'w"
  sv_delete_job :: "xfrm_job \<Rightarrow> 'w \<Rightarrow> (api_error, unit) outcome \<times> 'w"
  sv_http_get :: "string \<Rightarrow> 'w \<Rightarrow> (unit, http_reply) outcome \<times> 'w"
  sv_post :: "string \<Rightarrow> post_request \<Rightarrow> 'w \<Rightarrow> (unit, http_reply) outcome \<times> 'w"

section \<open>Reading after writing\<close>

definition pod_nsn :: "k8s_pod \<Rightarrow> nsn" where
  "pod_nsn p = \<lparr>nsn_name = p_Name p, nsn_namespace = p_Namespace p\<rparr>"

definition conn_key :: "ipsec_conn \<Rightarrow> string" where
  "conn_key c = cn_Name c"

text \<open>
  A store of objects with a key: a get answers and changes nothing, and an update of an object
  that exists is what the next get of that key answers. Pods and connections are such stores.
\<close>

locale kube_store =
  fixes key_of :: "'o \<Rightarrow> 'k"
    and get :: "'k \<Rightarrow> 'w \<Rightarrow> (api_error, 'o) outcome \<times> 'w"
    and update :: "'o \<Rightarrow> 'w \<Rightarrow> (api_error, unit) outcome \<times> 'w"
    and obj :: "'k \<Rightarrow> 'w \<Rightarrow> 'o option"
  assumes get: "get k w = (case obj k w of None \<Rightarrow> Err ApiNotFound | Some p \<Rightarrow> Ok p, w)"
    and update: "obj (key_of p) w = Some q \<Longrightarrow> \<exists>w'. update p w = (Ok (), w')
          \<and> (\<forall>k. obj k w' = (if k = key_of p then Some p else obj k w))"
begin

lemma get_Some: "obj k w = Some p \<Longrightarrow> get k w = (Ok p, w)"
  by (simp add: get)

lemma get_None: "obj k w = None \<Longrightarrow> get k w = (Err ApiNotFound, w)"
  by (simp add: get)

lemma bnd_get: "obj k w = Some p \<Longrightarrow> bnd (call f (get k)) g w = g p w"
  by (simp add: bnd_call get_Some)

lemma bnd_update:
  assumes "obj (key_of p) w = Some q"
  obtains w' where "\<And>g :: unit \<Rightarrow> ('w, 'e, 'b) io. bnd (call f (update p)) g w = g () w'"
    and "obj (key_of p) w' = Some p" and "\<And>k. k \<noteq> key_of p \<Longrightarrow> obj k w' = obj k w"
  using update [OF assms] by (metis bnd_call(1))

end

text \<open>An API server over maps; the HTTP servers answer every request with status 200.\<close>

record store =
  st_Pods :: "(nsn, k8s_pod) gomap"
  st_Conns :: "(string, ipsec_conn) gomap"
  st_Groups :: "charon_group list"
  st_Secrets :: "(nsn, (string, string) gomap) gomap"
  st_Jobs :: "(nsn, xfrm_job) gomap"
  st_Posts :: "(string \<times> post_request) list"

definition lookup_or :: "api_error \<Rightarrow> 'v option \<Rightarrow> (api_error, 'v) outcome" where
  "lookup_or e m = (case m of None \<Rightarrow> Err e | Some v \<Rightarrow> Ok v)"

definition job_nsn :: "xfrm_job \<Rightarrow> nsn" where
  "job_nsn j = \<lparr>nsn_name = jb_Name j, nsn_namespace = jb_Namespace j\<rparr>"

definition map_server :: "store server" where
  "map_server = \<lparr>
     sv_get_pod = (\<lambda>k w. (lookup_or ApiNotFound (gget (st_Pods w) k), w)),
     sv_list_pods = (\<lambda>w. (Ok (gvals (st_Pods w)), w)),
     sv_create_pod = (\<lambda>p w. if ghas (st_Pods w) (pod_nsn p) then (Err ApiAlreadyExists, w)
        else (Ok (), w\<lparr>st_Pods := gput (pod_nsn p) p (st_Pods w)\<rparr>)),
     sv_update_pod = (\<lambda>p w. if ghas (st_Pods w) (pod_nsn p)
        then (Ok (), w\<lparr>st_Pods := gput (pod_nsn p) p (st_Pods w)\<rparr>) else (Err ApiNotFound, w)),
     sv_delete_pod = (\<lambda>p w. if ghas (st_Pods w) (pod_nsn p)
        then (Ok (), w\<lparr>st_Pods := gdel (pod_nsn p) (st_Pods w)\<rparr>) else (Err ApiNotFound, w)),
     sv_get_conn = (\<lambda>k w. (lookup_or ApiNotFound (gget (st_Conns w) k), w)),
     sv_list_conns = (\<lambda>w. (Ok (gvals (st_Conns w)), w)),
     sv_update_status = (\<lambda>c w. case gget (st_Conns w) (conn_key c) of
          None \<Rightarrow> (Err ApiNotFound, w)
        | Some old \<Rightarrow> (Ok (), w\<lparr>st_Conns := gput (conn_key c) c (st_Conns w)\<rparr>)),
     sv_get_group = (\<lambda>k w. (lookup_or ApiNotFound
        (find (\<lambda>g. CharonGroup_Nsn g = k) (st_Groups w)), w)),
     sv_list_groups = (\<lambda>w. (Ok (st_Groups w), w)),
     sv_get_secret = (\<lambda>k w. (lookup_or ApiNotFound (gget (st_Secrets w) k), w)),
     sv_create_monitor = (\<lambda>_ w. (Ok (), w)),
     sv_delete_monitor = (\<lambda>_ w. (Ok (), w)),
     sv_get_job = (\<lambda>k w. (lookup_or ApiNotFound (gget (st_Jobs w) k), w)),
     sv_create_job = (\<lambda>j w. if ghas (st_Jobs w) (job_nsn j) then (Err ApiAlreadyExists, w)
        else (Ok (), w\<lparr>st_Jobs := gput (job_nsn j) (j\<lparr>jb_Succeeded := 1, jb_Completed := True\<rparr>) (st_Jobs w)\<rparr>)),
     sv_delete_job = (\<lambda>j w. (Ok (), w\<lparr>st_Jobs := gdel (job_nsn j) (st_Jobs w)\<rparr>)),
     sv_http_get = (\<lambda>_ w. (Ok \<lparr>StatusCode = 200, Body = Some ''{\"pid\":7}''\<rparr>, w)),
     sv_post = (\<lambda>url r w. (Ok \<lparr>StatusCode = 200, Body = Some ''{}''\<rparr>,
        w\<lparr>st_Posts := st_Posts w @ [(url, r)]\<rparr>))\<rparr>"

interpretation map_pods: kube_store pod_nsn "sv_get_pod map_server" "sv_update_pod map_server"
    "\<lambda>k w. gget (st_Pods w) k"
  by unfold_locales (auto simp: map_server_def lookup_or_def ghas_def gget_put split: option.splits)

interpretation map_conns: kube_store conn_key "sv_get_conn map_server" "sv_update_status map_server"
    "\<lambda>k w. gget (st_Conns w) k"
  by unfold_locales (auto simp: map_server_def lookup_or_def gget_put split: option.splits)

end
