(* ===== verification/Exec.thy ===== *)
theory Exec
  imports Server
begin

text \<open>
  Carrying actions out: the \<open>Do\<close> methods of \<open>internal/controller/actions.go\<close>, the waiting and
  deleting loops of \<open>generic.go\<close>, \<open>CompleteSetup\<close> and \<open>CompleteDeletion\<close> of the three kinds of
  pods and the job that creates an xfrm interface (\<open>xfrm_pod.go\<close>, \<open>restctl_pod.go\<close>,
  \<open>charon_pod.go\<close>). Logging, events and \<open>time.Sleep\<close> are left out.
\<close>

datatype act_error =
    ApiFailed string api_error     \<comment> \<open>a request to the API server, with the message it is wrapped in\<close>
  | NoSuchGroup string
  | NoPodWithIP
  | HttpError string
  | HttpStatus string int
  | UnreadableBody string
  | BadReply string
  | PhaseTimeout
  | AddressTimeout
  | DeleteTimeout
  | TestMode
  | NoSecret string
  | JobFailed
  | LoadFailed "string list"
  | ConnectionRestartError string string

section \<open>Waiting for a pod (generic.go)\<close>

text \<open>
  The two loops of \<open>waitForPodReady\<close>. A failed get leaves the pod as it was; in the first loop
  and before it a missing pod is not even logged.
\<close>

definition keep_on_error :: "'a \<Rightarrow> (api_error, 'a) outcome \<Rightarrow> 'a" where
  "keep_on_error old r = (case r of Ok p \<Rightarrow> p | _ \<Rightarrow> old)"

function wait_phase ::
  "'w server \<Rightarrow> int \<Rightarrow> nsn \<Rightarrow> int \<Rightarrow> k8s_pod \<Rightarrow> 'w \<Rightarrow> (act_error, k8s_pod) outcome \<times> 'w"
where
  "wait_phase sv timeout n tries pod w =
     (if Phase pod = ''Running'' then (Ok pod, w)
      else if tries > timeout then (Err PhaseTimeout, w)
      else (case sv_get_pod sv n w of (r, w') \<Rightarrow>
        wait_phase sv timeout n (tries + 1) (keep_on_error pod r) w'))"
  by pat_completeness auto
termination by (relation "measure (\<lambda>(sv, timeout, n, tries, pod, w). nat (timeout + 1 - tries))") auto

function wait_address ::
  "'w server \<Rightarrow> int \<Rightarrow> nsn \<Rightarrow> int \<Rightarrow> k8s_pod \<Rightarrow> 'w \<Rightarrow> (act_error, k8s_pod) outcome \<times> 'w"
where
  "wait_address sv timeout n tries pod w =
     (if PodIP pod \<noteq> [] then (Ok pod, w)
      else if tries > timeout then (Err AddressTimeout, w)
      else (case sv_get_pod sv n w of (r, w') \<Rightarrow>
        wait_address sv timeout n (tries + 1) (keep_on_error pod r) w'))"
  by pat_completeness auto
termination by (relation "measure (\<lambda>(sv, timeout, n, tries, pod, w). nat (timeout + 1 - tries))") auto

declare wait_phase.simps [simp del] wait_address.simps [simp del]

definition waitForPodReady ::
  "'w server \<Rightarrow> envs \<Rightarrow> nsn \<Rightarrow> 'w \<Rightarrow> (act_error, k8s_pod) outcome \<times> 'w"
where
  "waitForPodReady sv env n w =
     (case sv_get_pod sv n w of (r, w) \<Rightarrow>
        let pod = keep_on_error zero_pod r;
            tries = (case r of Err e \<Rightarrow> if e \<noteq> ApiNotFound then 2 else 1 | _ \<Rightarrow> 1)
        in if IsTest env then (Ok (pod\<lparr>PodIP := ''10.10.10.10''\<rparr>), w)
           else (case wait_phase sv (WaitForPodTimeoutSeconds env) n tries pod w of
               (Ok pod, w) \<Rightarrow> wait_address sv (WaitForPodTimeoutSeconds env) n 1 pod w
             | (Err e, w) \<Rightarrow> (Err e, w)
             | (Panic, w) \<Rightarrow> (Panic, w)))"

definition wait_ready :: "'w server \<Rightarrow> envs \<Rightarrow> nsn \<Rightarrow> ('w, act_error, k8s_pod) io" where
  "wait_ready sv env n = (\<lambda>w. Some (waitForPodReady sv env n w))"

text \<open>\<open>DeletePod\<close> has no way out of its loop but the one after the last try.\<close>

function delete_tries :: "'w server \<Rightarrow> k8s_pod \<Rightarrow> nat \<Rightarrow> 'w \<Rightarrow> (act_error, unit) outcome \<times> 'w" where
  "delete_tries sv p tries w =
     (if tries > DeletePodMaxRetries then (Err DeleteTimeout, w)
      else (case sv_delete_pod sv p w of (_, w') \<Rightarrow> delete_tries sv p (tries + 1) w'))"
  by pat_completeness auto
termination by (relation "measure (\<lambda>(sv, p, tries, w). DeletePodMaxRetries + 1 - tries)") auto

declare delete_tries.simps [simp del]

definition DeletePod :: "'w server \<Rightarrow> k8s_pod \<Rightarrow> 'w \<Rightarrow> (act_error, unit) outcome \<times> 'w" where
  "DeletePod sv p w = delete_tries sv p 1 w"

section \<open>The job that creates an xfrm interface (xfrm_pod.go)\<close>

definition createXfrmJob :: "envs \<Rightarrow> int \<Rightarrow> int \<Rightarrow> string \<Rightarrow> charon_group \<Rightarrow> xfrm_job" where
  "createXfrmJob env pid ifid connName grp =
     (let interfaceName = (case gs_interfaceName (g_spec grp) of None \<Rightarrow> [] | Some n \<Rightarrow> n)
      in \<lparr>jb_Name = go_join ''-'' [JobNamePrefix, connName, g_name grp],
          jb_Namespace = NamespaceName env,
          jb_TTL = XfrminjectorTTL env,
          jb_NodeName = gs_nodeName (g_spec grp),
          jb_SocketPath = group_socket_path env grp,
          jb_Image = XfrminjectorImage env,
          jb_PullPolicy = XfrminjectorPullPolicy env,
          TARGET_PID = show_int pid,
          XFRM_ID = show_int ifid,
          INTERFACE_NAME = interfaceName,
          jb_Active = 0, jb_Succeeded = 0, jb_Failed = 0, jb_Completed = False\<rparr>)"

definition job_key :: "xfrm_job \<Rightarrow> nsn" where
  "job_key j = \<lparr>nsn_name = jb_Name j, nsn_namespace = jb_Namespace j\<rparr>"

text \<open>
  \<open>waitForJobCompletion\<close>; the first loop of the source runs zero times. The number counts the
  polls that are left of 60.
\<close>

fun poll_job :: "'w server \<Rightarrow> nsn \<Rightarrow> nat \<Rightarrow> xfrm_job \<Rightarrow> ('w, act_error, xfrm_job \<times> nat) io" where
  "poll_job sv n left job =
     (if jb_Succeeded job \<noteq> 1 \<or> \<not> jb_Completed job then
        (case left of 0 \<Rightarrow> ret (job, 0)
         | Suc l \<Rightarrow> bnd (call (ApiFailed []) (sv_get_job sv n)) (\<lambda>job'. poll_job sv n l job'))
      else ret (job, left))"

declare poll_job.simps [simp del]

definition waitForJobCompletion :: "'w server \<Rightarrow> xfrm_job \<Rightarrow> ('w, act_error, unit) io" where
  "waitForJobCompletion sv job = bnd (poll_job sv (job_key job) 60 job) (\<lambda>(job, left).
     if (left = 0 \<and> jb_Active job \<noteq> 0) \<or> jb_Failed job \<noteq> 0 then fail JobFailed else ret ())"

text \<open>The loops that wait for a conflicting job: to finish (30 gets), then to be gone (31).\<close>

fun poll_active :: "'w server \<Rightarrow> nsn \<Rightarrow> nat \<Rightarrow> xfrm_job \<Rightarrow> ('w, act_error, xfrm_job) io" where
  "poll_active sv n 0 job = ret job"
| "poll_active sv n (Suc l) job =
     (if jb_Active job \<noteq> 0
      then bnd (call (ApiFailed ''Get conflicting job while waiting for it to complete'') (sv_get_job sv n))
        (\<lambda>job'. poll_active sv n l job')
      else ret job)"

fun poll_gone :: "'w server \<Rightarrow> nsn \<Rightarrow> nat \<Rightarrow> ('w, act_error, unit) io" where
  "poll_gone sv n 0 = ret ()"
| "poll_gone sv n (Suc l) = bnd (attempt (sv_get_job sv n)) (\<lambda>r. case r of
      Inl ApiNotFound \<Rightarrow> ret ()
    | Inl e \<Rightarrow> fail (ApiFailed ''Get conflicting job while waiting for delete'' e)
    | Inr _ \<Rightarrow> poll_gone sv n l)"

definition replace_job :: "'w server \<Rightarrow> xfrm_job \<Rightarrow> ('w, act_error, unit) io" where
  "replace_job sv job =
     bnd (call (ApiFailed ''Getting conflicting job'') (sv_get_job sv (job_key job))) (\<lambda>existing.
     bnd (poll_active sv (job_key job) 30 existing) (\<lambda>existing.
     bnd (call (ApiFailed ''Delete conflicting job after it finished'') (sv_delete_job sv existing)) (\<lambda>_.
     bnd (attempt (sv_get_job sv (job_key job))) (\<lambda>r.
     bnd (case r of
            Inl ApiNotFound \<Rightarrow> ret ()
          | Inl e \<Rightarrow> fail (ApiFailed ''Get conflicting job'' e)
          | Inr _ \<Rightarrow> poll_gone sv (job_key job) 31) (\<lambda>_.
     call (ApiFailed ''Create job after deleting conflicting one'') (sv_create_job sv job))))))"

definition create_job :: "'w server \<Rightarrow> xfrm_job \<Rightarrow> ('w, act_error, unit) io" where
  "create_job sv job = bnd (attempt (sv_create_job sv job)) (\<lambda>r. case r of
      Inr _ \<Rightarrow> ret ()
    | Inl ApiAlreadyExists \<Rightarrow> replace_job sv job
    | Inl e \<Rightarrow> fail (ApiFailed ''Error creating job'' e))"

section \<open>Replies\<close>

definition read_body :: "string \<Rightarrow> http_reply \<Rightarrow> ('w, act_error, string) io" where
  "read_body what resp = (case Body resp of None \<Rightarrow> fail (UnreadableBody what) | Some b \<Rightarrow> ret b)"

definition http_get :: "'w server \<Rightarrow> string \<Rightarrow> string \<Rightarrow> ('w, act_error, http_reply) io" where
  "http_get sv what url = call (\<lambda>_. HttpError what) (sv_http_get sv url)"

definition send_post :: "'w server \<Rightarrow> string \<Rightarrow> string \<Rightarrow> post_request \<Rightarrow> ('w, act_error, http_reply) io" where
  "send_post sv what url r = call (\<lambda>_. HttpError what) (sv_post sv url r)"

text \<open>\<open>json.Unmarshal\<close> into the structs of \<open>comms.go\<close>: \<open>None\<close> for an error.\<close>

definition json_str_ok :: "json option \<Rightarrow> bool" where
  "json_str_ok j = (case j of None \<Rightarrow> True | Some JNull \<Rightarrow> True | Some (JStr _) \<Rightarrow> True | _ \<Rightarrow> False)"

definition json_strs_ok :: "json option \<Rightarrow> bool" where
  "json_strs_ok j = (case j of None \<Rightarrow> True | Some JNull \<Rightarrow> True
     | Some (JArr xs) \<Rightarrow> list_all (\<lambda>x. json_str_ok (Some x)) xs | _ \<Rightarrow> False)"

definition dec_pid :: "string \<Rightarrow> int option" where
  "dec_pid s = (case parse_json s of
      Some JNull \<Rightarrow> Some 0
    | Some (JObj kvs) \<Rightarrow>
        if \<not> json_str_ok (jfield (Some (JObj kvs)) ''error'') then None
        else (case jfield (Some (JObj kvs)) ''pid'' of
            None \<Rightarrow> Some 0
          | Some JNull \<Rightarrow> Some 0
          | Some (JNum lit) \<Rightarrow> (case parse_int 64 lit of (i, None) \<Rightarrow> Some i | _ \<Rightarrow> None)
          | _ \<Rightarrow> None)
    | _ \<Rightarrow> None)"

definition dec_load_error :: "string \<Rightarrow> string list option" where
  "dec_load_error s = (case parse_json s of
      Some JNull \<Rightarrow> Some []
    | Some (JObj kvs) \<Rightarrow> let j = Some (JObj kvs) in
        if json_strs_ok (jfield j ''failed_conns'') \<and> json_strs_ok (jfield j ''failed_secrets'')
           \<and> json_strs_ok (jfield j ''error'')
        then Some (elems (dec_slice (jfield j ''error''))) else None
    | _ \<Rightarrow> None)"

section \<open>Setting up and tearing down\<close>


definition pod_url :: "string \<Rightarrow> string \<Rightarrow> string" where
  "pod_url ip path = ''http://'' @ ip @ path"

text \<open>
  \<open>XfrmPodSpec.CompleteSetup\<close>. Its first loop runs until the pod has an address; the pod that
  \<open>waitForPodReady\<close> returns has one, so the loop runs at most once.
\<close>

definition Xfrm_CompleteSetup ::
  "'w server \<Rightarrow> envs \<Rightarrow> xfrm_pod_spec \<Rightarrow> k8s_pod \<Rightarrow> nsn \<Rightarrow> ('w, act_error, unit) io"
where
  "Xfrm_CompleteSetup sv env s pod groupNsn =
     bnd (if PodIP pod = [] then wait_ready sv env (pod_nsn pod) else ret pod) (\<lambda>pod.
     bnd (http_get sv ''Couldn't get xfrm pods PID'' (pod_url (PodIP pod) '':8080/pid'')) (\<lambda>resp.
     if StatusCode resp \<noteq> 200 then fail (HttpStatus ''Couldn't get xfrm pods PID'' (StatusCode resp)) else
     bnd (read_body ''Couldn't read body of response for xfrm PID'' resp) (\<lambda>body.
     case dec_pid body of
       None \<Rightarrow> fail (BadReply ''Couldn't unmarshal response for xfrm PID'')
     | Some pid \<Rightarrow>
     bnd (call (ApiFailed []) (sv_get_group sv groupNsn)) (\<lambda>grp.
     let job = createXfrmJob env pid (uint (InterfaceID (Props s))) (OwnerConnection (Props s)) grp in
     bnd (create_job sv job) (\<lambda>_.
     bnd (waitForJobCompletion sv job) (\<lambda>_.
     bnd (send_post sv ''Couldn't create vxlan interface'' (pod_url (PodIP pod) '':8080/setupVxlan'')
        (SetupVxlanRequest (x_XfrmIP (Props s)) (x_VxlanIP (Props s)) (uint (InterfaceID (Props s))))) (\<lambda>resp.
     if StatusCode resp \<noteq> 200 then fail (HttpStatus ''Couldn't create vxlan interface'' (StatusCode resp)) else
     bnd (call (ApiFailed ''Couldn't get ipsec connection'') (sv_get_conn sv (OwnerConnection (Props s)))) (\<lambda>isc.
     call (ApiFailed []) (sv_update_status sv (isc\<lparr>Status := (Status isc)\<lparr>XfrmGatewayIPs :=
       Some (gput (OwnerChild (Props s)) (PodIP pod) (gmap_of (XfrmGatewayIPs (Status isc))))\<rparr>\<rparr>))))))))))"

definition Restctl_CompleteSetup ::
  "'w server \<Rightarrow> envs \<Rightarrow> restctl_pod_spec \<Rightarrow> k8s_pod \<Rightarrow> nsn \<Rightarrow> ('w, act_error, unit) io"
where
  "Restctl_CompleteSetup sv env s pod groupNsn =
     bnd (call (ApiFailed ''Failed to liset ipsec connections:'') (sv_list_conns sv)) (\<lambda>conns.
     bnd (in_order (\<lambda>c. bnd (call (ApiFailed ''Failed to find secret for connection'')
         (sv_get_secret sv \<lparr>nsn_name = s_Name (SecretRef (Spec c)), nsn_namespace = s_Namespace (SecretRef (Spec c))\<rparr>))
       (\<lambda>_. ret ())) conns) (\<lambda>_.
     bnd (wait_ready sv env (pod_nsn pod)) (\<lambda>_. ret ())))"

definition Charon_CompleteSetup ::
  "'w server \<Rightarrow> envs \<Rightarrow> charon_pod_spec \<Rightarrow> k8s_pod \<Rightarrow> nsn \<Rightarrow> ('w, act_error, unit) io"
where
  "Charon_CompleteSetup sv env s pod groupNsn = ret ()"

text \<open>A nil map of gateway addresses stays nil when a key is deleted from it.\<close>

definition Xfrm_CompleteDeletion :: "'w server \<Rightarrow> xfrm_pod_spec \<Rightarrow> ('w, act_error, unit) io" where
  "Xfrm_CompleteDeletion sv s =
     bnd (call (ApiFailed ''Couldn't get ipsec connection'') (sv_get_conn sv (OwnerConnection (Props s)))) (\<lambda>isc.
     ignore_err (call (ApiFailed []) (sv_update_status sv (isc\<lparr>Status := (Status isc)\<lparr>XfrmGatewayIPs :=
       map_option (gdel (OwnerChild (Props s))) (XfrmGatewayIPs (Status isc))\<rparr>\<rparr>))))"

section \<open>Creating and deleting pods\<close>

definition create_any :: "any_pod \<Rightarrow> envs \<Rightarrow> k8s_pod" where
  "create_any p env = (case p of
      AnyCharon q \<Rightarrow> create_charon_pod q env
    | AnyRestctl q \<Rightarrow> create_restctl_pod q env
    | AnyXfrm q \<Rightarrow> create_xfrm_pod q env)"

definition any_key :: "any_pod \<Rightarrow> nsn" where
  "any_key p = (case p of
      AnyCharon q \<Rightarrow> \<lparr>nsn_name = pm_Name (Meta q), nsn_namespace = pm_Namespace (Meta q)\<rparr>
    | AnyRestctl q \<Rightarrow> \<lparr>nsn_name = pm_Name (Meta q), nsn_namespace = pm_Namespace (Meta q)\<rparr>
    | AnyXfrm q \<Rightarrow> \<lparr>nsn_name = pm_Name (Meta q), nsn_namespace = pm_Namespace (Meta q)\<rparr>)"

definition complete_setup :: "'w server \<Rightarrow> envs \<Rightarrow> any_pod \<Rightarrow> k8s_pod \<Rightarrow> ('w, act_error, unit) io" where
  "complete_setup sv env p pod = (case p of
      AnyCharon q \<Rightarrow> Charon_CompleteSetup sv env (PSpec q) pod (CharonGroupRef_Nsn (PGroup q))
    | AnyRestctl q \<Rightarrow> Restctl_CompleteSetup sv env (PSpec q) pod (CharonGroupRef_Nsn (PGroup q))
    | AnyXfrm q \<Rightarrow> Xfrm_CompleteSetup sv env (PSpec q) pod (CharonGroupRef_Nsn (PGroup q)))"

definition complete_deletion :: "'w server \<Rightarrow> any_pod \<Rightarrow> ('w, act_error, unit) io" where
  "complete_deletion sv p = (case p of AnyXfrm q \<Rightarrow> Xfrm_CompleteDeletion sv (PSpec q) | _ \<Rightarrow> ret ())"

definition Do_CreatePod :: "'w server \<Rightarrow> envs \<Rightarrow> any_pod \<Rightarrow> ('w, act_error, unit) io" where
  "Do_CreatePod sv env p =
     bnd (call (ApiFailed ''Pod creation error'') (sv_create_pod sv (create_any p env))) (\<lambda>_.
     bnd (wait_ready sv env (any_key p)) (\<lambda>finished. complete_setup sv env p finished))"

definition Do_DeletePod :: "'w server \<Rightarrow> envs \<Rightarrow> any_pod \<Rightarrow> ('w, act_error, unit) io" where
  "Do_DeletePod sv env p =
     bnd (call (ApiFailed ''Error deleting pod'') (sv_delete_pod sv (create_any p env))) (\<lambda>_.
     bnd (call (ApiFailed ''Couldn't list ipmen while deleting pod'') (sv_list_conns sv)) (\<lambda>_.
     ignore_err (complete_deletion sv p)))"

end
