(* ===== verification/Exec_Actions.thy ===== *)
theory Exec_Actions
  imports Exec
begin

text \<open>
  The \<open>Do\<close> methods that talk to running pods: routes and forwarding entries of an xfrm pod, the
  connections of a restctl pod. A method that records a route reads the specification from the
  pod's annotation, changes it (\<open>route_step\<close>) and writes it back (\<open>updateXfrmSpecAnnotation\<close>),
  then polls until the API server answers with what was written; whether two specifications
  differ is decided by \<open>diff.Diff\<close>, the parameter \<open>same\<close>.
\<close>

definition set_routes :: "routes \<Rightarrow> xfrm_pod \<Rightarrow> xfrm_pod" where
  "set_routes rs p = p\<lparr>PSpec := (PSpec p)\<lparr>Routes := rs\<rparr>\<rparr>"

section \<open>The annotation of an xfrm pod\<close>

text \<open>\<open>json.Unmarshal\<close> into \<open>XfrmPodSpec\<close> succeeds.\<close>

definition json_u32_ok :: "json option \<Rightarrow> bool" where
  "json_u32_ok j = (case j of None \<Rightarrow> True | Some JNull \<Rightarrow> True
     | Some (JNum lit) \<Rightarrow> (case parse_uint 64 lit of (n, None) \<Rightarrow> n < 2 ^ 32 | _ \<Rightarrow> False)
     | _ \<Rightarrow> False)"

definition json_obj_ok :: "(json option \<Rightarrow> bool) \<Rightarrow> json option \<Rightarrow> bool" where
  "json_obj_ok ok j = (case j of None \<Rightarrow> True | Some JNull \<Rightarrow> True | Some (JObj kvs) \<Rightarrow> ok j | _ \<Rightarrow> False)"

definition json_map_ok :: "json option \<Rightarrow> bool" where
  "json_map_ok j = (case j of None \<Rightarrow> True | Some JNull \<Rightarrow> True
     | Some (JObj kvs) \<Rightarrow> list_all (\<lambda>(_, v). json_str_ok (Some v)) kvs | _ \<Rightarrow> False)"

definition xfrm_json_ok :: "string \<Rightarrow> bool" where
  "xfrm_json_ok s = (parse_json s \<noteq> None \<and> json_obj_ok (\<lambda>j.
       json_obj_ok (\<lambda>r. json_strs_ok (jfield r ''local_routes'') \<and> json_strs_ok (jfield r ''remote_routes'')
         \<and> json_map_ok (jfield r ''bridge_fdb'')) (jfield j ''routes'')
     \<and> json_obj_ok (\<lambda>p. json_str_ok (jfield p ''owner_child'') \<and> json_str_ok (jfield p ''owner_connection'')
         \<and> json_u32_ok (jfield p ''interface_id'') \<and> json_str_ok (jfield p ''xfrm_ip'')
         \<and> json_str_ok (jfield p ''vxlan_ip'')) (jfield j ''properties'')) (parse_json s))"

partial_function (option) poll_annotation ::
  "'w server \<Rightarrow> (xfrm_pod_spec \<Rightarrow> xfrm_pod_spec \<Rightarrow> bool) \<Rightarrow> nsn \<Rightarrow> xfrm_pod_spec
   \<Rightarrow> 'w \<Rightarrow> ((act_error, unit) outcome \<times> 'w) option"
where
  "poll_annotation sv same k spec w =
     (case sv_get_pod sv k w of (r, w') \<Rightarrow>
        (case r of
           Ok p \<Rightarrow>
             if \<not> xfrm_json_ok (gstr (Annotations p) AnnotationSpec) then Some (Err (BadReply []), w')
             else if same (unmarshal_xfrm (gstr (Annotations p) AnnotationSpec)) spec then Some (Ok (), w')
             else poll_annotation sv same k spec w'
         | Err e \<Rightarrow> Some (Err (ApiFailed [] e), w')
         | Panic \<Rightarrow> Some (Panic, w')))"

text \<open>An API object without annotations has a nil map, which cannot be written to.\<close>

definition updateXfrmSpecAnnotation ::
  "'w server \<Rightarrow> (xfrm_pod_spec \<Rightarrow> xfrm_pod_spec \<Rightarrow> bool) \<Rightarrow> xfrm_pod \<Rightarrow> ('w, act_error, unit) io"
where
  "updateXfrmSpecAnnotation sv same x =
     (let k = \<lparr>nsn_name = pm_Name (Meta x), nsn_namespace = pm_Namespace (Meta x)\<rparr> in
     bnd (call (ApiFailed []) (sv_get_pod sv k)) (\<lambda>p.
     if Annotations p = [] then crash else
     bnd (call (ApiFailed []) (sv_update_pod sv
       (p\<lparr>Annotations := gput AnnotationSpec (marshal_xfrm (PSpec x)) (Annotations p)\<rparr>))) (\<lambda>_.
     poll_annotation sv same k (PSpec x))))"

definition record_route ::
  "'w server \<Rightarrow> (xfrm_pod_spec \<Rightarrow> xfrm_pod_spec \<Rightarrow> bool) \<Rightarrow> action \<Rightarrow> k8s_pod \<Rightarrow> ('w, act_error, unit) io"
where
  "record_route sv same a pod =
     (let x = XfrmFromPod pod
      in updateXfrmSpecAnnotation sv same (set_routes (route_step a (Routes (PSpec x))) x))"

section \<open>Routes\<close>

definition xfrm_key :: "xfrm_pod \<Rightarrow> nsn" where
  "xfrm_key p = \<lparr>nsn_name = pm_Name (Meta p), nsn_namespace = pm_Namespace (Meta p)\<rparr>"

text \<open>
  The loop of \<open>AddRemoteRouteAction.Do\<close> runs once: the pod it waits for has an address. The error
  of recording the route is dropped, here and in the next three methods.
\<close>

definition Do_AddRemoteRoute ::
  "'w server \<Rightarrow> (xfrm_pod_spec \<Rightarrow> xfrm_pod_spec \<Rightarrow> bool) \<Rightarrow> envs \<Rightarrow> string \<Rightarrow> xfrm_pod \<Rightarrow> ('w, act_error, unit) io"
where
  "Do_AddRemoteRoute sv same env route p =
     bnd (wait_ready sv env (xfrm_key p)) (\<lambda>pod.
     bnd (send_post sv ''Couldn't send post to add remote route''
       (pod_url (PodIP pod) '':8080/addRemoteRoute'') (RemoteRouteRequest route)) (\<lambda>resp.
     if StatusCode resp \<noteq> 200 then fail (HttpStatus ''Error adding remote route'' (StatusCode resp))
     else ignore_err (record_route sv same (AddRemoteRouteAction route p) pod)))"

text \<open>
  \<open>DeleteRemoteRouteAction.Do\<close> fetches the pod only when the action has no address; otherwise the
  pod is nil when the route is to be recorded.
\<close>

definition Do_DeleteRemoteRoute ::
  "'w server \<Rightarrow> (xfrm_pod_spec \<Rightarrow> xfrm_pod_spec \<Rightarrow> bool) \<Rightarrow> envs \<Rightarrow> string \<Rightarrow> xfrm_pod \<Rightarrow> ('w, act_error, unit) io"
where
  "Do_DeleteRemoteRoute sv same env route p =
     bnd (if pm_IP (Meta p) = []
          then bnd (wait_ready sv env (xfrm_key p)) (\<lambda>pod. ret (PodIP pod, Some pod))
          else ret (pm_IP (Meta p), None)) (\<lambda>(ip, pod).
     bnd (send_post sv ''Couldn't send post to add remote route''
       (pod_url ip '':8080/deleteRemoteRoute'') (RemoteRouteRequest route)) (\<lambda>resp.
     if StatusCode resp \<noteq> 200 then fail (HttpStatus ''Error adding remote route'' (StatusCode resp))
     else (case pod of
         None \<Rightarrow> crash
       | Some pod \<Rightarrow> ignore_err (record_route sv same (DeleteRemoteRouteAction route p) pod))))"

definition Do_AddLocalRoute ::
  "'w server \<Rightarrow> (xfrm_pod_spec \<Rightarrow> xfrm_pod_spec \<Rightarrow> bool) \<Rightarrow> envs \<Rightarrow> string \<Rightarrow> xfrm_pod \<Rightarrow> ('w, act_error, unit) io"
where
  "Do_AddLocalRoute sv same env route p =
     bnd (wait_ready sv env (xfrm_key p)) (\<lambda>pod.
     bnd (send_post sv ''Couldn't send post to add local route''
       (pod_url (PodIP pod) '':8080/addLocalRoute'') (LocalRouteRequest route)) (\<lambda>resp.
     if StatusCode resp \<noteq> 200 then fail (HttpStatus ''Error adding local route'' (StatusCode resp))
     else ignore_err (record_route sv same (AddLocalRouteAction route p) pod)))"

definition Do_DeleteLocalRoute ::
  "'w server \<Rightarrow> (xfrm_pod_spec \<Rightarrow> xfrm_pod_spec \<Rightarrow> bool) \<Rightarrow> envs \<Rightarrow> string \<Rightarrow> xfrm_pod \<Rightarrow> ('w, act_error, unit) io"
where
  "Do_DeleteLocalRoute sv same env route p =
     bnd (wait_ready sv env (xfrm_key p)) (\<lambda>pod.
     bnd (send_post sv ''Couldn't send post to delete local route''
       (pod_url (PodIP pod) '':8080/deleteLocalRoute'') (LocalRouteRequest route)) (\<lambda>resp.
     if StatusCode resp \<noteq> 200 then fail (HttpStatus ''Error deleting local route'' (StatusCode resp))
     else ignore_err (record_route sv same (DeleteLocalRouteAction route p) pod)))"

definition getPodByIP :: "'w server \<Rightarrow> string \<Rightarrow> ('w, act_error, k8s_pod) io" where
  "getPodByIP sv underlyingIP =
     bnd (call (ApiFailed []) (sv_list_pods sv)) (\<lambda>ps.
     case find (\<lambda>p. PodIP p = underlyingIP) ps of Some p \<Rightarrow> ret p | None \<Rightarrow> fail NoPodWithIP)"

definition Do_AddBridgeFDB ::
  "'w server \<Rightarrow> (xfrm_pod_spec \<Rightarrow> xfrm_pod_spec \<Rightarrow> bool) \<Rightarrow> string \<Rightarrow> string \<Rightarrow> xfrm_pod \<Rightarrow> ('w, act_error, unit) io"
where
  "Do_AddBridgeFDB sv same vxlanIP underlyingIP p =
     bnd (send_post sv ''Couldn't setnd post to add local route''
       (pod_url (pm_IP (Meta p)) '':8080/addBridgeFDB'') (BridgeFdbRequest underlyingIP)) (\<lambda>resp.
     if StatusCode resp \<noteq> 200 then fail (HttpStatus ''Error adding local route'' (StatusCode resp)) else
     bnd (getPodByIP sv (pm_IP (Meta p))) (\<lambda>pod.
     record_route sv same (AddBridgeFDBAction vxlanIP underlyingIP p) pod))"

definition Do_DeleteBridgeFDB ::
  "'w server \<Rightarrow> (xfrm_pod_spec \<Rightarrow> xfrm_pod_spec \<Rightarrow> bool) \<Rightarrow> string \<Rightarrow> string \<Rightarrow> xfrm_pod \<Rightarrow> ('w, act_error, unit) io"
where
  "Do_DeleteBridgeFDB sv same vxlanIP underlyingIP p =
     bnd (send_post sv ''Couldn't setnd post to add local route''
       (pod_url (pm_IP (Meta p)) '':8080/deleteBridgeFDB'') (BridgeFdbRequest underlyingIP)) (\<lambda>resp.
     if StatusCode resp \<noteq> 200 then fail (HttpStatus ''Error adding local route'' (StatusCode resp)) else
     bnd (getPodByIP sv (pm_IP (Meta p))) (\<lambda>pod.
     record_route sv same (DeleteBridgeFDBAction vxlanIP underlyingIP p) pod))"

section \<open>Connections\<close>

text \<open>Up to five pings; nothing depends on whether one succeeded.\<close>

fun ping_proxy :: "'w server \<Rightarrow> string \<Rightarrow> nat \<Rightarrow> ('w, act_error, unit) io" where
  "ping_proxy sv url 0 = ret ()"
| "ping_proxy sv url (Suc l) = bnd (attempt (sv_http_get sv url)) (\<lambda>r. case r of
      Inr resp \<Rightarrow> if Body resp = Some ''p0ng'' then ret () else ping_proxy sv url l
    | Inl _ \<Rightarrow> ping_proxy sv url l)"

definition get_group_io :: "'w server \<Rightarrow> charon_group_ref \<Rightarrow> ('w, act_error, charon_group) io" where
  "get_group_io sv gr = bnd (call (ApiFailed []) (sv_list_groups sv)) (\<lambda>gs.
     case find (\<lambda>g. g_name g = gr_name gr) gs of Some g \<Rightarrow> ret g | None \<Rightarrow> fail (NoSuchGroup (gr_name gr)))"

fun groups_of_configs ::
  "'w server \<Rightarrow> ipsec_conn list \<Rightarrow> (string, charon_group) gomap \<Rightarrow> ('w, act_error, (string, charon_group) gomap) io"
where
  "groups_of_configs sv [] m = ret m"
| "groups_of_configs sv (c # cs) m = bnd (get_group_io sv (Group (Spec c)))
     (\<lambda>g. groups_of_configs sv cs (gput (cn_Name c) g m))"

definition group_of :: "(string, charon_group) gomap \<Rightarrow> string \<Rightarrow> charon_group" where
  "group_of m n = (case gget m n of None \<Rightarrow> zero_group | Some g \<Rightarrow> g)"

fun secrets_of_configs ::
  "'w server \<Rightarrow> charon_group_ref \<Rightarrow> (string, charon_group) gomap \<Rightarrow> ipsec_conn list
   \<Rightarrow> (string, string) gomap \<Rightarrow> ('w, act_error, (string, string) gomap) io"
where
  "secrets_of_configs sv ours groups [] m = ret m"
| "secrets_of_configs sv ours groups (c # cs) m =
     (if CharonGroup_Equals (group_of groups (cn_Name c)) ours then
        bnd (call (ApiFailed ''Couldn't get secret for connection'') (sv_get_secret sv
          \<lparr>nsn_name = s_Name (SecretRef (Spec c)), nsn_namespace = s_Namespace (SecretRef (Spec c))\<rparr>)) (\<lambda>data.
        if gstr data (s_Key (SecretRef (Spec c))) = [] then fail (NoSecret (cn_Name c))
        else secrets_of_configs sv ours groups cs (gput (cn_Name c) (gstr data (s_Key (SecretRef (Spec c)))) m))
      else secrets_of_configs sv ours groups cs m)"

definition Do_OverrideConfig ::
  "'w server \<Rightarrow> envs \<Rightarrow> string \<Rightarrow> ipsec_conn list \<Rightarrow> ('w, act_error, unit) io"
where
  "Do_OverrideConfig sv env podName configs =
     bnd (call (ApiFailed ''Couldn't get pod'') (sv_get_pod sv
       \<lparr>nsn_name = podName, nsn_namespace = NamespaceName env\<rparr>)) (\<lambda>pod.
     bnd (from_outcome (RestctlFromPod pod)) (\<lambda>imPod.
     if IsTest env then fail TestMode else
     bnd (ping_proxy sv (pod_url (PodIP pod) '':61410/p1ng'') 5) (\<lambda>_.
     bnd (groups_of_configs sv configs []) (\<lambda>groups.
     bnd (secrets_of_configs sv (PGroup imPod) groups configs []) (\<lambda>secrets.
     let d = map (\<lambda>c. \<lparr>cd_Secret = gstr secrets (cn_Name c), cd_IPSecConnection = c\<rparr>)
           (filter (\<lambda>c. gs_nodeName (g_spec (group_of groups (cn_Name c))) = p_NodeName pod) configs) in
     bnd (send_post sv ''Error sending post to reload charon pod''
       (pod_url (PodIP pod) '':61410/reload'') (ReloadData d)) (\<lambda>resp.
     bnd (read_body ''Error parsing response to reload request'' resp) (\<lambda>out.
     case dec_load_error out of
       None \<Rightarrow> fail (BadReply ''Error unmarshaling response to reload request'')
     | Some errs \<Rightarrow> if StatusCode resp \<noteq> 200 then fail (LoadFailed errs) else ret ())))))))"

text \<open>
  \<open>RestartConnectionAction.Do\<close>; its branch for status 500 comes after every status but 200 has
  been handled.
\<close>

definition set_state :: "string \<Rightarrow> ipsec_conn \<Rightarrow> ipsec_conn" where
  "set_state s c = c\<lparr>Status := (Status c)\<lparr>State := s\<rparr>\<rparr>"

definition set_children_state :: "(string, string) gomap \<Rightarrow> ipsec_conn \<Rightarrow> ipsec_conn" where
  "set_children_state m c = c\<lparr>Status := (Status c)\<lparr>ChildrenState := Some m\<rparr>\<rparr>"

definition Do_RestartConnection :: "'w server \<Rightarrow> string \<Rightarrow> string \<Rightarrow> ('w, act_error, unit) io" where
  "Do_RestartConnection sv name restctlIP =
     bnd (send_post sv ''Error sending request to reload a connection to restctl pod''
       (pod_url restctlIP '':61410/conn-restart'') (RestartConnectionRequest name)) (\<lambda>resp.
     bnd (read_body ''Error reading body of response to request for restarting a child connection'' resp) (\<lambda>body.
     if StatusCode resp \<noteq> 200 then fail (HttpStatus ''Error restarting a connection'' (StatusCode resp)) else
     bnd (call (ApiFailed ''Error fetching IPSecConnection'') (sv_get_conn sv name)) (\<lambda>ipsec.
     if StatusCode resp = 500 \<and> body = ''Action failed'' then fail (ConnectionRestartError name []) else
     call (ApiFailed ''Error updating IPSecConnection'') (sv_update_status sv (set_state ''UP'' ipsec)))))"

definition Do_RestartChild ::
  "'w server \<Rightarrow> string \<Rightarrow> string \<Rightarrow> string \<Rightarrow> ('w, act_error, unit) io"
where
  "Do_RestartChild sv connectionName childName restctlIP =
     bnd (send_post sv ''Error sending request to reload a connection to restctl pod''
       (pod_url restctlIP '':61410/child-restart'') (RestartConnectionChildRequest connectionName childName)) (\<lambda>resp.
     bnd (read_body ''Error reading body of response to request for restarting a child connection'' resp) (\<lambda>body.
     bnd (call (ApiFailed ''Error fetching IPSecConnection'') (sv_get_conn sv connectionName)) (\<lambda>ipsec.
     if StatusCode resp = 500 \<and> body = ''Action failed'' then fail (ConnectionRestartError connectionName childName)
     else if StatusCode resp \<noteq> 200 then fail (HttpStatus ''Error restarting a connection'' (StatusCode resp))
     else (case ChildrenState (Status ipsec) of
         None \<Rightarrow> crash
       | Some m \<Rightarrow>
           let m' = gput childName ''UP'' m;
               ipsec = set_children_state m' ipsec;
               somethingDown = list_contains (gvals m') ''Down'';
               ipsec = (if \<not> somethingDown then set_state ''UP'' ipsec else ipsec)
           in call (ApiFailed ''Error updating IPSecConnection'') (sv_update_status sv ipsec)))))"

definition optimistic_status :: "ipsec_conn \<Rightarrow> ipsec_conn" where
  "optimistic_status c = set_state ''UP'' (foldl (\<lambda>c cname.
     set_children_state (gput cname ''UP'' (gmap_of (ChildrenState (Status c)))) c)
     c (gkeys (Children (Spec c))))"

definition Do_UpdateChildStatus :: "'w server \<Rightarrow> string \<Rightarrow> ('w, act_error, unit) io" where
  "Do_UpdateChildStatus sv connectionName =
     bnd (call (ApiFailed ''Error fetching IPSecConnection'') (sv_get_conn sv connectionName)) (\<lambda>ipsec.
     call (ApiFailed ''Error updating IPSecConnection'') (sv_update_status sv (optimistic_status ipsec)))"

section \<open>The pod monitors and the dispatch\<close>

definition Do_CreateMonitor :: "'w server \<Rightarrow> ('w, act_error, unit) io" where
  "Do_CreateMonitor sv =
     bnd (attempt (sv_create_monitor sv ''ipman-ipsec-exporter-restctl'')) (\<lambda>_.
     bnd (attempt (sv_create_monitor sv ''ipman-ipsec-exporter-manager'')) (\<lambda>_. ret ()))"

definition Do_DeleteMonitor :: "'w server \<Rightarrow> ('w, act_error, unit) io" where
  "Do_DeleteMonitor sv =
     bnd (attempt (sv_delete_monitor sv ''ipman-ipsec-exporter-restctl'')) (\<lambda>r. case r of
       Inl ApiNotFound \<Rightarrow> ret ()
     | Inl e \<Rightarrow> fail (ApiFailed ''Delete PodMonitor'' e)
     | Inr _ \<Rightarrow> ret ())"

fun Do :: "'w server \<Rightarrow> (xfrm_pod_spec \<Rightarrow> xfrm_pod_spec \<Rightarrow> bool) \<Rightarrow> envs \<Rightarrow> action \<Rightarrow> ('w, act_error, unit) io" where
  "Do sv same env DeleteMonitorAction = Do_DeleteMonitor sv"
| "Do sv same env CreateMonitorAction = Do_CreateMonitor sv"
| "Do sv same env (CreatePodAction p) = Do_CreatePod sv env p"
| "Do sv same env (DeletePodAction p) = Do_DeletePod sv env p"
| "Do sv same env (AddRemoteRouteAction r p) = Do_AddRemoteRoute sv same env r p"
| "Do sv same env (DeleteRemoteRouteAction r p) = Do_DeleteRemoteRoute sv same env r p"
| "Do sv same env (AddLocalRouteAction r p) = Do_AddLocalRoute sv same env r p"
| "Do sv same env (DeleteLocalRouteAction r p) = Do_DeleteLocalRoute sv same env r p"
| "Do sv same env (AddBridgeFDBAction v u p) = Do_AddBridgeFDB sv same v u p"
| "Do sv same env (DeleteBridgeFDBAction v u p) = Do_DeleteBridgeFDB sv same v u p"
| "Do sv same env (OverrideConfigAction n cs) = Do_OverrideConfig sv env n cs"
| "Do sv same env (RestartConnectionAction n ip) = Do_RestartConnection sv n ip"
| "Do sv same env (RestartChildConnectionAction n ch ip) = Do_RestartChild sv n ch ip"
| "Do sv same env (UpdateChildConnectionStatus n) = Do_UpdateChildStatus sv n"

end
