(* ===== verification/Routes.thy ===== *)
theory Routes
  imports Actions
begin

text \<open>
  \<open>diffRoutes\<close> of \<open>ipman_controller.go\<close>: from the routes an xfrm pod has to those it should
  have. The changes between two lists or maps come from \<open>github.com/r3labs/diff\<close>, which is not
  part of the repository: the two uses of \<open>diff.Diff\<close> are the parameters \<open>dslice\<close> and \<open>dmap\<close>,
  and \<open>slice_diff_ok\<close> and \<open>map_diff_ok\<close> state its documented behaviour: a list is compared as
  a collection, each missing value reported once as created or deleted or paired up as an update;
  a map is compared key by key, the key being the path of the change.
\<close>

text \<open>The dynamic value of an \<open>interface\<close> field: a string or something else; nil is \<open>None\<close>.\<close>

datatype gval = GStr string | GOther

record change =
  ch_type :: string
  ch_path :: "string list"
  ch_from :: "gval option"
  ch_to :: "gval option"

datatype route_error = NotAString change | UnexpectedOperation change

text \<open>The switch of \<open>diffRoutes\<close> on one change of a list of routes.\<close>

definition list_change ::
  "(string \<Rightarrow> action) \<Rightarrow> (string \<Rightarrow> action) \<Rightarrow> change \<Rightarrow> (route_error, action list) outcome"
where
  "list_change mkAdd mkDel c =
     (if ch_type c = ''create'' then
        (case ch_to c of Some (GStr v) \<Rightarrow> Ok [mkAdd v] | _ \<Rightarrow> Err (NotAString c))
      else if ch_type c = ''delete'' then
        (case ch_from c of Some (GStr v) \<Rightarrow> Ok [mkDel v] | _ \<Rightarrow> Err (NotAString c))
      else if ch_type c = ''update'' then
        (case (ch_from c, ch_to c) of
           (Some (GStr v), None) \<Rightarrow> Ok [mkDel v]
         | (_, None) \<Rightarrow> Err (NotAString c)
         | (None, Some (GStr v)) \<Rightarrow> Ok [mkAdd v]
         | (Some (GStr v), Some (GStr w)) \<Rightarrow> Ok [mkDel v, mkAdd w]
         | _ \<Rightarrow> Err (NotAString c))
      else Ok [])"

text \<open>The switch on one change of the forwarding table; \<open>c.Path[0]\<close> panics on an empty path.\<close>

definition fdb_change :: "xfrm_pod \<Rightarrow> change \<Rightarrow> (route_error, action list) outcome" where
  "fdb_change cur c =
     (let mkAdd = (\<lambda>w. case ch_path c of [] \<Rightarrow> Panic | k # _ \<Rightarrow> Ok [AddBridgeFDBAction k w cur]);
          mkDel = (\<lambda>v. case ch_path c of [] \<Rightarrow> Panic | k # _ \<Rightarrow> Ok [DeleteBridgeFDBAction k v cur])
      in if ch_type c = ''update'' then
           (case (ch_from c, ch_to c) of
              (Some (GStr v), None) \<Rightarrow> mkDel v
            | (_, None) \<Rightarrow> Err (NotAString c)
            | (None, Some (GStr w)) \<Rightarrow> mkAdd w
            | (Some (GStr v), Some (GStr w)) \<Rightarrow>
                obind (mkDel v) (\<lambda>d. obind (mkAdd w) (\<lambda>a. Ok (d @ a)))
            | _ \<Rightarrow> Err (NotAString c))
         else if ch_type c = ''create'' then
           (case ch_to c of Some (GStr w) \<Rightarrow> mkAdd w | _ \<Rightarrow> Err (NotAString c))
         else if ch_type c = ''delete'' then
           (case ch_from c of Some (GStr v) \<Rightarrow> mkDel v | _ \<Rightarrow> Err (NotAString c))
         else Err (UnexpectedOperation c))"

text \<open>
  \<open>diffRoutes\<close> sorts the four route lists in place, so the pod that the actions carry has its
  routes sorted.
\<close>

definition sort_routes :: "xfrm_pod \<Rightarrow> xfrm_pod" where
  "sort_routes p = p\<lparr>PSpec := (PSpec p)\<lparr>Routes := (Routes (PSpec p))
     \<lparr>Local := slice_sort (Local (Routes (PSpec p))),
      Remote := slice_sort (Remote (Routes (PSpec p)))\<rparr>\<rparr>\<rparr>"

definition diffRoutes ::
  "(string slice \<Rightarrow> string slice \<Rightarrow> change list)
   \<Rightarrow> ((string, string) gomap option \<Rightarrow> (string, string) gomap option \<Rightarrow> change list)
   \<Rightarrow> xfrm_pod \<Rightarrow> xfrm_pod \<Rightarrow> (route_error, action list) outcome"
where
  "diffRoutes dslice dmap current desired =
     (let cur = sort_routes current;
          clr = Local (Routes (PSpec cur));
          dlr = slice_sort (Local (Routes (PSpec desired)));
          crr = Remote (Routes (PSpec cur));
          drr = slice_sort (Remote (Routes (PSpec desired)));
          cfdb = BridgeFDB (Routes (PSpec cur));
          dfdb = BridgeFDB (Routes (PSpec desired))
      in obind (if clr \<noteq> dlr
           then concat_outcome (list_change (\<lambda>v. AddLocalRouteAction v cur)
                  (\<lambda>v. DeleteLocalRouteAction v cur)) (dslice clr dlr)
           else Ok []) (\<lambda>ls.
         obind (if crr \<noteq> drr
           then concat_outcome (list_change (\<lambda>v. AddRemoteRouteAction v cur)
                  (\<lambda>v. DeleteRemoteRouteAction v cur)) (dslice crr drr)
           else Ok []) (\<lambda>rs.
         obind (if \<not> geq_nil cfdb dfdb
           then concat_outcome (fdb_change cur) (dmap cfdb dfdb)
           else Ok []) (\<lambda>fs. Ok (ls @ rs @ fs)))))"

section \<open>What diff.Diff promises\<close>

definition removed :: "change list \<Rightarrow> string list" where
  "removed cl = concat (map (\<lambda>c. case ch_from c of Some (GStr v) \<Rightarrow> [v] | _ \<Rightarrow> []) cl)"

definition added :: "change list \<Rightarrow> string list" where
  "added cl = concat (map (\<lambda>c. case ch_to c of Some (GStr v) \<Rightarrow> [v] | _ \<Rightarrow> []) cl)"

lemma removed_Cons: "removed (c # cl) = (case ch_from c of Some (GStr v) \<Rightarrow> [v] | _ \<Rightarrow> []) @ removed cl"
  and added_Cons: "added (c # cl) = (case ch_to c of Some (GStr v) \<Rightarrow> [v] | _ \<Rightarrow> []) @ added cl"
  and removed_Nil [simp]: "removed [] = []" and added_Nil [simp]: "added [] = []"
  by (simp_all add: removed_def added_def)

definition create_change :: "string list \<Rightarrow> string \<Rightarrow> change" where
  "create_change path v = \<lparr>ch_type = ''create'', ch_path = path, ch_from = None, ch_to = Some (GStr v)\<rparr>"

definition delete_change :: "string list \<Rightarrow> string \<Rightarrow> change" where
  "delete_change path v = \<lparr>ch_type = ''delete'', ch_path = path, ch_from = Some (GStr v), ch_to = None\<rparr>"

definition update_change :: "string list \<Rightarrow> string \<Rightarrow> string \<Rightarrow> change" where
  "update_change path v w
     = \<lparr>ch_type = ''update'', ch_path = path, ch_from = Some (GStr v), ch_to = Some (GStr w)\<rparr>"

definition string_change :: "change \<Rightarrow> bool" where
  "string_change c \<longleftrightarrow> (\<exists>p v w. c = create_change p v \<or> c = delete_change p v \<or> c = update_change p v w)"

definition slice_diff_ok :: "(string slice \<Rightarrow> string slice \<Rightarrow> change list) \<Rightarrow> bool" where
  "slice_diff_ok dslice \<longleftrightarrow> (\<forall>a b. distinct (elems a) \<longrightarrow> distinct (elems b) \<longrightarrow>
     (\<forall>c \<in> set (dslice a b). string_change c)
     \<and> set (removed (dslice a b)) = set (elems a) - set (elems b)
     \<and> set (added (dslice a b)) = set (elems b) - set (elems a)
     \<and> distinct (removed (dslice a b)) \<and> distinct (added (dslice a b)))"

definition key_change ::
  "(string, string) gomap \<Rightarrow> (string, string) gomap \<Rightarrow> string \<Rightarrow> change list"
where
  "key_change a b k = (case (gget a k, gget b k) of
      (None, None) \<Rightarrow> []
    | (Some v, None) \<Rightarrow> [delete_change [k] v]
    | (None, Some w) \<Rightarrow> [create_change [k] w]
    | (Some v, Some w) \<Rightarrow> if v = w then [] else [update_change [k] v w])"

definition map_diff_ok ::
  "((string, string) gomap option \<Rightarrow> (string, string) gomap option \<Rightarrow> change list) \<Rightarrow> bool"
where
  "map_diff_ok dmap \<longleftrightarrow> (\<forall>a b. gok (gmap_of a) \<longrightarrow> gok (gmap_of b) \<longrightarrow>
     (\<forall>c \<in> set (dmap a b). ch_path c \<noteq> [])
     \<and> (\<forall>k. filter (\<lambda>c. hd (ch_path c) = k) (dmap a b) = key_change (gmap_of a) (gmap_of b) k))"

text \<open>A pair of functions with this behaviour.\<close>

definition ref_slice_diff :: "string slice \<Rightarrow> string slice \<Rightarrow> change list" where
  "ref_slice_diff a b =
     map (delete_change []) (filter (\<lambda>x. x \<notin> set (elems b)) (elems a))
     @ map (create_change []) (filter (\<lambda>x. x \<notin> set (elems a)) (elems b))"

definition ref_map_diff ::
  "(string, string) gomap option \<Rightarrow> (string, string) gomap option \<Rightarrow> change list"
where
  "ref_map_diff a b = concat (map (key_change (gmap_of a) (gmap_of b))
     (remdups (gkeys (gmap_of a) @ gkeys (gmap_of b))))"

lemma removed_append: "removed (a @ b) = removed a @ removed b"
  and added_append: "added (a @ b) = added a @ added b"
  by (simp_all add: removed_def added_def)

lemma removed_ref: "removed (map (delete_change p) xs) = xs" "removed (map (create_change p) xs) = []"
  and added_ref: "added (map (delete_change p) xs) = []" "added (map (create_change p) xs) = xs"
  by (induction xs) (simp_all add: removed_Cons added_Cons delete_change_def create_change_def)

lemma ref_slice_diff_ok: "slice_diff_ok ref_slice_diff"
  by (auto simp: slice_diff_ok_def ref_slice_diff_def removed_append added_append removed_ref
      added_ref string_change_def)

lemma key_change_path: "c \<in> set (key_change a b k) \<Longrightarrow> ch_path c = [k]"
  by (auto simp: key_change_def delete_change_def create_change_def update_change_def
      split: option.splits if_splits)

lemma key_change_outside: "k \<notin> set (gkeys a) \<Longrightarrow> k \<notin> set (gkeys b) \<Longrightarrow> key_change a b k = []"
  by (simp add: key_change_def gget_None_iff [THEN iffD2])

lemma filter_key_change:
  "filter (\<lambda>c. hd (ch_path c) = k) (key_change a b k') = (if k' = k then key_change a b k else [])"
  by (auto simp: filter_id_conv filter_empty_conv dest: key_change_path)

lemma filter_concat_key_change:
  "distinct ks \<Longrightarrow> filter (\<lambda>c. hd (ch_path c) = k) (concat (map (key_change a b) ks))
     = (if k \<in> set ks then key_change a b k else [])"
  by (induction ks) (auto simp: filter_key_change)

lemma ref_map_diff_ok: "map_diff_ok ref_map_diff"
proof -
  have "filter (\<lambda>c. hd (ch_path c) = k) (ref_map_diff a b) = key_change (gmap_of a) (gmap_of b) k"
    for a b k
    using key_change_outside [of k "gmap_of a" "gmap_of b"]
    by (simp add: ref_map_diff_def filter_concat_key_change)
  moreover have "\<forall>c \<in> set (ref_map_diff a b). ch_path c \<noteq> []" for a b
    by (auto simp: ref_map_diff_def dest: key_change_path)
  ultimately show ?thesis by (simp add: map_diff_ok_def)
qed

section \<open>Executing the actions reaches the desired routes\<close>

lemma string_change_cases [consumes 1, case_names create delete update]:
  "string_change c \<Longrightarrow>
   (\<And>p v. c = create_change p v \<Longrightarrow> P) \<Longrightarrow> (\<And>p v. c = delete_change p v \<Longrightarrow> P) \<Longrightarrow>
   (\<And>p v w. c = update_change p v w \<Longrightarrow> P) \<Longrightarrow> P"
  by (auto simp: string_change_def)

lemma list_change_simps [simp]:
  "list_change mkAdd mkDel (create_change p v) = Ok [mkAdd v]"
  "list_change mkAdd mkDel (delete_change p v) = Ok [mkDel v]"
  "list_change mkAdd mkDel (update_change p v w) = Ok [mkDel v, mkAdd w]"
  by (simp_all add: list_change_def create_change_def delete_change_def update_change_def)

lemma removed_added_Cons [simp]:
  "removed (create_change p v # cl) = removed cl" "added (create_change p v # cl) = v # added cl"
  "removed (delete_change p v # cl) = v # removed cl" "added (delete_change p v # cl) = added cl"
  "removed (update_change p v w # cl) = v # removed cl" "added (update_change p v w # cl) = w # added cl"
  by (simp_all add: removed_Cons added_Cons create_change_def delete_change_def update_change_def)

context route_kind
begin

lemma run_changes:
  assumes "\<forall>c \<in> set cl. string_change c"
    and "set (removed cl) \<inter> set (added cl) = {}"
    and "distinct (added cl)" and "distinct (elems (sel rs))"
    and "set (added cl) \<inter> set (elems (sel rs)) = {}"
  shows "\<exists>acts. concat_outcome (list_change (\<lambda>v. add v p) (\<lambda>v. del v p)) cl = Ok acts
    \<and> set (elems (sel (run_routes acts rs))) = set (elems (sel rs)) - set (removed cl) \<union> set (added cl)
    \<and> distinct (elems (sel (run_routes acts rs)))
    \<and> rest (run_routes acts rs) = rest rs"
  using assms
proof (induction cl arbitrary: rs)
  case Nil
  then show ?case by simp
next
  case (Cons c cl)
  let ?lc = "list_change (\<lambda>v. add v p) (\<lambda>v. del v p)"
  from Cons.prems(1) have "string_change c" by simp
  then show ?case
  proof (cases rule: string_change_cases)
    case (create q v)
    let ?rs = "route_step (add v p) rs"
    obtain acts where "concat_outcome ?lc cl = Ok acts"
      and "set (elems (sel (run_routes acts ?rs))) = set (elems (sel ?rs)) - set (removed cl) \<union> set (added cl)"
      and "distinct (elems (sel (run_routes acts ?rs)))" "rest (run_routes acts ?rs) = rest ?rs"
      using Cons.IH [of ?rs] Cons.prems create by (auto simp: set_add distinct_add)
    with Cons.prems create show ?thesis
      by (intro exI [of _ "add v p # acts"]) (auto simp: set_add rest_add)
  next
    case (delete q v)
    let ?rs = "route_step (del v p) rs"
    obtain acts where "concat_outcome ?lc cl = Ok acts"
      and "set (elems (sel (run_routes acts ?rs))) = set (elems (sel ?rs)) - set (removed cl) \<union> set (added cl)"
      and "distinct (elems (sel (run_routes acts ?rs)))" "rest (run_routes acts ?rs) = rest ?rs"
      using Cons.IH [of ?rs] Cons.prems delete by (auto simp: set_del distinct_del)
    with Cons.prems delete show ?thesis
      by (intro exI [of _ "del v p # acts"]) (auto simp: set_del rest_del)
  next
    case (update q v w)
    let ?rs = "route_step (add w p) (route_step (del v p) rs)"
    obtain acts where "concat_outcome ?lc cl = Ok acts"
      and "set (elems (sel (run_routes acts ?rs))) = set (elems (sel ?rs)) - set (removed cl) \<union> set (added cl)"
      and "distinct (elems (sel (run_routes acts ?rs)))" "rest (run_routes acts ?rs) = rest ?rs"
      using Cons.IH [of ?rs] Cons.prems update by (auto simp: set_add set_del distinct_add distinct_del)
    with Cons.prems update show ?thesis
      by (intro exI [of _ "del v p # add w p # acts"]) (auto simp: set_add set_del rest_add rest_del)
  qed
qed

lemma run_diff:
  assumes "slice_diff_ok dslice" "distinct (elems a)" "distinct (elems b)"
    and "sel rs = a'" "mset (elems a') = mset (elems a)"
  shows "\<exists>acts. (if a \<noteq> b then concat_outcome (list_change (\<lambda>v. add v p) (\<lambda>v. del v p)) (dslice a b)
        else Ok []) = Ok acts
    \<and> mset (elems (sel (run_routes acts rs))) = mset (elems b)
    \<and> rest (run_routes acts rs) = rest rs"
proof (cases "a = b")
  case False
  have cl: "\<forall>c \<in> set (dslice a b). string_change c"
    "set (removed (dslice a b)) = set (elems a) - set (elems b)"
    "set (added (dslice a b)) = set (elems b) - set (elems a)" "distinct (added (dslice a b))"
    using assms(1-3) by (auto simp: slice_diff_ok_def)
  have a': "set (elems (sel rs)) = set (elems a)" "distinct (elems (sel rs))"
    using assms(2,4,5) mset_eq_setD mset_eq_imp_distinct_iff by blast+
  obtain acts where acts: "concat_outcome (list_change (\<lambda>v. add v p) (\<lambda>v. del v p)) (dslice a b) = Ok acts"
      "set (elems (sel (run_routes acts rs))) = set (elems b)"
      "distinct (elems (sel (run_routes acts rs)))" "rest (run_routes acts rs) = rest rs"
  proof -
    have "set (elems a) - (set (elems a) - set (elems b)) \<union> (set (elems b) - set (elems a)) = set (elems b)"
      by blast
    then show ?thesis
      using that run_changes [of "dslice a b" rs p] cl a' by auto
  qed
  with assms(3) have "mset (elems (sel (run_routes acts rs))) = mset (elems b)"
    by (simp add: set_eq_iff_mset_eq_distinct [symmetric])
  with acts False show ?thesis by auto
qed (use assms in auto)

end

text \<open>The forwarding table: the changes of one key decide its entry, whatever their order.\<close>

definition fdb_acts :: "xfrm_pod \<Rightarrow> change \<Rightarrow> action list" where
  "fdb_acts cur c = (case fdb_change cur c of Ok xs \<Rightarrow> xs | _ \<Rightarrow> [])"

definition change_entry :: "change \<Rightarrow> string option" where
  "change_entry c = (case ch_to c of Some (GStr w) \<Rightarrow> Some w | _ \<Rightarrow> None)"

lemma fdb_change_simps [simp]:
  "fdb_change cur (create_change [k] w) = Ok [AddBridgeFDBAction k w cur]"
  "fdb_change cur (delete_change [k] v) = Ok [DeleteBridgeFDBAction k v cur]"
  "fdb_change cur (update_change [k] v w) = Ok [DeleteBridgeFDBAction k v cur, AddBridgeFDBAction k w cur]"
  by (simp_all add: fdb_change_def create_change_def delete_change_def update_change_def)

lemma change_parts [simp]:
  "ch_path (create_change p w) = p" "ch_path (delete_change p v) = p" "ch_path (update_change p v w) = p"
  "change_entry (create_change p w) = Some w" "change_entry (delete_change p v) = None"
  "change_entry (update_change p v w) = Some w"
  by (simp_all add: create_change_def delete_change_def update_change_def change_entry_def)

definition keyed_change :: "change \<Rightarrow> bool" where
  "keyed_change c \<longleftrightarrow> (\<exists>k v w. c = create_change [k] w \<or> c = delete_change [k] v \<or> c = update_change [k] v w)"

lemma key_change_keyed: "c \<in> set (key_change a b k) \<Longrightarrow> keyed_change c"
  by (auto simp: key_change_def keyed_change_def split: option.splits if_splits)

lemma fdb_change_keyed: "keyed_change c \<Longrightarrow> fdb_change cur c = Ok (fdb_acts cur c)"
  by (auto simp: keyed_change_def fdb_acts_def)

lemma run_fdb_acts:
  assumes "keyed_change c"
  shows "Local (run_routes (fdb_acts cur c) rs) = Local rs"
    and "Remote (run_routes (fdb_acts cur c) rs) = Remote rs"
    and "gget (gmap_of (BridgeFDB (run_routes (fdb_acts cur c) rs))) k
      = (if hd (ch_path c) = k then change_entry c else gget (gmap_of (BridgeFDB rs)) k)"
  using assms by (auto simp: keyed_change_def fdb_acts_def gomap_simps)

lemma run_fdb_list:
  assumes "\<forall>c \<in> set cl. keyed_change c"
  shows "Local (run_routes (concat (map (fdb_acts cur) cl)) rs) = Local rs
    \<and> Remote (run_routes (concat (map (fdb_acts cur) cl)) rs) = Remote rs
    \<and> gget (gmap_of (BridgeFDB (run_routes (concat (map (fdb_acts cur) cl)) rs))) k
      = foldl (\<lambda>_ c. change_entry c) (gget (gmap_of (BridgeFDB rs)) k) (filter (\<lambda>c. hd (ch_path c) = k) cl)"
  using assms by (induction cl arbitrary: rs) (simp_all add: run_fdb_acts)

lemma key_change_result:
  "foldl (\<lambda>_ c. change_entry c) (gget a k) (key_change a b k) = gget b k"
  by (auto simp: key_change_def split: option.splits)

lemma run_fdb_diff:
  assumes "map_diff_ok dmap" "gok (gmap_of a)" "gok (gmap_of b)" "BridgeFDB rs = a"
  shows "\<exists>acts. (if \<not> geq_nil a b then concat_outcome (fdb_change cur) (dmap a b) else Ok []) = Ok acts
    \<and> Local (run_routes acts rs) = Local rs \<and> Remote (run_routes acts rs) = Remote rs
    \<and> (\<forall>k. gget (gmap_of (BridgeFDB (run_routes acts rs))) k = gget (gmap_of b) k)"
proof (cases "geq_nil a b")
  case True
  then have "geq (gmap_of a) (gmap_of b)"
    by (cases a; cases b) (simp_all add: geq_nil_def)
  then have "\<forall>k. gget (gmap_of a) k = gget (gmap_of b) k"
    using geq_iff assms(2,3) by blast
  with True assms(4) show ?thesis by (intro exI [of _ "[]"]) simp
next
  case False
  have f: "filter (\<lambda>c. hd (ch_path c) = k) (dmap a b) = key_change (gmap_of a) (gmap_of b) k" for k
    using assms(1-3) by (simp add: map_diff_ok_def)
  have keyed: "\<forall>c \<in> set (dmap a b). keyed_change c"
  proof
    fix c assume "c \<in> set (dmap a b)"
    then have "c \<in> set (filter (\<lambda>d. hd (ch_path d) = hd (ch_path c)) (dmap a b))" by simp
    then show "keyed_change c" unfolding f by (rule key_change_keyed)
  qed
  have "concat_outcome (fdb_change cur) (dmap a b) = Ok (concat (map (fdb_acts cur) (dmap a b)))"
    using keyed by (intro concat_outcome_Ok) (simp add: fdb_change_keyed)
  with False show ?thesis
    using run_fdb_list [OF keyed] key_change_result f assms(4) by auto
qed

definition routes_distinct :: "xfrm_pod \<Rightarrow> bool" where
  "routes_distinct p \<longleftrightarrow> distinct (elems (Local (Routes (PSpec p))))
     \<and> distinct (elems (Remote (Routes (PSpec p)))) \<and> gok (gmap_of (BridgeFDB (Routes (PSpec p))))"

lemma sort_routes_fields [simp]:
  "Local (Routes (PSpec (sort_routes p))) = slice_sort (Local (Routes (PSpec p)))"
  "Remote (Routes (PSpec (sort_routes p))) = slice_sort (Remote (Routes (PSpec p)))"
  "BridgeFDB (Routes (PSpec (sort_routes p))) = BridgeFDB (Routes (PSpec p))"
  "Meta (sort_routes p) = Meta p" "PGroup (sort_routes p) = PGroup p"
  "Props (PSpec (sort_routes p)) = Props (PSpec p)"
  by (simp_all add: sort_routes_def)

lemma diffRoutes_run_routes:
  assumes "slice_diff_ok dslice" "map_diff_ok dmap"
    and "routes_distinct current" "routes_distinct desired"
  shows "\<exists>acts. diffRoutes dslice dmap current desired = Ok acts
    \<and> (let rs = run_routes acts (Routes (PSpec current)); want = Routes (PSpec desired)
       in mset (elems (Local rs)) = mset (elems (Local want))
        \<and> mset (elems (Remote rs)) = mset (elems (Remote want))
        \<and> (\<forall>k. gget (gmap_of (BridgeFDB rs)) k = gget (gmap_of (BridgeFDB want)) k))"
proof -
  let ?cur = "Routes (PSpec (sort_routes current))" and ?want = "Routes (PSpec desired)"
  let ?rs0 = "Routes (PSpec current)" and ?p = "sort_routes current"
  note d = assms(3,4) [unfolded routes_distinct_def]
  obtain ls where ls: "(if Local ?cur \<noteq> slice_sort (Local ?want)
      then concat_outcome (list_change (\<lambda>v. AddLocalRouteAction v ?p) (\<lambda>v. DeleteLocalRouteAction v ?p))
        (dslice (Local ?cur) (slice_sort (Local ?want))) else Ok []) = Ok ls"
      "mset (elems (Local (run_routes ls ?rs0))) = mset (elems (Local ?want))"
      "Remote (run_routes ls ?rs0) = Remote ?rs0" "BridgeFDB (run_routes ls ?rs0) = BridgeFDB ?rs0"
    using local_kind.run_diff [OF assms(1), of "Local ?cur" "slice_sort (Local ?want)" ?rs0 "Local ?rs0" ?p] d
    by auto
  let ?rs1 = "run_routes ls ?rs0"
  obtain rr where rr: "(if Remote ?cur \<noteq> slice_sort (Remote ?want)
      then concat_outcome (list_change (\<lambda>v. AddRemoteRouteAction v ?p) (\<lambda>v. DeleteRemoteRouteAction v ?p))
        (dslice (Remote ?cur) (slice_sort (Remote ?want))) else Ok []) = Ok rr"
      "mset (elems (Remote (run_routes rr ?rs1))) = mset (elems (Remote ?want))"
      "Local (run_routes rr ?rs1) = Local ?rs1" "BridgeFDB (run_routes rr ?rs1) = BridgeFDB ?rs1"
    using remote_kind.run_diff [OF assms(1), of "Remote ?cur" "slice_sort (Remote ?want)" ?rs1 "Remote ?rs1" ?p] d ls(3)
    by auto
  let ?rs2 = "run_routes rr ?rs1"
  obtain fs where fs: "(if \<not> geq_nil (BridgeFDB ?cur) (BridgeFDB ?want)
      then concat_outcome (fdb_change ?p) (dmap (BridgeFDB ?cur) (BridgeFDB ?want)) else Ok []) = Ok fs"
      "Local (run_routes fs ?rs2) = Local ?rs2" "Remote (run_routes fs ?rs2) = Remote ?rs2"
      "\<forall>k. gget (gmap_of (BridgeFDB (run_routes fs ?rs2))) k = gget (gmap_of (BridgeFDB ?want)) k"
    using run_fdb_diff [OF assms(2), of "BridgeFDB ?cur" "BridgeFDB ?want" ?rs2 ?p] d ls(4) rr(4) by auto
  have "diffRoutes dslice dmap current desired = Ok (ls @ rr @ fs)"
    unfolding diffRoutes_def Let_def ls(1) rr(1) fs(1) by simp
  then show ?thesis
    using ls rr fs by (simp add: Let_def)
qed

text \<open>
  The route actions converge: for lists without duplicates \<open>diffRoutes\<close> returns actions, and
  performing them one after the other on the routes in the pod's annotation gives the desired
  local routes, the desired remote routes (each route once) and the desired forwarding table.
\<close>

theorem diffRoutes_converges:
  assumes "slice_diff_ok dslice" "map_diff_ok dmap"
    and "routes_distinct current" "routes_distinct desired"
  shows "\<exists>acts. diffRoutes dslice dmap current desired = Ok acts
    \<and> (let rs = run_routes acts (Routes (PSpec current)); want = Routes (PSpec desired)
       in mset (elems (Local rs)) = mset (elems (Local want))
        \<and> mset (elems (Remote rs)) = mset (elems (Remote want))
        \<and> (\<forall>k. gget (gmap_of (BridgeFDB rs)) k = gget (gmap_of (BridgeFDB want)) k))"
  using diffRoutes_run_routes [OF assms] .

text \<open>The pod of the earlier example, with routes to change.\<close>

definition sample_wanted_pod :: xfrm_pod where
  "sample_wanted_pod = sample_xfrm_pod\<lparr>PSpec := (PSpec sample_xfrm_pod)\<lparr>Routes :=
     \<lparr>Local = Some [''10.0.9.0/24'', ''10.0.3.0/24''], Remote = Some [''0.0.0.0/0''],
      BridgeFDB = Some [(''a'', ''5''), (''c'', ''3'')]\<rparr>\<rparr>\<rparr>"

theorem diffRoutes_converges_witness:
  "\<exists>acts. diffRoutes ref_slice_diff ref_map_diff sample_xfrm_pod sample_wanted_pod = Ok acts
     \<and> mset (elems (Local (run_routes acts (Routes (PSpec sample_xfrm_pod)))))
       = {#''10.0.9.0/24'', ''10.0.3.0/24''#}"
proof -
  have "routes_distinct sample_xfrm_pod" "routes_distinct sample_wanted_pod"
    by (simp_all add: routes_distinct_def sample_wanted_pod_def sample_xfrm_pod_def gok_def)
  from diffRoutes_converges [OF ref_slice_diff_ok ref_map_diff_ok this]
  show ?thesis by (auto simp: Let_def sample_wanted_pod_def)
qed

end
