(* ===== verification/Diff.thy ===== *)
theory Diff
  imports Routes
begin

text \<open>
  \<open>DiffStates\<close> of \<open>ipman_controller.go\<close> and the functions it calls: which actions lead from the
  current to the desired state. The one thing they read from outside is the list of connections
  that a restctl pod has loaded (\<open>GET /configs\<close>), the parameter \<open>fetch\<close>, from the address of the
  pod to one of the outcomes the code distinguishes; and \<open>diffProxy\<close> keeps the lists
  \<open>NotLoadedConns\<close> and \<open>AllConns\<close> and two metrics in the reconciler between runs.
\<close>

section \<open>Pods that only have to exist\<close>

definition comparePods :: "'s ipman_pod option \<Rightarrow> 's ipman_pod option \<Rightarrow> bool" where
  "comparePods desired current = (case (desired, current) of
      (None, None) \<Rightarrow> True
    | (Some d, Some c) \<Rightarrow> pm_Name (Meta d) = pm_Name (Meta c)
        \<and> pm_Namespace (Meta d) = pm_Namespace (Meta c) \<and> pm_NodeName (Meta d) = pm_NodeName (Meta c)
    | _ \<Rightarrow> False)"

definition diffImmutablePod ::
  "('s ipman_pod \<Rightarrow> any_pod) \<Rightarrow> 's ipman_pod option \<Rightarrow> 's ipman_pod option \<Rightarrow> action list"
where
  "diffImmutablePod any desired current =
     (if comparePods desired current then []
      else (case (desired, current) of
          (None, Some c) \<Rightarrow> [DeletePodAction (any c)]
        | (Some d, None) \<Rightarrow> [CreatePodAction (any d)]
        | (Some d, Some c) \<Rightarrow> if \<not> comparePods desired current
            then [DeletePodAction (any c), CreatePodAction (any d)] else []
        | (None, None) \<Rightarrow> []))"

definition diffCharon :: "charon_pod option \<Rightarrow> charon_pod option \<Rightarrow> action list" where
  "diffCharon desired current = diffImmutablePod AnyCharon desired current"

definition recreatePod :: "('s ipman_pod \<Rightarrow> any_pod) \<Rightarrow> 's ipman_pod \<Rightarrow> 's ipman_pod \<Rightarrow> action list" where
  "recreatePod any old new = [DeletePodAction (any old), CreatePodAction (any new)]"

section \<open>Restctl pods and the connections they have loaded\<close>

datatype configs_reply =
    HttpFailed
  | BadStatus int
  | ReadFailed
  | BadJson
  | LoadedConns "string list"

datatype diff_error = ProxyHttp | ProxyStatus int | ProxyRead | ProxyJson

record reconciler =
  NotLoadedConns :: "string list"
  AllConns :: "string list"
  NotLoadedMetric :: nat
  ConnectionsStatusMetric :: "(string, nat) gomap"

definition updateMetric :: "reconciler \<Rightarrow> reconciler" where
  "updateMetric r = foldl (\<lambda>r name.
     let isUp = \<not> list_contains (NotLoadedConns r) name;
         r = (if isUp then r else r\<lparr>NotLoadedMetric := NotLoadedMetric r + 1\<rparr>)
     in r\<lparr>ConnectionsStatusMetric :=
          gput name (if isUp then 1 else 0) (ConnectionsStatusMetric r)\<rparr>) r (AllConns r)"

definition remember_conns :: "ipsec_conn list \<Rightarrow> string list \<Rightarrow> string list" where
  "remember_conns conns xs = foldl (\<lambda>xs c.
     if \<not> list_contains xs (cn_Name c) then xs @ [cn_Name c] else xs) xs conns"

text \<open>
  The loop over \<open>AllConns\<close> deletes from the array it iterates over and drops the slice that
  \<open>slices.DeleteFunc\<close> returns: the length stays, the kept names move down, the tail is empty
  strings, and the next index is read from the array as it then is.
\<close>

definition forget_conns :: "ipsec_conn list \<Rightarrow> string list \<Rightarrow> string list" where
  "forget_conns conns xs = foldl (\<lambda>xs i.
     let n = xs ! i
     in if \<not> list_ex (\<lambda>c. cn_Name c = n) conns then delete_func_in_place [] (\<lambda>s. s = n) xs else xs)
     xs [0..<length xs]"

definition drop_empty :: "string list \<Rightarrow> string list" where
  "drop_empty xs = filter (\<lambda>n. n \<noteq> []) xs"

text \<open>One round of the loop that looks for missing connections; the flag is \<open>allLoaded\<close>.\<close>

definition check_missing ::
  "string list \<Rightarrow> string list \<times> bool \<Rightarrow> ipsec_conn \<Rightarrow> string list \<times> bool"
where
  "check_missing loaded acc c = (case acc of (notLoaded, allLoaded) \<Rightarrow>
     if \<not> list_contains loaded (cn_Name c) then
       (if \<not> list_contains notLoaded (cn_Name c) then (notLoaded @ [cn_Name c], False)
        else (notLoaded, allLoaded))
     else (delete_func_in_place [] (\<lambda>name. name = cn_Name c) notLoaded, allLoaded))"

definition diffProxy ::
  "(string \<Rightarrow> configs_reply) \<Rightarrow> reconciler \<Rightarrow> restctl_pod option \<Rightarrow> restctl_pod option
   \<Rightarrow> ipsec_conn list \<Rightarrow> (diff_error, action list) outcome \<times> reconciler"
where
  "diffProxy fetch r desired current conns =
     (case desired of
        None \<Rightarrow> (case current of
            None \<Rightarrow> (Ok [], r)
          | Some c \<Rightarrow> (Ok [DeletePodAction (AnyRestctl c)], r))
      | Some d \<Rightarrow>
        let connsPerGroup = filter (\<lambda>c. CharonGroupRef_Equals (PGroup d) (Group (Spec c))) conns
        in (case current of
            None \<Rightarrow> (Ok [CreatePodAction (AnyRestctl d), OverrideConfigAction (pm_Name (Meta d)) connsPerGroup], r)
          | Some cur \<Rightarrow>
            if \<not> comparePods desired current
            then (Ok [DeletePodAction (AnyRestctl cur), CreatePodAction (AnyRestctl d),
                      OverrideConfigAction (pm_Name (Meta d)) connsPerGroup], r)
            else (case fetch (pm_IP (Meta cur)) of
                HttpFailed \<Rightarrow> (Err ProxyHttp, r)
              | BadStatus n \<Rightarrow> (Err (ProxyStatus n), r)
              | ReadFailed \<Rightarrow> (Err ProxyRead, r)
              | BadJson \<Rightarrow> (Err ProxyJson, r)
              | LoadedConns loaded \<Rightarrow>
                let r = updateMetric r;
                    r = r\<lparr>AllConns := drop_empty (forget_conns conns (remember_conns conns (AllConns r)))\<rparr>;
                    (notLoaded, allLoaded) = foldl (check_missing loaded) (NotLoadedConns r, True) connsPerGroup;
                    r = r\<lparr>NotLoadedConns := notLoaded\<rparr>;
                    override = [OverrideConfigAction (pm_Name (Meta cur)) connsPerGroup]
                in if \<not> allLoaded then (Ok override, r)
                   else if list_ex (\<lambda>l. \<not> list_ex (\<lambda>c. cn_Name c = l) connsPerGroup) loaded
                     then (Ok override, r)
                   else (Ok [], r\<lparr>NotLoadedConns := drop_empty (NotLoadedConns r)\<rparr>))))"

section \<open>Xfrm pods\<close>

definition empty_routes :: routes where
  "empty_routes = \<lparr>Local = None, Remote = None, BridgeFDB = None\<rparr>"

definition createXfrmPod :: "xfrm_pod \<Rightarrow> action list" where
  "createXfrmPod x =
     (let rs = Routes (PSpec x); x = x\<lparr>PSpec := (PSpec x)\<lparr>Routes := empty_routes\<rparr>\<rparr>
      in [CreatePodAction (AnyXfrm x)]
         @ map (\<lambda>lr. AddLocalRouteAction lr x) (elems (Local rs))
         @ map (\<lambda>rr. AddRemoteRouteAction rr x) (elems (Remote rs))
         @ map (\<lambda>(vxlanIP, podIP). AddBridgeFDBAction vxlanIP podIP x) (gmap_of (BridgeFDB rs)))"

definition compareXfrmPods :: "xfrm_pod \<Rightarrow> xfrm_pod \<Rightarrow> bool" where
  "compareXfrmPods a b =
     (let metaEqual = (pm_Name (Meta a) = pm_Name (Meta b)
            \<and> pm_Namespace (Meta a) = pm_Namespace (Meta b)
            \<and> pm_NodeName (Meta a) = pm_NodeName (Meta b));
          p = Props (PSpec a); q = Props (PSpec b);
          propsEqual = (OwnerChild p = OwnerChild q \<and> OwnerConnection p = OwnerConnection q
            \<and> InterfaceID p = InterfaceID q \<and> x_XfrmIP p = x_XfrmIP q \<and> x_VxlanIP p = x_VxlanIP q);
          s = Routes (PSpec a); t = Routes (PSpec b);
          routesEqual = (Local s = Local t \<and> Remote s = Remote t \<and> geq_nil (BridgeFDB s) (BridgeFDB t))
      in metaEqual \<and> propsEqual \<and> routesEqual)"

text \<open>
  The routes of the current pod after \<open>diffRoutes\<close> has sorted its lists in place: both lists, or
  the local ones only when it returned early on a bad local change.
\<close>

definition sorted_by_diffRoutes ::
  "(string slice \<Rightarrow> string slice \<Rightarrow> change list) \<Rightarrow> xfrm_pod \<Rightarrow> xfrm_pod \<Rightarrow> xfrm_pod"
where
  "sorted_by_diffRoutes dslice current desired =
     (let s = sort_routes current;
          clr = Local (Routes (PSpec s));
          dlr = slice_sort (Local (Routes (PSpec desired)))
      in if clr \<noteq> dlr \<and> \<not> is_Ok (concat_outcome
             (list_change (\<lambda>v. AddLocalRouteAction v s) (\<lambda>v. DeleteLocalRouteAction v s)) (dslice clr dlr))
         then current\<lparr>PSpec := (PSpec current)\<lparr>Routes := (Routes (PSpec current))\<lparr>Local := clr\<rparr>\<rparr>\<rparr>
         else s)"

text \<open>The body of the loop over the desired xfrm pods: the actions and the current pods afterwards.\<close>

definition diff_xfrm ::
  "(string slice \<Rightarrow> string slice \<Rightarrow> change list)
   \<Rightarrow> ((string, string) gomap option \<Rightarrow> (string, string) gomap option \<Rightarrow> change list)
   \<Rightarrow> xfrm_pod list \<Rightarrow> xfrm_pod \<Rightarrow> (diff_error, action list \<times> xfrm_pod list) outcome"
where
  "diff_xfrm dslice dmap current x =
     (case find_index (\<lambda>p. pm_Name (Meta p) = pm_Name (Meta x)) current of
        None \<Rightarrow> Ok (createXfrmPod x, current)
      | Some idx \<Rightarrow>
        let cur = current ! idx in
        if compareXfrmPods x cur then Ok ([], current)
        else if Props (PSpec x) \<noteq> Props (PSpec cur) then Ok (recreatePod AnyXfrm cur x, current)
        else if pm_NodeName (Meta x) \<noteq> pm_NodeName (Meta cur)
          then Ok (recreatePod AnyXfrm cur x, current)
        else if \<not> routes_deep_eq (Routes (PSpec x)) (Routes (PSpec cur)) then
          (let current' = current[idx := sorted_by_diffRoutes dslice cur x]
           in (case diffRoutes dslice dmap cur x of
                 Ok actions \<Rightarrow> Ok (actions, current')
               | Err _ \<Rightarrow> Ok ([], current')
               | Panic \<Rightarrow> Panic))
        else Ok ([], current))"

fun diff_desired ::
  "(string slice \<Rightarrow> string slice \<Rightarrow> change list)
   \<Rightarrow> ((string, string) gomap option \<Rightarrow> (string, string) gomap option \<Rightarrow> change list)
   \<Rightarrow> xfrm_pod list \<Rightarrow> xfrm_pod list \<Rightarrow> (diff_error, action list \<times> xfrm_pod list) outcome"
where
  "diff_desired dslice dmap [] current = Ok ([], current)"
| "diff_desired dslice dmap (x # xs) current =
     obind (diff_xfrm dslice dmap current x) (\<lambda>(acts, current').
     obind (diff_desired dslice dmap xs current') (\<lambda>(rest, current'').
       Ok (acts @ rest, current'')))"

text \<open>
  \<open>compareXfrmPodsLists\<close> sorts both lists in place when they have the same length, so the rest of
  \<open>diffXfrms\<close> sees them sorted.
\<close>

definition diffXfrms ::
  "(string slice \<Rightarrow> string slice \<Rightarrow> change list)
   \<Rightarrow> ((string, string) gomap option \<Rightarrow> (string, string) gomap option \<Rightarrow> change list)
   \<Rightarrow> xfrm_pod list \<Rightarrow> xfrm_pod list \<Rightarrow> (diff_error, action list) outcome"
where
  "diffXfrms dslice dmap desired0 current0 =
     (let same_length = (length desired0 = length current0);
          desired = (if same_length then sortPods desired0 else desired0);
          current = (if same_length then sortPods current0 else current0)
      in if same_length \<and> list_all2 compareXfrmPods desired current then Ok []
         else obind (diff_desired dslice dmap desired current) (\<lambda>(acts, current').
           Ok (acts @ map (\<lambda>x. DeletePodAction (AnyXfrm x))
             (filter (\<lambda>x. \<not> binary_search_found (\<lambda>p. pm_Name (Meta p)) desired (pm_Name (Meta x))) current'))))"

section \<open>Connection states\<close>

definition getIPSec :: "ipsec_state list \<Rightarrow> string \<Rightarrow> ipsec_state option" where
  "getIPSec items name = find (\<lambda>i. is_Name i = name) items"

definition firstChildName :: "(string, string) gomap option \<Rightarrow> string option" where
  "firstChildName children = (case sort (gkeys (gmap_of children)) of [] \<Rightarrow> None | n # _ \<Rightarrow> Some n)"

definition diff_child :: "string \<Rightarrow> ipsec_state \<Rightarrow> ipsec_state \<Rightarrow> string \<Rightarrow> action list" where
  "diff_child restctlIP dState cState childName =
     (case gget (gmap_of (is_ChildrenState cState)) childName of
        None \<Rightarrow> [UpdateChildConnectionStatus (is_Name dState)]
      | Some val \<Rightarrow>
          if is_State cState = [] then [UpdateChildConnectionStatus (is_Name dState)]
          else if val \<noteq> ''UP'' then [RestartChildConnectionAction (is_Name dState) childName restctlIP]
          else [])"

definition diff_ipsec :: "ipsec_state list \<Rightarrow> string \<Rightarrow> ipsec_state \<Rightarrow> action list" where
  "diff_ipsec current restctlIP dState =
     (case getIPSec current (is_Name dState) of
        None \<Rightarrow> []
      | Some cState \<Rightarrow>
        (if is_State cState = [] \<or> is_ChildrenState cState = None
         then [UpdateChildConnectionStatus (is_Name dState)] else [])
        @ (if is_State cState = ''Down''
           then (case firstChildName (is_ChildrenState dState) of
                   Some childName \<Rightarrow> [RestartChildConnectionAction (is_Name cState) childName restctlIP]
                 | None \<Rightarrow> [])
           else concat (map (diff_child restctlIP dState cState) (gkeys (gmap_of (is_ChildrenState dState))))))"

definition diffIPSecs :: "ipsec_state list \<Rightarrow> ipsec_state list \<Rightarrow> string \<Rightarrow> action list" where
  "diffIPSecs desired current restctlIP =
     (let desiredFiltered = filter (\<lambda>d. list_ex (\<lambda>s. is_Name s = is_Name d \<and> \<not> is_Name s = []) current) desired
      in concat (map (diff_ipsec current restctlIP) desiredFiltered))"

section \<open>The whole state\<close>

definition findGroup :: "charon_group_ref \<Rightarrow> cluster_state \<Rightarrow> nat option" where
  "findGroup ref s = find_index (\<lambda>g. gr_name (GroupRef g) = gr_name ref
     \<and> gr_namespace (GroupRef g) = gr_namespace ref) (Groups s)"

definition deleteNode :: "group_state \<Rightarrow> action list" where
  "deleteNode ns =
     (case Charon ns of None \<Rightarrow> [] | Some p \<Rightarrow> [DeletePodAction (AnyCharon p)])
     @ (case Proxy ns of None \<Rightarrow> [] | Some p \<Rightarrow> [DeletePodAction (AnyRestctl p)])
     @ map (\<lambda>x. DeletePodAction (AnyXfrm x)) (Xfrms ns)"

text \<open>\<open>reflect.DeepEqual\<close> on the parts of a group; a nil and an empty list of xfrm pods, which it
  distinguishes, both lead to no action in \<open>diffXfrms\<close>.\<close>

definition opt_pod_deep_eq :: "'s ipman_pod option \<Rightarrow> 's ipman_pod option \<Rightarrow> bool" where
  "opt_pod_deep_eq a b = (case (a, b) of
      (None, None) \<Rightarrow> True | (Some x, Some y) \<Rightarrow> ipman_pod_deep_eq (=) x y | _ \<Rightarrow> False)"

definition xfrms_deep_eq :: "xfrm_pod list \<Rightarrow> xfrm_pod list \<Rightarrow> bool" where
  "xfrms_deep_eq a b = list_all2 (ipman_pod_deep_eq xfrm_spec_deep_eq) a b"

definition ipsec_deep_eq :: "ipsec_state \<Rightarrow> ipsec_state \<Rightarrow> bool" where
  "ipsec_deep_eq a b \<longleftrightarrow> is_Name a = is_Name b \<and> is_State a = is_State b
     \<and> geq_nil (is_ChildrenState a) (is_ChildrenState b) \<and> is_Group a = is_Group b"

definition group_deep_eq :: "group_state \<Rightarrow> group_state \<Rightarrow> bool" where
  "group_deep_eq a b \<longleftrightarrow> opt_pod_deep_eq (Charon a) (Charon b) \<and> opt_pod_deep_eq (Proxy a) (Proxy b)
     \<and> xfrms_deep_eq (Xfrms a) (Xfrms b) \<and> GroupRef a = GroupRef b
     \<and> list_all2 ipsec_deep_eq (IPSecs a) (IPSecs b)"

definition diff_group ::
  "(string slice \<Rightarrow> string slice \<Rightarrow> change list)
   \<Rightarrow> ((string, string) gomap option \<Rightarrow> (string, string) gomap option \<Rightarrow> change list)
   \<Rightarrow> (string \<Rightarrow> configs_reply) \<Rightarrow> ipsec_conn list \<Rightarrow> reconciler \<Rightarrow> group_state \<Rightarrow> group_state
   \<Rightarrow> (diff_error, action list) outcome \<times> reconciler"
where
  "diff_group dslice dmap fetch conns r gs cgs =
     (if group_deep_eq gs cgs then (Ok [], r)
      else
        let charonActions = (if opt_pod_deep_eq (Charon gs) (Charon cgs) then []
              else diffCharon (Charon gs) (Charon cgs));
            (proxyActions, r) = (if opt_pod_deep_eq (Proxy gs) (Proxy cgs) then (Ok [], r)
              else diffProxy fetch r (Proxy gs) (Proxy cgs) conns);
            xfrmActions = (if xfrms_deep_eq (Xfrms gs) (Xfrms cgs) then Ok []
              else diffXfrms dslice dmap (Xfrms gs) (Xfrms cgs));
            ipsecActions = (case Proxy cgs of None \<Rightarrow> []
              | Some p \<Rightarrow> diffIPSecs (IPSecs gs) (IPSecs cgs) (pm_IP (Meta p)))
        in (obind proxyActions (\<lambda>ps. obind xfrmActions (\<lambda>xs. Ok (charonActions @ ps @ xs @ ipsecActions))), r))"

fun diff_groups ::
  "(string slice \<Rightarrow> string slice \<Rightarrow> change list)
   \<Rightarrow> ((string, string) gomap option \<Rightarrow> (string, string) gomap option \<Rightarrow> change list)
   \<Rightarrow> (string \<Rightarrow> configs_reply) \<Rightarrow> ipsec_conn list \<Rightarrow> cluster_state \<Rightarrow> reconciler \<Rightarrow> group_state list
   \<Rightarrow> (diff_error, action list) outcome \<times> reconciler"
where
  "diff_groups dslice dmap fetch conns current r [] = (Ok [], r)"
| "diff_groups dslice dmap fetch conns current r (gs # gss) =
     (case findGroup (GroupRef gs) current of
        None \<Rightarrow> diff_groups dslice dmap fetch conns current r gss
      | Some idx \<Rightarrow>
        (case diff_group dslice dmap fetch conns r gs (Groups current ! idx) of
           (Ok acts, r') \<Rightarrow>
             (case diff_groups dslice dmap fetch conns current r' gss of
                (rest, r'') \<Rightarrow> (obind rest (\<lambda>as. Ok (acts @ as)), r''))
         | (Err e, r') \<Rightarrow> (Err e, r')
         | (Panic, r') \<Rightarrow> (Panic, r')))"

definition DiffStates ::
  "(string slice \<Rightarrow> string slice \<Rightarrow> change list)
   \<Rightarrow> ((string, string) gomap option \<Rightarrow> (string, string) gomap option \<Rightarrow> change list)
   \<Rightarrow> (string \<Rightarrow> configs_reply) \<Rightarrow> reconciler \<Rightarrow> cluster_state \<Rightarrow> cluster_state \<Rightarrow> ipsec_conn list
   \<Rightarrow> (diff_error, action list) outcome \<times> reconciler"
where
  "DiffStates dslice dmap fetch r desired current conns =
     (let monitorActions =
            (if PodMonitor desired = True \<and> PodMonitor current = False then [CreateMonitorAction] else [])
            @ (if PodMonitor desired = False \<and> PodMonitor current = True then [DeleteMonitorAction] else []);
          gone = filter (\<lambda>cgs. findGroup (GroupRef cgs) desired = None) (Groups current);
          (groupActions, r') = diff_groups dslice dmap fetch conns current r (Groups desired)
      in (obind groupActions (\<lambda>as. Ok (monitorActions @ as @ concat (map deleteNode gone))), r'))"

end
