(* ===== verification/Diff_Xfrms.thy ===== *)
theory Diff_Xfrms
  imports Diff
begin

text \<open>
  What the actions of \<open>diffXfrms\<close> do to the xfrm pods, when every action is carried out: a world of
  pods by name, each with the specification in its annotation and the routes installed in its
  network namespace. Creating a pod writes the annotation and installs nothing; a route action
  changes both, as the \<open>Do\<close> methods do.
\<close>

type_synonym xfrm_world = "string \<Rightarrow> (xfrm_pod \<times> routes) option"

abbreviation xname :: "xfrm_pod \<Rightarrow> string" where
  "xname p \<equiv> pm_Name (Meta p)"

abbreviation xroutes :: "xfrm_pod \<Rightarrow> routes" where
  "xroutes p \<equiv> Routes (PSpec p)"

definition with_routes :: "routes \<Rightarrow> xfrm_pod \<Rightarrow> xfrm_pod" where
  "with_routes rs p = p\<lparr>PSpec := (PSpec p)\<lparr>Routes := rs\<rparr>\<rparr>"

lemma with_routes_fields [simp]:
  "Meta (with_routes rs p) = Meta p" "xroutes (with_routes rs p) = rs"
  "Props (PSpec (with_routes rs p)) = Props (PSpec p)"
  "with_routes r (with_routes rs p) = with_routes r p" "with_routes (xroutes p) p = p"
  by (simp_all add: with_routes_def)

fun route_target :: "action \<Rightarrow> xfrm_pod option" where
  "route_target (AddRemoteRouteAction _ p) = Some p"
| "route_target (DeleteRemoteRouteAction _ p) = Some p"
| "route_target (AddLocalRouteAction _ p) = Some p"
| "route_target (DeleteLocalRouteAction _ p) = Some p"
| "route_target (AddBridgeFDBAction _ _ p) = Some p"
| "route_target (DeleteBridgeFDBAction _ _ p) = Some p"
| "route_target _ = None"

definition act_on_xfrms :: "action \<Rightarrow> xfrm_world \<Rightarrow> xfrm_world" where
  "act_on_xfrms a w = (case a of
      CreatePodAction (AnyXfrm p) \<Rightarrow> w(xname p \<mapsto> (p, empty_routes))
    | DeletePodAction (AnyXfrm p) \<Rightarrow> w(xname p := None)
    | _ \<Rightarrow> (case route_target a of
          None \<Rightarrow> w
        | Some p \<Rightarrow> (case w (xname p) of
            None \<Rightarrow> w
          | Some (q, inst) \<Rightarrow>
              w(xname p \<mapsto> (with_routes (route_step a (xroutes q)) q, route_step a inst)))))"

definition run_xfrms :: "action list \<Rightarrow> xfrm_world \<Rightarrow> xfrm_world" where
  "run_xfrms acts w = foldl (\<lambda>w a. act_on_xfrms a w) w acts"

lemma run_xfrms_simps [simp]:
  "run_xfrms [] w = w"
  "run_xfrms (a # acts) w = run_xfrms acts (act_on_xfrms a w)"
  "run_xfrms (xs @ ys) w = run_xfrms ys (run_xfrms xs w)"
  by (simp_all add: run_xfrms_def)

definition xfrm_world_of :: "xfrm_pod list \<Rightarrow> xfrm_world" where
  "xfrm_world_of ps n = map_option (\<lambda>p. (p, xroutes p)) (find (\<lambda>p. xname p = n) ps)"

lemma act_on_xfrms_simps [simp]:
  "act_on_xfrms (CreatePodAction (AnyXfrm p)) w = w(xname p \<mapsto> (p, empty_routes))"
  "act_on_xfrms (DeletePodAction (AnyXfrm p)) w = w(xname p := None)"
  by (simp_all add: act_on_xfrms_def)

lemma act_on_xfrms_route:
  "route_target a = Some p \<Longrightarrow> act_on_xfrms a w = (case w (xname p) of None \<Rightarrow> w
     | Some (q, inst) \<Rightarrow> w(xname p \<mapsto> (with_routes (route_step a (xroutes q)) q, route_step a inst)))"
  by (cases a) (auto simp: act_on_xfrms_def)

text \<open>Route actions for one pod.\<close>

lemma run_xfrms_routes:
  assumes "\<forall>a \<in> set acts. \<exists>p. route_target a = Some p \<and> xname p = n" and "w n = Some (q, inst)"
  shows "run_xfrms acts w = w(n \<mapsto> (with_routes (run_routes acts (xroutes q)) q, run_routes acts inst))"
  using assms
proof (induction acts arbitrary: w q inst)
  case Nil
  then show ?case by (auto simp: fun_upd_idem)
next
  case (Cons a acts)
  then obtain p where "route_target a = Some p" "xname p = n" by auto
  with Cons.prems have a: "act_on_xfrms a w
      = w(n \<mapsto> (with_routes (route_step a (xroutes q)) q, route_step a inst))"
    by (simp add: act_on_xfrms_route)
  have "run_xfrms acts (act_on_xfrms a w) = (act_on_xfrms a w)(n \<mapsto>
      (with_routes (run_routes acts (xroutes (with_routes (route_step a (xroutes q)) q)))
         (with_routes (route_step a (xroutes q)) q), run_routes acts (route_step a inst)))"
    by (rule Cons.IH) (use Cons.prems a in auto)
  with a show ?case by simp
qed

definition routes_equiv :: "routes \<Rightarrow> routes \<Rightarrow> bool" where
  "routes_equiv a b \<longleftrightarrow> mset (elems (Local a)) = mset (elems (Local b))
     \<and> mset (elems (Remote a)) = mset (elems (Remote b))
     \<and> (\<forall>k. gget (gmap_of (BridgeFDB a)) k = gget (gmap_of (BridgeFDB b)) k)"

lemma routes_equiv_refl [simp]: "routes_equiv r r"
  by (simp add: routes_equiv_def)

lemma routes_deep_eq_equiv:
  "routes_deep_eq a b \<Longrightarrow> gok (gmap_of (BridgeFDB a)) \<Longrightarrow> gok (gmap_of (BridgeFDB b)) \<Longrightarrow> routes_equiv b a"
  by (cases "BridgeFDB a"; cases "BridgeFDB b")
    (simp_all add: routes_deep_eq_def routes_equiv_def geq_nil_def geq_iff)

section \<open>Creating a pod\<close>

lemma run_local_adds:
  "mset (elems (Local (run_routes (map (\<lambda>v. AddLocalRouteAction v p) vs) rs)))
     = mset vs + mset (elems (Local rs))"
  "Remote (run_routes (map (\<lambda>v. AddLocalRouteAction v p) vs) rs) = Remote rs"
  "BridgeFDB (run_routes (map (\<lambda>v. AddLocalRouteAction v p) vs) rs) = BridgeFDB rs"
  by (induction vs arbitrary: rs) simp_all

lemma run_remote_adds:
  "mset (elems (Remote (run_routes (map (\<lambda>v. AddRemoteRouteAction v p) vs) rs)))
     = mset vs + mset (elems (Remote rs))"
  "Local (run_routes (map (\<lambda>v. AddRemoteRouteAction v p) vs) rs) = Local rs"
  "BridgeFDB (run_routes (map (\<lambda>v. AddRemoteRouteAction v p) vs) rs) = BridgeFDB rs"
  by (induction vs arbitrary: rs) simp_all

lemma run_fdb_adds:
  "gmap_of (BridgeFDB (run_routes (map (\<lambda>(v, u). AddBridgeFDBAction v u p) kvs) rs))
     = gcopy (gmap_of (BridgeFDB rs)) kvs"
  "Local (run_routes (map (\<lambda>(v, u). AddBridgeFDBAction v u p) kvs) rs) = Local rs"
  "Remote (run_routes (map (\<lambda>(v, u). AddBridgeFDBAction v u p) kvs) rs) = Remote rs"
  by (induction kvs arbitrary: rs) (auto simp: gcopy_def)

lemma run_createXfrmPod:
  assumes "routes_distinct x"
  shows "\<exists>rs. run_xfrms (createXfrmPod x) w = w(xname x \<mapsto> (with_routes rs x, rs))
    \<and> routes_equiv rs (xroutes x)"
proof -
  let ?x = "with_routes empty_routes x"
  let ?acts = "map (\<lambda>lr. AddLocalRouteAction lr ?x) (elems (Local (xroutes x)))
    @ map (\<lambda>rr. AddRemoteRouteAction rr ?x) (elems (Remote (xroutes x)))
    @ map (\<lambda>(v, u). AddBridgeFDBAction v u ?x) (gmap_of (BridgeFDB (xroutes x)))"
  let ?w = "w(xname x \<mapsto> (?x, empty_routes))"
  have c: "createXfrmPod x = CreatePodAction (AnyXfrm ?x) # ?acts"
    by (simp add: createXfrmPod_def Let_def with_routes_def)
  have "run_xfrms ?acts ?w
      = ?w(xname x \<mapsto> (with_routes (run_routes ?acts (xroutes ?x)) ?x, run_routes ?acts empty_routes))"
    by (rule run_xfrms_routes) auto
  moreover have "routes_equiv (run_routes ?acts empty_routes) (xroutes x)"
    using assms by (simp add: routes_equiv_def run_local_adds run_remote_adds run_fdb_adds gget_copy
        routes_distinct_def empty_routes_def split: option.split)
  ultimately show ?thesis
    unfolding c by (intro exI [of _ "run_routes ?acts empty_routes"]) simp
qed

section \<open>Changing routes\<close>

lemma concat_outcome_all:
  assumes "concat_outcome f xs = Ok ys" and "\<And>x zs. f x = Ok zs \<Longrightarrow> \<forall>z \<in> set zs. P z"
  shows "\<forall>y \<in> set ys. P y"
  using assms(1)
proof (induction xs arbitrary: ys)
  case (Cons x xs)
  then obtain a b where "f x = Ok a" "concat_outcome f xs = Ok b" "ys = a @ b"
    by (auto simp: obind_Ok_iff)
  with Cons.IH [of b] assms(2) [of x a] show ?case by auto
qed simp

lemma list_change_targets:
  assumes "concat_outcome (list_change mkAdd mkDel) cl = Ok acts"
    and "\<And>v. route_target (mkAdd v) = Some p" "\<And>v. route_target (mkDel v) = Some p"
  shows "\<forall>a \<in> set acts. route_target a = Some p"
  using assms(1)
  by (rule concat_outcome_all)
    (use assms(2,3) in \<open>auto simp: list_change_def split: if_splits option.splits gval.splits\<close>)

lemma fdb_change_targets:
  assumes "concat_outcome (fdb_change p) cl = Ok acts"
  shows "\<forall>a \<in> set acts. route_target a = Some p"
  using assms
proof (rule concat_outcome_all)
  show "fdb_change p c = Ok as \<Longrightarrow> \<forall>a \<in> set as. route_target a = Some p" for c as
    by (cases "ch_path c")
      (auto simp: fdb_change_def Let_def split: if_splits option.splits gval.splits)
qed

lemma diffRoutes_targets:
  assumes "diffRoutes dslice dmap cur x = Ok acts"
  shows "\<forall>a \<in> set acts. route_target a = Some (sort_routes cur)"
proof -
  let ?p = "sort_routes cur"
  have list: "(if b then concat_outcome (list_change mkAdd mkDel) cl else Ok []) = Ok as
      \<Longrightarrow> (\<And>v. route_target (mkAdd v) = Some ?p) \<Longrightarrow> (\<And>v. route_target (mkDel v) = Some ?p)
      \<Longrightarrow> \<forall>a \<in> set as. route_target a = Some ?p" for b mkAdd mkDel cl as
    using list_change_targets [of mkAdd mkDel cl as ?p] by (cases b) auto
  have fdb: "(if b then concat_outcome (fdb_change ?p) cl else Ok []) = Ok as
      \<Longrightarrow> \<forall>a \<in> set as. route_target a = Some ?p" for b cl as
    using fdb_change_targets [of ?p cl as] by (cases b) auto
  obtain ls rr fs where
    "\<forall>a \<in> set ls. route_target a = Some ?p" "\<forall>a \<in> set rr. route_target a = Some ?p"
    "\<forall>a \<in> set fs. route_target a = Some ?p" and "acts = ls @ rr @ fs"
    using assms unfolding diffRoutes_def Let_def obind_Ok_iff
    by (elim exE conjE)
      (rule that, rule list, assumption, simp, simp, rule list, assumption, simp, simp,
       rule fdb, assumption, simp)
  then show ?thesis by auto
qed

lemma diffRoutes_run:
  assumes "slice_diff_ok dslice" "map_diff_ok dmap" "routes_distinct cur" "routes_distinct x"
    and "w (xname cur) = Some (cur, xroutes cur)"
  shows "\<exists>acts rs. diffRoutes dslice dmap cur x = Ok acts
    \<and> run_xfrms acts w = w(xname cur \<mapsto> (with_routes rs cur, rs)) \<and> routes_equiv rs (xroutes x)"
proof -
  obtain acts where acts: "diffRoutes dslice dmap cur x = Ok acts"
    "routes_equiv (run_routes acts (xroutes cur)) (xroutes x)"
    using diffRoutes_run_routes [OF assms(1-4)] by (auto simp: routes_equiv_def Let_def)
  have "run_xfrms acts w = w(xname cur \<mapsto> (with_routes (run_routes acts (xroutes cur)) cur,
      run_routes acts (xroutes cur)))"
    using diffRoutes_targets [OF acts(1)] assms(5) by (intro run_xfrms_routes) auto
  with acts show ?thesis by blast
qed

section \<open>One desired pod\<close>

lemma find_index_find:
  "find_index P xs = None \<Longrightarrow> find P xs = None"
  "find_index P xs = Some i \<Longrightarrow> find P xs = Some (xs ! i) \<and> i < length xs \<and> P (xs ! i)"
  by (induction xs arbitrary: i) (auto split: if_splits)

lemma find_update:
  "i < length xs \<Longrightarrow> \<not> P (xs ! i) \<Longrightarrow> \<not> P y \<Longrightarrow> find P (xs[i := y]) = find P xs"
proof (induction xs arbitrary: i)
  case (Cons x xs)
  then show ?case by (cases i) auto
qed simp

lemma map_update_same: "i < length xs \<Longrightarrow> f y = f (xs ! i) \<Longrightarrow> map f (xs[i := y]) = map f xs"
  by (simp add: map_update list_update_same_conv)

lemma sorted_by_diffRoutes_keeps:
  "xname (sorted_by_diffRoutes dslice p x) = xname p"
  "routes_distinct p \<Longrightarrow> routes_distinct (sorted_by_diffRoutes dslice p x)"
  by (simp_all add: sorted_by_diffRoutes_def Let_def routes_distinct_def)

text \<open>The pod has to be replaced: its properties or its node differ.\<close>

definition must_recreate :: "xfrm_pod list \<Rightarrow> xfrm_pod \<Rightarrow> bool" where
  "must_recreate current x = (case find (\<lambda>p. xname p = xname x) current of
      None \<Rightarrow> False
    | Some p \<Rightarrow> Props (PSpec x) \<noteq> Props (PSpec p) \<or> pm_NodeName (Meta x) \<noteq> pm_NodeName (Meta p))"

text \<open>A pod of the world is as desired: properties, node, routes on record and routes installed.\<close>

definition recorded_as :: "xfrm_pod \<Rightarrow> xfrm_pod \<Rightarrow> bool" where
  "recorded_as p x \<longleftrightarrow> Props (PSpec p) = Props (PSpec x) \<and> pm_NodeName (Meta p) = pm_NodeName (Meta x)
     \<and> routes_equiv (xroutes p) (xroutes x)"

lemma compareXfrmPods_recorded:
  assumes "compareXfrmPods x p" "routes_distinct x" "routes_distinct p"
  shows "recorded_as p x"
proof -
  have "routes_deep_eq (xroutes x) (xroutes p)"
    using assms(1) by (simp add: compareXfrmPods_def Let_def routes_deep_eq_def)
  with assms have "routes_equiv (xroutes p) (xroutes x)"
    by (intro routes_deep_eq_equiv) (auto simp: routes_distinct_def)
  with assms(1) show ?thesis by (auto simp: compareXfrmPods_def Let_def recorded_as_def)
qed

lemma diff_xfrm_step:
  assumes ok: "slice_diff_ok dslice" "map_diff_ok dmap"
    and dist: "routes_distinct x" "\<forall>p \<in> set current. routes_distinct p"
    and w: "w (xname x) = xfrm_world_of current (xname x)"
  obtains acts current' p inst where
    "diff_xfrm dslice dmap current x = Ok (acts, current')"
    "map xname current' = map xname current"
    "\<forall>p \<in> set current'. routes_distinct p"
    "\<And>n. n \<noteq> xname x \<Longrightarrow> find (\<lambda>p. xname p = n) current' = find (\<lambda>p. xname p = n) current"
    "run_xfrms acts w = w(xname x \<mapsto> (p, inst))"
    "recorded_as p x" "\<not> must_recreate current x \<Longrightarrow> routes_equiv inst (xroutes x)"
proof (cases "find_index (\<lambda>p. xname p = xname x) current")
  case None
  obtain rs where "run_xfrms (createXfrmPod x) w = w(xname x \<mapsto> (with_routes rs x, rs))"
    "routes_equiv rs (xroutes x)"
    using run_createXfrmPod [OF dist(1)] by blast
  with None show ?thesis
    by (intro that [of "createXfrmPod x" current "with_routes rs x" rs])
      (use dist in \<open>simp_all add: diff_xfrm_def recorded_as_def\<close>)
next
  case (Some i)
  let ?cur = "current ! i"
  from find_index_find(2) [OF Some] have f: "find (\<lambda>p. xname p = xname x) current = Some ?cur"
    and i: "i < length current" and n: "xname ?cur = xname x" by auto
  from w f have wx: "w (xname x) = Some (?cur, xroutes ?cur)" by (simp add: xfrm_world_of_def)
  have dc: "routes_distinct ?cur" using dist(2) i by simp
  consider (equal) "compareXfrmPods x ?cur"
    | (recreate) "\<not> compareXfrmPods x ?cur"
        "Props (PSpec x) \<noteq> Props (PSpec ?cur) \<or> pm_NodeName (Meta x) \<noteq> pm_NodeName (Meta ?cur)"
    | (same) "\<not> compareXfrmPods x ?cur" "Props (PSpec x) = Props (PSpec ?cur)"
        "pm_NodeName (Meta x) = pm_NodeName (Meta ?cur)"
        "routes_deep_eq (xroutes x) (xroutes ?cur)"
    | (changed) "\<not> compareXfrmPods x ?cur" "Props (PSpec x) = Props (PSpec ?cur)"
        "pm_NodeName (Meta x) = pm_NodeName (Meta ?cur)"
        "\<not> routes_deep_eq (xroutes x) (xroutes ?cur)"
    by blast
  then show ?thesis
  proof cases
    case equal
    have r: "recorded_as ?cur x" by (rule compareXfrmPods_recorded [OF equal dist(1) dc])
    show ?thesis
      by (rule that [of "[]" current ?cur "xroutes ?cur"])
        (use Some equal r wx dist in \<open>simp_all add: diff_xfrm_def Let_def recorded_as_def fun_upd_idem\<close>)
  next
    case recreate
    show ?thesis
      by (rule that [of "recreatePod AnyXfrm ?cur x" current x empty_routes])
        (use Some recreate f n dist in \<open>auto simp: diff_xfrm_def Let_def recreatePod_def recorded_as_def
          must_recreate_def\<close>)
  next
    case same
    have "routes_equiv (xroutes ?cur) (xroutes x)"
      using same(4) dist(1) dc by (intro routes_deep_eq_equiv) (auto simp: routes_distinct_def)
    then show ?thesis
      by (intro that [of "[]" current ?cur "xroutes ?cur"])
        (use Some same wx dist in \<open>simp_all add: diff_xfrm_def Let_def recorded_as_def fun_upd_idem\<close>)
  next
    case changed
    let ?cur' = "sorted_by_diffRoutes dslice ?cur x"
    obtain acts rs where acts: "diffRoutes dslice dmap ?cur x = Ok acts"
      "run_xfrms acts w = w(xname x \<mapsto> (with_routes rs ?cur, rs))" "routes_equiv rs (xroutes x)"
      using diffRoutes_run [OF ok dc dist(1), of w] wx n by auto
    have "\<forall>p \<in> set (current[i := ?cur']). routes_distinct p"
      using dist(2) sorted_by_diffRoutes_keeps(2) [OF dc] by (auto dest: set_update_subset_insert [THEN subsetD])
    then show ?thesis
      by (intro that [of acts "current[i := ?cur']" "with_routes rs ?cur" rs])
        (use Some changed acts n i in \<open>simp_all add: diff_xfrm_def Let_def recorded_as_def
          sorted_by_diffRoutes_keeps map_update_same find_update\<close>)
  qed
qed

section \<open>All pods\<close>

lemma diff_desired_run:
  assumes ok: "slice_diff_ok dslice" "map_diff_ok dmap"
    and "distinct (map xname xs)" "\<forall>x \<in> set xs. routes_distinct x" "\<forall>p \<in> set current. routes_distinct p"
    and "\<forall>x \<in> set xs. w (xname x) = xfrm_world_of current (xname x)"
  shows "\<exists>acts current'. diff_desired dslice dmap xs current = Ok (acts, current')
    \<and> map xname current' = map xname current
    \<and> (\<forall>n. n \<notin> xname ` set xs \<longrightarrow> run_xfrms acts w n = w n)
    \<and> (\<forall>x \<in> set xs. \<exists>p inst. run_xfrms acts w (xname x) = Some (p, inst) \<and> recorded_as p x
         \<and> (\<not> must_recreate current x \<longrightarrow> routes_equiv inst (xroutes x)))"
  using assms(3-6)
proof (induction xs arbitrary: current w)
  case Nil
  then show ?case by simp
next
  case (Cons x xs)
  from Cons.prems have x: "routes_distinct x" "w (xname x) = xfrm_world_of current (xname x)"
    and nin: "xname x \<notin> xname ` set xs" by auto
  then have nx: "\<forall>y \<in> set xs. xname y \<noteq> xname x" by (metis imageI)
  obtain as cur p inst where step: "diff_xfrm dslice dmap current x = Ok (as, cur)"
    "map xname cur = map xname current" "\<forall>p \<in> set cur. routes_distinct p"
    "\<And>n. n \<noteq> xname x \<Longrightarrow> find (\<lambda>p. xname p = n) cur = find (\<lambda>p. xname p = n) current"
    "run_xfrms as w = w(xname x \<mapsto> (p, inst))"
    "recorded_as p x" "\<not> must_recreate current x \<Longrightarrow> routes_equiv inst (xroutes x)"
    using diff_xfrm_step [where w = w and current = current, OF ok x(1) Cons.prems(3) x(2)] by metis
  let ?w = "run_xfrms as w"
  have same: "\<forall>y \<in> set xs. must_recreate cur y = must_recreate current y"
    using nx step(4) by (simp add: must_recreate_def)
  have wxs: "\<forall>y \<in> set xs. ?w (xname y) = xfrm_world_of cur (xname y)"
    using Cons.prems(4) nx step(4,5) by (simp add: xfrm_world_of_def)
  have dxs: "distinct (map xname xs)" "\<forall>y \<in> set xs. routes_distinct y" using Cons.prems by auto
  obtain bs cur' where IH: "diff_desired dslice dmap xs cur = Ok (bs, cur')"
    "map xname cur' = map xname cur"
    "\<forall>n. n \<notin> xname ` set xs \<longrightarrow> run_xfrms bs ?w n = ?w n"
    "\<forall>x \<in> set xs. \<exists>p inst. run_xfrms bs ?w (xname x) = Some (p, inst) \<and> recorded_as p x
         \<and> (\<not> must_recreate cur x \<longrightarrow> routes_equiv inst (xroutes x))"
    using Cons.IH [OF dxs step(3) wxs] by (elim exE conjE) (rule that)
  have "run_xfrms bs ?w (xname x) = Some (p, inst)"
    using IH(3) nin step(5) by simp
  then have "\<exists>p inst. run_xfrms (as @ bs) w (xname x) = Some (p, inst) \<and> recorded_as p x
      \<and> (\<not> must_recreate current x \<longrightarrow> routes_equiv inst (xroutes x))"
    using step(6,7) by auto
  moreover have "\<forall>n. n \<notin> xname ` set (x # xs) \<longrightarrow> run_xfrms (as @ bs) w n = w n"
    using IH(3) step(5) by simp
  moreover have "\<forall>y \<in> set xs. \<exists>p inst. run_xfrms (as @ bs) w (xname y) = Some (p, inst)
      \<and> recorded_as p y \<and> (\<not> must_recreate current y \<longrightarrow> routes_equiv inst (xroutes y))"
    using IH(4) same by simp
  ultimately show ?case
    using step(1,2) IH(1,2) by (intro exI [of _ "as @ bs"] exI [of _ cur']) simp
qed

lemma run_deletes:
  "run_xfrms (map (\<lambda>x. DeletePodAction (AnyXfrm x)) xs) w n = (if n \<in> xname ` set xs then None else w n)"
  by (induction xs arbitrary: w) auto

lemma find_in_names: "(find (\<lambda>p. xname p = n) ps \<noteq> None) = (n \<in> xname ` set ps)"
  by (induction ps) auto

lemma find_distinct:
  "distinct (map xname ps) \<Longrightarrow> p \<in> set ps \<Longrightarrow> find (\<lambda>q. xname q = xname p) ps = Some p"
  by (induction ps) auto

definition xfrms_ok :: "xfrm_pod list \<Rightarrow> bool" where
  "xfrms_ok ps \<longleftrightarrow> sorted (map xname ps) \<and> distinct (map xname ps) \<and> (\<forall>p \<in> set ps. routes_distinct p)"

lemma equal_lists_recorded:
  assumes "list_all2 compareXfrmPods ds cs" "distinct (map xname cs)"
    and "\<forall>p \<in> set ds. routes_distinct p" "\<forall>p \<in> set cs. routes_distinct p"
  shows "xname ` set ds = xname ` set cs" and "x \<in> set ds \<Longrightarrow> \<exists>p. find (\<lambda>q. xname q = xname x) cs = Some p \<and> recorded_as p x"
proof -
  have n: "compareXfrmPods x p \<Longrightarrow> xname x = xname p" for x p
    by (simp add: compareXfrmPods_def Let_def)
  have "map xname ds = map xname cs"
    using assms(1) by (induction rule: list_all2_induct) (simp_all add: n)
  then have "set (map xname ds) = set (map xname cs)" by simp
  then show "xname ` set ds = xname ` set cs" by simp
  assume "x \<in> set ds"
  then obtain i where "i < length ds" "ds ! i = x" by (auto simp: in_set_conv_nth)
  with assms(1) have p: "cs ! i \<in> set cs" "compareXfrmPods x (cs ! i)"
    by (auto simp: list_all2_conv_all_nth)
  with assms(3,4) \<open>x \<in> set ds\<close> have "recorded_as (cs ! i) x"
    by (intro compareXfrmPods_recorded) auto
  then show "\<exists>p. find (\<lambda>q. xname q = xname x) cs = Some p \<and> recorded_as p x"
    using find_distinct [OF assms(2) p(1)] n [OF p(2)] by auto
qed

lemma diffXfrms_run:
  assumes "slice_diff_ok dslice" "map_diff_ok dmap" "xfrms_ok desired" "xfrms_ok current"
  shows "\<exists>acts. diffXfrms dslice dmap desired current = Ok acts
    \<and> (\<forall>n. n \<notin> xname ` set desired \<longrightarrow> run_xfrms acts (xfrm_world_of current) n = None)
    \<and> (\<forall>x \<in> set desired. \<exists>p inst. run_xfrms acts (xfrm_world_of current) (xname x) = Some (p, inst)
         \<and> recorded_as p x \<and> (\<not> must_recreate current x \<longrightarrow> routes_equiv inst (xroutes x)))"
proof -
  let ?w = "xfrm_world_of current" and ?same = "length desired = length current"
  note d = assms(3,4) [unfolded xfrms_ok_def]
  have s: "sortPods desired = desired" "sortPods current = current"
    using d by (simp_all add: sortPods_def sort_key_id_if_sorted)
  have dom: "?w n = None" if "n \<notin> xname ` set current" for n
    using that find_in_names [of n current] by (auto simp: xfrm_world_of_def)
  show ?thesis
  proof (cases "?same \<and> list_all2 compareXfrmPods desired current")
    case True
    then have "diffXfrms dslice dmap desired current = Ok []"
      by (simp add: diffXfrms_def Let_def s)
    moreover have "\<forall>x \<in> set desired. \<exists>p inst. ?w (xname x) = Some (p, inst) \<and> recorded_as p x
        \<and> routes_equiv inst (xroutes x)"
      using equal_lists_recorded(2) [of desired current] True d
      by (fastforce simp: xfrm_world_of_def recorded_as_def)
    ultimately show ?thesis
      using dom equal_lists_recorded(1) [of desired current] True d
      by (intro exI [of _ "[]"]) auto
  next
    case False
    obtain acts cur where run: "diff_desired dslice dmap desired current = Ok (acts, cur)"
      "map xname cur = map xname current"
      "\<forall>n. n \<notin> xname ` set desired \<longrightarrow> run_xfrms acts ?w n = ?w n"
      "\<forall>x \<in> set desired. \<exists>p inst. run_xfrms acts ?w (xname x) = Some (p, inst) \<and> recorded_as p x
         \<and> (\<not> must_recreate current x \<longrightarrow> routes_equiv inst (xroutes x))"
      using diff_desired_run [OF assms(1,2), of desired current ?w] d by auto
    let ?gone = "filter (\<lambda>x. \<not> binary_search_found xname desired (xname x)) cur"
    have gone: "n \<in> xname ` set ?gone \<longleftrightarrow> n \<in> xname ` set current \<and> n \<notin> xname ` set desired" for n
    proof -
      have "xname ` set cur = xname ` set current" using run(2) by (metis set_map)
      moreover have "xname ` set ?gone = xname ` set cur - xname ` set desired"
      proof -
        have f: "binary_search_found xname desired k \<longleftrightarrow> k \<in> xname ` set desired" for k
          unfolding binary_search_found_iff [OF d(1) [THEN conjunct1]] by (auto simp: image_iff)
        show ?thesis unfolding f by auto
      qed
      ultimately show ?thesis by auto
    qed
    have "diffXfrms dslice dmap desired current
        = Ok (acts @ map (\<lambda>x. DeletePodAction (AnyXfrm x)) ?gone)"
      using False run(1) by (auto simp: diffXfrms_def Let_def s)
    moreover have "\<forall>n. n \<notin> xname ` set desired \<longrightarrow> (if n \<in> xname ` set ?gone then None
        else run_xfrms acts ?w n) = None"
      using run(3) gone dom by auto
    moreover have "\<forall>x \<in> set desired. (if xname x \<in> xname ` set ?gone then None
        else run_xfrms acts ?w (xname x)) = run_xfrms acts ?w (xname x)"
      using gone by auto
    ultimately show ?thesis
      using run(4) by (intro exI [of _ "acts @ map (\<lambda>x. DeletePodAction (AnyXfrm x)) ?gone"])
        (simp add: run_deletes)
  qed
qed

section \<open>Properties\<close>


definition other_xfrm_pod :: xfrm_pod where
  "other_xfrm_pod = sample_xfrm_pod\<lparr>Meta := (Meta sample_xfrm_pod)\<lparr>pm_Name := ''xfrm-pod-z-c''\<rparr>\<rparr>"

lemma sample_xfrms_ok: "xfrms_ok [sample_wanted_pod]" "xfrms_ok [sample_xfrm_pod, other_xfrm_pod]"
  by (simp_all add: xfrms_ok_def routes_distinct_def sample_wanted_pod_def other_xfrm_pod_def
      sample_xfrm_pod_def gok_def)


text \<open>
  C20. A recreated xfrm pod is left without its routes: when the properties of a pod change,
  \<open>diffXfrms\<close> deletes and creates it, the new pod carries the desired routes in its annotation,
  no action installs them, and the next comparison finds nothing to do.
\<close>

theorem recreated_pod_has_no_routes:
  assumes "pm_Name (Meta old) = pm_Name (Meta new)" and "Props (PSpec old) \<noteq> Props (PSpec new)"
    and "gok (gmap_of (BridgeFDB (Routes (PSpec new))))"
  shows "\<exists>acts. diffXfrms dslice dmap [new] [old] = Ok acts
    \<and> run_xfrms acts (xfrm_world_of [old]) (pm_Name (Meta new)) = Some (new, empty_routes)
    \<and> diffXfrms dslice dmap [new] [new] = Ok []"
proof -
  have nc: "\<not> compareXfrmPods new old" "compareXfrmPods new new"
    using assms by (auto simp: compareXfrmPods_def Let_def geq_nil_refl)
  have f: "binary_search_found xname [new] (xname old)"
    using assms(1) by (subst binary_search_found_iff) auto
  have "diffXfrms dslice dmap [new] [old] = Ok (recreatePod AnyXfrm old new)"
    using assms(1,2) nc(1) f
    by (simp add: diffXfrms_def diff_xfrm_def Let_def sortPods_def)
  moreover have "diffXfrms dslice dmap [new] [new] = Ok []"
    using nc(2) by (simp add: diffXfrms_def Let_def sortPods_def)
  ultimately show ?thesis using assms(1) by (simp add: recreatePod_def)
qed

definition moved_xfrm_pod :: xfrm_pod where
  "moved_xfrm_pod = sample_xfrm_pod\<lparr>PSpec := (PSpec sample_xfrm_pod)
     \<lparr>Props := (Props (PSpec sample_xfrm_pod))\<lparr>InterfaceID := 102\<rparr>\<rparr>\<rparr>"

theorem recreated_pod_has_no_routes_witness:
  "\<exists>acts. diffXfrms ref_slice_diff ref_map_diff [moved_xfrm_pod] [sample_xfrm_pod] = Ok acts
    \<and> run_xfrms acts (xfrm_world_of [sample_xfrm_pod]) ''xfrm-pod-a-c'' = Some (moved_xfrm_pod, empty_routes)"
proof -
  have "pm_Name (Meta sample_xfrm_pod) = pm_Name (Meta moved_xfrm_pod)"
    "Props (PSpec sample_xfrm_pod) \<noteq> Props (PSpec moved_xfrm_pod)"
    "gok (gmap_of (BridgeFDB (Routes (PSpec moved_xfrm_pod))))"
    by (simp_all add: moved_xfrm_pod_def sample_xfrm_pod_def gok_def)
  from recreated_pod_has_no_routes [OF this, of ref_slice_diff ref_map_diff] show ?thesis
    by (auto simp: moved_xfrm_pod_def sample_xfrm_pod_def)
qed

end
