(* ===== verification/Diff_Props.thy ===== *)
theory Diff_Props
  imports Diff_Xfrms
begin

text \<open>
  Properties of the other parts of \<open>DiffStates\<close>: the restarts of connections, the reload of a
  restctl pod, the pods that only have to exist, and the whole comparison on a cluster that is
  as desired.
\<close>

section \<open>Connections that are down\<close>

text \<open>Nothing has to be done about a connection.\<close>

definition ipsec_up :: "ipsec_state \<Rightarrow> ipsec_state \<Rightarrow> bool" where
  "ipsec_up d c \<longleftrightarrow> is_State c \<noteq> [] \<and> is_ChildrenState c \<noteq> None
     \<and> (if is_State c = ''Down'' then gkeys (gmap_of (is_ChildrenState d)) = []
        else \<forall>ch \<in> set (gkeys (gmap_of (is_ChildrenState d))). gget (gmap_of (is_ChildrenState c)) ch = Some ''UP'')"

lemma firstChildName_None: "firstChildName m = None \<longleftrightarrow> gkeys (gmap_of m) = []"
proof -
  have "sort (gkeys (gmap_of m)) = [] \<longleftrightarrow> gkeys (gmap_of m) = []"
    by (metis length_0_conv length_sort)
  then show ?thesis by (auto simp: firstChildName_def split: list.splits)
qed

lemma firstChildName_Some: "firstChildName m = Some ch \<Longrightarrow> ch \<in> set (gkeys (gmap_of m))"
proof -
  assume "firstChildName m = Some ch"
  then obtain ys where s: "sort (gkeys (gmap_of m)) = ch # ys"
    by (auto simp: firstChildName_def split: list.splits)
  have "ch \<in> set (sort (gkeys (gmap_of m)))" unfolding s by simp
  then show ?thesis by simp
qed

lemma firstChildName_empty: "gmap_of m = [] \<Longrightarrow> firstChildName m = None"
  by (simp add: firstChildName_def)

lemma getIPSec_Some: "getIPSec cs n = Some c \<Longrightarrow> c \<in> set cs \<and> is_Name c = n"
  by (auto simp: getIPSec_def dest: find_Some_in)

lemma in_both_iff:
  "list_ex (\<lambda>s. is_Name s = is_Name d \<and> \<not> is_Name s = []) cs
     \<longleftrightarrow> is_Name d \<noteq> [] \<and> getIPSec cs (is_Name d) \<noteq> None"
  by (auto simp: list_ex_iff getIPSec_def find_None_iff)

lemma diff_child_Nil:
  "diff_child ip d c ch = [] \<longleftrightarrow> gget (gmap_of (is_ChildrenState c)) ch = Some ''UP'' \<and> is_State c \<noteq> []"
  by (auto simp: diff_child_def split: option.splits)

lemma diff_ipsec_Nil:
  "getIPSec cs (is_Name d) = Some c \<Longrightarrow> diff_ipsec cs ip d = [] \<longleftrightarrow> ipsec_up d c"
  by (auto simp: diff_ipsec_def ipsec_up_def firstChildName_None firstChildName_empty diff_child_Nil
      split: option.splits)

lemma diffIPSecs_silent:
  "diffIPSecs desired current ip = [] \<longleftrightarrow>
    (\<forall>d \<in> set desired. \<forall>c. is_Name d \<noteq> [] \<and> getIPSec current (is_Name d) = Some c \<longrightarrow> ipsec_up d c)"
  by (auto simp: diffIPSecs_def Let_def in_both_iff diff_ipsec_Nil)

text \<open>
  \<open>diffIPSecs\<close> is silent exactly when every desired connection that exists is up: its status
  is set and either all its wanted children are recorded as UP or, when the connection itself is
  Down, there is no child to restart.
\<close>

theorem diffIPSecs_silent_iff:
  "diffIPSecs desired current ip = [] \<longleftrightarrow>
    (\<forall>d \<in> set desired. \<forall>c. is_Name d \<noteq> [] \<and> getIPSec current (is_Name d) = Some c \<longrightarrow> ipsec_up d c)"
  by (rule diffIPSecs_silent)

definition sample_state :: "(string, string) gomap option \<Rightarrow> string \<Rightarrow> ipsec_state" where
  "sample_state m st = \<lparr>is_Name = ''c'', is_State = st, is_ChildrenState = m,
     is_Group = \<lparr>gr_name = ''g'', gr_namespace = ''default''\<rparr>\<rparr>"

theorem diffIPSecs_silent_iff_witness:
  "diffIPSecs [sample_state (Some [(''a'', ''UP'')]) ''UP''] [sample_state (Some [(''a'', ''UP'')]) ''UP''] ''10.0.0.1'' = []
   \<and> diffIPSecs [sample_state (Some [(''a'', ''UP'')]) ''UP''] [sample_state (Some [(''a'', ''Down'')]) ''UP''] ''10.0.0.1'' \<noteq> []"
  unfolding diffIPSecs_silent_iff by (simp add: sample_state_def getIPSec_def ipsec_up_def)

lemma diffIPSecs_kinds:
  "a \<in> set (diffIPSecs desired current ip) \<Longrightarrow>
   (\<exists>n. a = UpdateChildConnectionStatus n) \<or> (\<exists>n ch ip. a = RestartChildConnectionAction n ch ip)"
  by (auto simp: diffIPSecs_def Let_def diff_ipsec_def diff_child_def split: option.splits if_splits)

text \<open>What a restart action says about the connection it is for.\<close>

lemma diff_ipsec_restart:
  assumes "RestartChildConnectionAction n ch ip' \<in> set (diff_ipsec cs ip d)"
  shows "n = is_Name d \<and> ip' = ip \<and> ch \<in> set (gkeys (gmap_of (is_ChildrenState d)))
    \<and> (\<exists>c. getIPSec cs n = Some c \<and> (is_State c = ''Down''
         \<or> (\<exists>v. gget (gmap_of (is_ChildrenState c)) ch = Some v \<and> v \<noteq> ''UP'')))"
proof (cases "getIPSec cs (is_Name d)")
  case None
  with assms show ?thesis by (simp add: diff_ipsec_def)
next
  case (Some c)
  note n = getIPSec_Some [OF Some]
  show ?thesis
  proof (cases "is_State c = ''Down''")
    case True
    with assms Some have "firstChildName (is_ChildrenState d) = Some ch \<and> n = is_Name c \<and> ip' = ip"
      by (simp add: diff_ipsec_def split: option.splits if_splits)
    with Some True n show ?thesis by (auto dest: firstChildName_Some)
  next
    case False
    with assms Some obtain k where k: "k \<in> set (gkeys (gmap_of (is_ChildrenState d)))"
      "RestartChildConnectionAction n ch ip' \<in> set (diff_child ip d c k)"
      by (auto simp: diff_ipsec_def split: if_splits)
    then obtain v where "gget (gmap_of (is_ChildrenState c)) k = Some v" "v \<noteq> ''UP''"
      "n = is_Name d" "ch = k" "ip' = ip"
      by (auto simp: diff_child_def split: option.splits if_splits)
    with Some k show ?thesis by auto
  qed
qed

lemma nil_status_updated:
  assumes "getIPSec cs (is_Name d) = Some c" "is_ChildrenState c = None"
    and "diff_ipsec cs ip d = xs @ RestartChildConnectionAction n ch ip' # ys"
  shows "UpdateChildConnectionStatus (is_Name d) \<in> set xs"
proof -
  obtain rest where "diff_ipsec cs ip d = UpdateChildConnectionStatus (is_Name d) # rest"
    using assms(1,2) by (simp add: diff_ipsec_def)
  with assms(3) show ?thesis by (cases xs) auto
qed

lemma concat_split:
  "concat (map f ds) = xs @ a # ys \<Longrightarrow>
   \<exists>d us vs pre. d \<in> set ds \<and> f d = us @ a # vs \<and> xs = pre @ us"
proof (induction ds arbitrary: xs)
  case (Cons d ds)
  from Cons.prems have "f d @ concat (map f ds) = xs @ a # ys" by simp
  then consider us where "f d = xs @ us" "us @ concat (map f ds) = a # ys"
    | us where "xs = f d @ us" "concat (map f ds) = us @ a # ys"
    by (auto simp: append_eq_append_conv2)
  then show ?case
  proof cases
    case (1 us)
    show ?thesis
    proof (cases us)
      case Nil
      with 1 have "concat (map f ds) = [] @ a # ys" by simp
      from Cons.IH [OF this] Nil 1 show ?thesis by fastforce
    next
      case (Cons u us')
      with 1 show ?thesis by (intro exI [of _ d] exI [of _ xs] exI [of _ us'] exI [of _ "[]"]) auto
    qed
  next
    case (2 us)
    from Cons.IH [OF 2(2)] obtain e us' vs pre where
      "e \<in> set ds" "f e = us' @ a # vs" "us = pre @ us'" by blast
    with 2(1) show ?thesis
      by (intro exI [of _ e] exI [of _ us'] exI [of _ vs] exI [of _ "f d @ pre"]) auto
  qed
qed simp

lemma diffIPSecs_restart:
  assumes "diffIPSecs desired current ip = xs @ RestartChildConnectionAction n ch ip' # ys"
  shows "\<exists>d \<in> set desired. \<exists>c. is_Name d = n \<and> getIPSec current n = Some c \<and> ip' = ip
    \<and> ch \<in> set (gkeys (gmap_of (is_ChildrenState d)))
    \<and> (is_State c = ''Down'' \<or> (\<exists>v. gget (gmap_of (is_ChildrenState c)) ch = Some v \<and> v \<noteq> ''UP''))
    \<and> (is_ChildrenState c = None \<longrightarrow> UpdateChildConnectionStatus n \<in> set xs)"
proof -
  obtain d us vs pre where d: "d \<in> set desired"
    "diff_ipsec current ip d = us @ RestartChildConnectionAction n ch ip' # vs" "xs = pre @ us"
    using concat_split assms unfolding diffIPSecs_def Let_def by fastforce
  from d(2) have "RestartChildConnectionAction n ch ip' \<in> set (diff_ipsec current ip d)" by simp
  from diff_ipsec_restart [OF this] obtain c where "n = is_Name d" "ip' = ip"
    "ch \<in> set (gkeys (gmap_of (is_ChildrenState d)))" "getIPSec current n = Some c"
    "is_State c = ''Down'' \<or> (\<exists>v. gget (gmap_of (is_ChildrenState c)) ch = Some v \<and> v \<noteq> ''UP'')"
    by auto
  with d show ?thesis
    using nil_status_updated [of current d c ip us n ch ip' vs] by auto
qed

text \<open>
  C17. A restart is asked for only where it is due and where it is safe: the connection exists, the
  child is a wanted one, the restctl address is the group's, the connection is Down or the child
  recorded as something else than UP; and when the status has no children at all, an update that
  creates them comes earlier in the list.
\<close>

theorem diffIPSecs_restart_due:
  assumes "diffIPSecs desired current ip = xs @ RestartChildConnectionAction n ch ip' # ys"
  shows "\<exists>d \<in> set desired. \<exists>c. is_Name d = n \<and> getIPSec current n = Some c \<and> ip' = ip
    \<and> ch \<in> set (gkeys (gmap_of (is_ChildrenState d)))
    \<and> (is_State c = ''Down'' \<or> (\<exists>v. gget (gmap_of (is_ChildrenState c)) ch = Some v \<and> v \<noteq> ''UP''))
    \<and> (is_ChildrenState c = None \<longrightarrow> UpdateChildConnectionStatus n \<in> set xs)"
  using assms by (rule diffIPSecs_restart)

theorem diffIPSecs_restart_due_witness:
  "\<exists>d \<in> set [sample_state (Some [(''a'', ''UP'')]) ''UP'']. is_Name d = ''c'' \<and> ''a'' \<in> set (gkeys (gmap_of (is_ChildrenState d)))"
proof -
  have "diffIPSecs [sample_state (Some [(''a'', ''UP'')]) ''UP''] [sample_state None ''Down''] ''10.0.0.1''
      = [UpdateChildConnectionStatus ''c''] @ RestartChildConnectionAction ''c'' ''a'' ''10.0.0.1'' # []"
    by (simp add: diffIPSecs_def Let_def diff_ipsec_def getIPSec_def sample_state_def firstChildName_def)
  from diffIPSecs_restart_due [OF this] show ?thesis by auto
qed

section \<open>Reloading the connections of a restctl pod\<close>

lemma set_delete_in_place_names:
  "set (delete_func_in_place [] (\<lambda>s. s = n) xs) - {[]} = set xs - {[], n}"
  by (auto simp: delete_func_in_place_def Let_def)

lemma delete_in_place_mem:
  "m \<noteq> [] \<Longrightarrow> m \<in> set (delete_func_in_place [] (\<lambda>s. s = n) xs) \<longleftrightarrow> m \<in> set xs \<and> m \<noteq> n"
  using set_delete_in_place_names [of n xs] by auto

lemma check_missing_fold:
  assumes "foldl (check_missing loaded) (ns, b) cs = (ns', b')" and "\<forall>c \<in> set cs. cn_Name c \<noteq> []"
  shows "(b' \<longleftrightarrow> b \<and> (\<forall>c \<in> set cs. cn_Name c \<in> set loaded \<or> cn_Name c \<in> set ns))
    \<and> (\<forall>m. m \<noteq> [] \<longrightarrow> m \<in> set ns' \<longleftrightarrow>
         (m \<in> set ns \<and> \<not> (m \<in> set loaded \<and> m \<in> cn_Name ` set cs))
         \<or> (m \<notin> set loaded \<and> m \<in> cn_Name ` set cs))"
  using assms
proof (induction cs arbitrary: ns b)
  case Nil
  then show ?case by auto
next
  case (Cons c cs)
  let ?n = "cn_Name c"
  have n: "?n \<noteq> []" using Cons.prems(2) by simp
  obtain ns1 b1 where s: "check_missing loaded (ns, b) c = (ns1, b1)" by (cases "check_missing loaded (ns, b) c")
  have s1: "b1 \<longleftrightarrow> b \<and> (?n \<in> set loaded \<or> ?n \<in> set ns)"
    and s2: "m \<noteq> [] \<Longrightarrow> m \<in> set ns1 \<longleftrightarrow> (m \<in> set ns \<and> \<not> (m \<in> set loaded \<and> m = ?n)) \<or> (m \<notin> set loaded \<and> m = ?n)" for m
    using s n by (auto simp: check_missing_def delete_in_place_mem split: if_splits)
  have IH: "b' \<longleftrightarrow> b1 \<and> (\<forall>c \<in> set cs. cn_Name c \<in> set loaded \<or> cn_Name c \<in> set ns1)"
    "\<forall>m. m \<noteq> [] \<longrightarrow> m \<in> set ns' \<longleftrightarrow>
       (m \<in> set ns1 \<and> \<not> (m \<in> set loaded \<and> m \<in> cn_Name ` set cs))
       \<or> (m \<notin> set loaded \<and> m \<in> cn_Name ` set cs)"
    using Cons.IH [of ns1 b1] Cons.prems s by auto
  have "\<forall>d \<in> set cs. cn_Name d \<noteq> []" using Cons.prems(2) by simp
  then have "b' \<longleftrightarrow> b \<and> (\<forall>c \<in> set (c # cs). cn_Name c \<in> set loaded \<or> cn_Name c \<in> set ns)"
    using IH(1) s1 s2 by auto
  moreover have "m \<in> set ns' \<longleftrightarrow>
       (m \<in> set ns \<and> \<not> (m \<in> set loaded \<and> m \<in> cn_Name ` set (c # cs)))
       \<or> (m \<notin> set loaded \<and> m \<in> cn_Name ` set (c # cs))" if "m \<noteq> []" for m
    using IH(2) s2 [OF that] that by auto
  ultimately show ?case by blast
qed

lemma diffProxy_override:
  assumes "comparePods (Some d) (Some cur)" and "fetch (pm_IP (Meta cur)) = LoadedConns loaded"
    and "\<forall>c \<in> set conns. cn_Name c \<noteq> []"
  shows "let ours = filter (\<lambda>c. Group (Spec c) = PGroup d) conns;
      (result, r') = diffProxy fetch r (Some d) (Some cur) conns;
      stale = (\<exists>c \<in> set ours. cn_Name c \<notin> set loaded \<and> cn_Name c \<notin> set (NotLoadedConns r))
        \<or> (\<exists>l \<in> set loaded. \<forall>c \<in> set ours. cn_Name c \<noteq> l)
    in result = Ok (if stale then [OverrideConfigAction (pm_Name (Meta cur)) ours] else [])
     \<and> (\<forall>c \<in> set ours. cn_Name c \<in> set (NotLoadedConns r') \<longleftrightarrow> cn_Name c \<notin> set loaded)"
proof -
  let ?ours = "filter (\<lambda>c. Group (Spec c) = PGroup d) conns"
  have ours: "filter (\<lambda>c. CharonGroupRef_Equals (PGroup d) (Group (Spec c))) conns = ?ours"
    by (auto simp: CharonGroupRef_Equals_iff intro: filter_cong)
  obtain ns b where f: "foldl (check_missing loaded) (NotLoadedConns r, True) ?ours = (ns, b)"
    by (cases "foldl (check_missing loaded) (NotLoadedConns r, True) ?ours")
  have names: "\<forall>c \<in> set ?ours. cn_Name c \<noteq> []" using assms(3) by auto
  note fold = check_missing_fold [OF f names]
  have keeps: "NotLoadedConns (updateMetric r) = NotLoadedConns r"
  proof -
    have "NotLoadedConns (foldl (\<lambda>r name.
     let isUp = \<not> list_contains (NotLoadedConns r) name;
         r = (if isUp then r else r\<lparr>NotLoadedMetric := NotLoadedMetric r + 1\<rparr>)
     in r\<lparr>ConnectionsStatusMetric :=
          gput name (if isUp then 1 else 0) (ConnectionsStatusMetric r)\<rparr>) r xs) = NotLoadedConns r" for xs
      by (induction xs arbitrary: r) (simp_all add: Let_def)
    then show ?thesis by (simp add: updateMetric_def)
  qed
  have noted: "cn_Name c \<in> set ns \<longleftrightarrow> cn_Name c \<notin> set loaded" if "c \<in> set ?ours" for c
    using fold that names by auto
  have drop: "cn_Name c \<in> set (drop_empty ns) \<longleftrightarrow> cn_Name c \<notin> set loaded" if "c \<in> set ?ours" for c
    using noted [OF that] that names by (auto simp: drop_empty_def)
  have b: "b \<longleftrightarrow> \<not> (\<exists>c \<in> set ?ours. cn_Name c \<notin> set loaded \<and> cn_Name c \<notin> set (NotLoadedConns r))"
    using fold by auto
  show ?thesis
  proof (cases "b \<and> \<not> (\<exists>l \<in> set loaded. \<forall>c \<in> set ?ours. cn_Name c \<noteq> l)")
    case True
    then have "\<not> list_ex (\<lambda>l. \<not> list_ex (\<lambda>c. cn_Name c = l) ?ours) loaded"
      by (auto simp: list_ex_iff)
    with True b have "diffProxy fetch r (Some d) (Some cur) conns
        = (Ok [], snd (diffProxy fetch r (Some d) (Some cur) conns))
      \<and> NotLoadedConns (snd (diffProxy fetch r (Some d) (Some cur) conns)) = drop_empty ns"
      using assms(1,2) f by (simp add: diffProxy_def ours keeps Let_def)
    with True b drop show ?thesis by (auto simp: Let_def)
  next
    case False
    then have e: "\<not> b \<or> list_ex (\<lambda>l. \<not> list_ex (\<lambda>c. cn_Name c = l) ?ours) loaded"
      by (auto simp: list_ex_iff)
    have "diffProxy fetch r (Some d) (Some cur) conns
        = (Ok [OverrideConfigAction (pm_Name (Meta cur)) ?ours],
           snd (diffProxy fetch r (Some d) (Some cur) conns))
      \<and> NotLoadedConns (snd (diffProxy fetch r (Some d) (Some cur) conns)) = ns"
      using assms(1,2) f e by (auto simp: diffProxy_def ours keeps Let_def)
    with False b noted show ?thesis by (auto simp: Let_def)
  qed
qed

text \<open>
  C13. When a restctl pod is in place and answers, \<open>diffProxy\<close> asks for at most one thing, to load
  the connections of the pod's group; it does so exactly when a connection of the group is neither
  loaded nor already noted as not loaded, or a loaded one is not of the group. Afterwards every
  connection of the group that is not loaded is noted, and none that is loaded.
\<close>

theorem diffProxy_override_iff:
  assumes "comparePods (Some d) (Some cur)" and "fetch (pm_IP (Meta cur)) = LoadedConns loaded"
    and "\<forall>c \<in> set conns. cn_Name c \<noteq> []"
  shows "let ours = filter (\<lambda>c. Group (Spec c) = PGroup d) conns;
      (result, r') = diffProxy fetch r (Some d) (Some cur) conns;
      stale = (\<exists>c \<in> set ours. cn_Name c \<notin> set loaded \<and> cn_Name c \<notin> set (NotLoadedConns r))
        \<or> (\<exists>l \<in> set loaded. \<forall>c \<in> set ours. cn_Name c \<noteq> l)
    in result = Ok (if stale then [OverrideConfigAction (pm_Name (Meta cur)) ours] else [])
     \<and> (\<forall>c \<in> set ours. cn_Name c \<in> set (NotLoadedConns r') \<longleftrightarrow> cn_Name c \<notin> set loaded)"
  using assms by (rule diffProxy_override)

definition sample_restctl :: restctl_pod where
  "sample_restctl = \<lparr>Meta = \<lparr>pm_Name = ''restctl-pod-default-g'', pm_Namespace = ''ims'', pm_IP = ''10.0.0.1'',
      pm_NodeName = ''n1'', pm_Image = []\<rparr>, PSpec = \<lparr>rp_HostPath = ''/s''\<rparr>, PAnnotations = None,
     PGroup = \<lparr>gr_name = ''g'', gr_namespace = ''default''\<rparr>\<rparr>"

definition sample_conn :: "string \<Rightarrow> ipsec_conn" where
  "sample_conn n = \<lparr>cn_Name = n, cn_Namespace = [], Spec = \<lparr>sp_Name = n, RemoteAddr = [], LocalAddr = [],
     LocalId = [], RemoteId = [], SecretRef = \<lparr>s_Name = [], s_Namespace = [], s_Key = []\<rparr>,
     Children = [(''a'', zero_child\<lparr>c_Name := ''a''\<rparr>)], sp_Extra = [],
     Group = \<lparr>gr_name = ''g'', gr_namespace = ''default''\<rparr>\<rparr>, Status = zero_status\<rparr>"

definition sample_reconciler :: reconciler where
  "sample_reconciler = \<lparr>NotLoadedConns = [], AllConns = [], NotLoadedMetric = 0, ConnectionsStatusMetric = []\<rparr>"

theorem diffProxy_override_iff_witness:
  "fst (diffProxy (\<lambda>_. LoadedConns [''x'']) sample_reconciler (Some sample_restctl) (Some sample_restctl)
     [sample_conn ''x'', sample_conn ''y''])
   = Ok [OverrideConfigAction ''restctl-pod-default-g'' [sample_conn ''x'', sample_conn ''y'']]"
  using diffProxy_override_iff [of sample_restctl sample_restctl "\<lambda>_. LoadedConns [''x'']" "[''x'']"
      "[sample_conn ''x'', sample_conn ''y'']" sample_reconciler]
  by (simp add: comparePods_def sample_conn_def sample_restctl_def sample_reconciler_def Let_def
      case_prod_unfold)

text \<open>
  The stale name after a deleted one is skipped: with two connections gone, one stays in
  \<open>AllConns\<close>.
\<close>

lemma forget_conns_skips: "drop_empty (forget_conns [] [''a'', ''b'']) = [''b'']"
  by (simp add: forget_conns_def drop_empty_def delete_func_in_place_def upt_rec Let_def)

section \<open>The whole comparison\<close>

lemma diffImmutablePod_silent: "diffImmutablePod any d c = [] \<longleftrightarrow> comparePods d c"
  by (cases d; cases c) (simp_all add: diffImmutablePod_def comparePods_def)

text \<open>The restctl pod of a group has loaded the group's connections and no others.\<close>

definition loads_exactly :: "(string \<Rightarrow> configs_reply) \<Rightarrow> ipsec_conn list \<Rightarrow> restctl_pod option \<Rightarrow> restctl_pod option \<Rightarrow> bool" where
  "loads_exactly fetch conns d c = (case (d, c) of
      (Some d, Some c) \<Rightarrow> (case fetch (pm_IP (Meta c)) of
          LoadedConns loaded \<Rightarrow>
            set loaded = cn_Name ` set (filter (\<lambda>k. Group (Spec k) = PGroup d) conns)
        | _ \<Rightarrow> False)
    | _ \<Rightarrow> True)"

definition group_in_place :: "(string \<Rightarrow> configs_reply) \<Rightarrow> ipsec_conn list \<Rightarrow> group_state \<Rightarrow> group_state \<Rightarrow> bool" where
  "group_in_place fetch conns gs cgs \<longleftrightarrow>
     comparePods (Charon gs) (Charon cgs) \<and> comparePods (Proxy gs) (Proxy cgs)
     \<and> loads_exactly fetch conns (Proxy gs) (Proxy cgs)
     \<and> list_all2 compareXfrmPods (sortPods (Xfrms gs)) (sortPods (Xfrms cgs))
     \<and> (\<forall>d \<in> set (IPSecs gs). \<forall>c. is_Name d \<noteq> [] \<and> getIPSec (IPSecs cgs) (is_Name d) = Some c \<longrightarrow> ipsec_up d c)"

lemma diffProxy_in_place:
  assumes "comparePods d c" "loads_exactly fetch conns d c" "\<forall>k \<in> set conns. cn_Name k \<noteq> []"
  shows "fst (diffProxy fetch r d c conns) = Ok []"
proof (cases d)
  case None
  with assms(1) show ?thesis by (cases c) (auto simp: comparePods_def diffProxy_def)
next
  case (Some d')
  with assms(1) obtain c' where c: "c = Some c'" by (cases c) (auto simp: comparePods_def)
  with Some assms(2) obtain loaded where l: "fetch (pm_IP (Meta c')) = LoadedConns loaded"
    "set loaded = cn_Name ` set (filter (\<lambda>k. Group (Spec k) = PGroup d') conns)"
    by (auto simp: loads_exactly_def split: configs_reply.splits)
  let ?ours = "filter (\<lambda>k. Group (Spec k) = PGroup d') conns"
  have "\<not> (\<exists>k \<in> set ?ours. cn_Name k \<notin> set loaded \<and> cn_Name k \<notin> set (NotLoadedConns r))"
    "\<not> (\<exists>l \<in> set loaded. \<forall>k \<in> set ?ours. cn_Name k \<noteq> l)"
    unfolding l(2) by auto
  then show ?thesis
    using diffProxy_override [where fetch = fetch and r = r, OF assms(1) [unfolded Some c] l(1) assms(3)]
    by (simp add: Some c Let_def case_prod_unfold)
qed

lemma diff_group_in_place:
  assumes "group_in_place fetch conns gs cgs" "\<forall>k \<in> set conns. cn_Name k \<noteq> []"
  shows "fst (diff_group dslice dmap fetch conns r gs cgs) = Ok []"
proof -
  have len: "length (Xfrms gs) = length (Xfrms cgs)"
    using assms(1) list_all2_lengthD by (fastforce simp: group_in_place_def sortPods_def)
  have "diffCharon (Charon gs) (Charon cgs) = []"
    "diffXfrms dslice dmap (Xfrms gs) (Xfrms cgs) = Ok []"
    "fst (diffProxy fetch r (Proxy gs) (Proxy cgs) conns) = Ok []"
    "diffIPSecs (IPSecs gs) (IPSecs cgs) ip = []" for ip
    using assms len diffProxy_in_place [of "Proxy gs" "Proxy cgs" fetch conns r]
    by (auto simp: group_in_place_def diffCharon_def diffImmutablePod_silent diffXfrms_def Let_def
        diffIPSecs_silent)
  then show ?thesis
    by (simp add: diff_group_def Let_def case_prod_unfold split: option.splits)
qed

lemma diff_groups_in_place:
  assumes "\<forall>gs \<in> set gss. \<exists>i. findGroup (GroupRef gs) current = Some i
      \<and> group_in_place fetch conns gs (Groups current ! i)"
    and "\<forall>k \<in> set conns. cn_Name k \<noteq> []"
  shows "fst (diff_groups dslice dmap fetch conns current r gss) = Ok []"
  using assms(1)
proof (induction gss arbitrary: r)
  case (Cons gs gss)
  then obtain i where i: "findGroup (GroupRef gs) current = Some i"
    "group_in_place fetch conns gs (Groups current ! i)" by auto
  obtain o1 r1 where g: "diff_group dslice dmap fetch conns r gs (Groups current ! i) = (o1, r1)"
    by (cases "diff_group dslice dmap fetch conns r gs (Groups current ! i)")
  with diff_group_in_place [OF i(2) assms(2), of dslice dmap r] have "o1 = Ok []" by simp
  with Cons i g show ?case by (simp add: case_prod_unfold)
qed simp

text \<open>
  C11. A cluster that is as desired is left alone: if the pod monitor is as wanted, every desired
  group is there with its charon pod, its restctl pod with exactly the group's connections loaded,
  its xfrm pods and its connections up, and no other group is there, \<open>DiffStates\<close> returns no
  action. Images, pod addresses and annotations may differ.
\<close>

theorem DiffStates_in_place:
  assumes "PodMonitor desired = PodMonitor current"
    and "\<forall>gs \<in> set (Groups desired). \<exists>i. findGroup (GroupRef gs) current = Some i
      \<and> group_in_place fetch conns gs (Groups current ! i)"
    and "\<forall>cgs \<in> set (Groups current). findGroup (GroupRef cgs) desired \<noteq> None"
    and "\<forall>k \<in> set conns. cn_Name k \<noteq> []"
  shows "fst (DiffStates dslice dmap fetch r desired current conns) = Ok []"
proof -
  have "filter (\<lambda>cgs. findGroup (GroupRef cgs) desired = None) (Groups current) = []"
    using assms(3) by (simp add: filter_empty_conv)
  with assms(1) diff_groups_in_place [OF assms(2,4), of dslice dmap r] show ?thesis
    by (simp add: DiffStates_def Let_def case_prod_unfold)
qed

definition sample_group_state :: "string \<Rightarrow> group_state" where
  "sample_group_state ip = \<lparr>Charon = None, Proxy = Some (sample_restctl\<lparr>Meta := (Meta sample_restctl)\<lparr>pm_IP := ip\<rparr>\<rparr>),
     Xfrms = [sample_xfrm_pod], GroupRef = \<lparr>gr_name = ''g'', gr_namespace = ''default''\<rparr>,
     IPSecs = [sample_state (Some [(''a'', ''UP'')]) ''UP'']\<rparr>"

theorem DiffStates_in_place_witness:
  "fst (DiffStates ref_slice_diff ref_map_diff (\<lambda>_. LoadedConns [''c'']) sample_reconciler
      \<lparr>Groups = [sample_group_state []], PodMonitor = False\<rparr>
      \<lparr>Groups = [sample_group_state ''10.0.0.1''], PodMonitor = False\<rparr> [sample_conn ''c'']) = Ok []"
proof (rule DiffStates_in_place)
  let ?d = "\<lparr>Groups = [sample_group_state []], PodMonitor = False\<rparr>"
    and ?c = "\<lparr>Groups = [sample_group_state ''10.0.0.1''], PodMonitor = False\<rparr>"
  show "PodMonitor ?d = PodMonitor ?c" by simp
  have "group_in_place (\<lambda>_. LoadedConns [''c'']) [sample_conn ''c'']
      (sample_group_state []) (sample_group_state ''10.0.0.1'')"
    by (simp add: group_in_place_def sample_group_state_def comparePods_def loads_exactly_def
        sample_restctl_def sample_conn_def sortPods_def compareXfrmPods_def sample_xfrm_pod_def
        geq_nil_def gok_def getIPSec_def sample_state_def ipsec_up_def Let_def)
  then show "\<forall>gs \<in> set (Groups ?d). \<exists>i. findGroup (GroupRef gs) ?c = Some i
      \<and> group_in_place (\<lambda>_. LoadedConns [''c'']) [sample_conn ''c''] gs (Groups ?c ! i)"
    by (simp add: findGroup_def sample_group_state_def)
  show "\<forall>cgs \<in> set (Groups ?c). findGroup (GroupRef cgs) ?d \<noteq> None"
    by (simp add: findGroup_def sample_group_state_def)
  show "\<forall>k \<in> set [sample_conn ''c'']. cn_Name k \<noteq> []" by (simp add: sample_conn_def)
qed

end
