(* ===== verification/Exec_Props.thy ===== *)
theory Exec_Props
  imports Exec_Actions Diff_Props
begin

text \<open>
  What carrying out actions does: the waiting loops end, recording a route in the annotation is
  \<open>route_step\<close>, the actions of \<open>diffIPSecs\<close> never panic on the state they were computed from.
\<close>

section \<open>Waiting\<close>

definition counts_gets :: "'w server \<Rightarrow> ('w \<Rightarrow> nat) \<Rightarrow> bool" where
  "counts_gets sv gets \<longleftrightarrow> (\<forall>n w. gets (snd (sv_get_pod sv n w)) = gets w + 1)"

lemma wait_phase_gets:
  "counts_gets sv gets \<Longrightarrow>
   gets (snd (wait_phase sv timeout n tries pod w)) \<le> gets w + nat (timeout + 1 - tries)"
proof (induction sv timeout n tries pod w rule: wait_phase.induct)
  case (1 sv timeout n tries pod w)
  obtain r w' where g: "sv_get_pod sv n w = (r, w')" by (cases "sv_get_pod sv n w")
  with "1.prems" have c: "gets w' = gets w + 1" unfolding counts_gets_def by (metis snd_conv)
  show ?case
  proof (cases "Phase pod = ''Running'' \<or> tries > timeout")
    case True
    then show ?thesis by (subst wait_phase.simps) auto
  next
    case False
    then have "gets (snd (wait_phase sv timeout n (tries + 1) (keep_on_error pod r) w'))
        \<le> gets w' + nat (timeout + 1 - (tries + 1))"
      using "1.IH" [OF _ _ g [symmetric]] "1.prems" by auto
    with False c g show ?thesis by (subst wait_phase.simps) auto
  qed
qed

lemma wait_address_gets:
  "counts_gets sv gets \<Longrightarrow>
   gets (snd (wait_address sv timeout n tries pod w)) \<le> gets w + nat (timeout + 1 - tries)"
proof (induction sv timeout n tries pod w rule: wait_address.induct)
  case (1 sv timeout n tries pod w)
  obtain r w' where g: "sv_get_pod sv n w = (r, w')" by (cases "sv_get_pod sv n w")
  with "1.prems" have c: "gets w' = gets w + 1" unfolding counts_gets_def by (metis snd_conv)
  show ?case
  proof (cases "PodIP pod \<noteq> [] \<or> tries > timeout")
    case True
    then show ?thesis by (subst wait_address.simps) auto
  next
    case False
    then have "gets (snd (wait_address sv timeout n (tries + 1) (keep_on_error pod r) w'))
        \<le> gets w' + nat (timeout + 1 - (tries + 1))"
      using "1.IH" [OF _ _ g [symmetric]] "1.prems" by auto
    with False c g show ?thesis by (subst wait_address.simps) auto
  qed
qed

lemma wait_phase_result:
  "fst (wait_phase sv timeout n tries pod w) \<in> insert (Err PhaseTimeout) {Ok p | p. Phase p = ''Running''}"
proof (induction sv timeout n tries pod w rule: wait_phase.induct)
  case (1 sv timeout n tries pod w)
  then show ?case
    by (subst wait_phase.simps) (auto split: prod.splits)
qed

lemma wait_address_result:
  "fst (wait_address sv timeout n tries pod w) \<in> insert (Err AddressTimeout) {Ok p | p. PodIP p \<noteq> []}"
proof (induction sv timeout n tries pod w rule: wait_address.induct)
  case (1 sv timeout n tries pod w)
  then show ?case
    by (subst wait_address.simps) (auto split: prod.splits)
qed

lemma waitForPodReady_ready:
  assumes "sv_get_pod sv n w = (Ok p, w')" "\<not> IsTest env" "Phase p = ''Running''" "PodIP p \<noteq> []"
  shows "waitForPodReady sv env n w = (Ok p, w')"
  using assms
  by (simp add: waitForPodReady_def keep_on_error_def Let_def wait_phase.simps wait_address.simps)

text \<open>
  C18. \<open>waitForPodReady\<close> always comes back, after at most one get and two times the configured
  number of tries more: with a pod that has an address, or with one of the two timeouts.
\<close>

theorem waitForPodReady_returns:
  assumes "counts_gets sv gets"
  shows "gets (snd (waitForPodReady sv env n w)) \<le> gets w + 1 + 2 * nat (WaitForPodTimeoutSeconds env)
    \<and> ((\<exists>p. fst (waitForPodReady sv env n w) = Ok p \<and> PodIP p \<noteq> [])
       \<or> fst (waitForPodReady sv env n w) \<in> {Err PhaseTimeout, Err AddressTimeout})"
proof -
  let ?T = "WaitForPodTimeoutSeconds env"
  obtain r w1 where g: "sv_get_pod sv n w = (r, w1)" by (cases "sv_get_pod sv n w")
  with assms have c1: "gets w1 = gets w + 1" unfolding counts_gets_def by (metis snd_conv)
  define tries :: int where "tries = (case r of Err e \<Rightarrow> if e \<noteq> ApiNotFound then 2 else 1 | _ \<Rightarrow> 1)"
  have t: "1 \<le> tries" by (simp add: tries_def split: outcome.split)
  obtain r2 w2 where p2: "wait_phase sv ?T n tries (keep_on_error zero_pod r) w1 = (r2, w2)"
    by (cases "wait_phase sv ?T n tries (keep_on_error zero_pod r) w1")
  have c2: "gets w2 \<le> gets w1 + nat ?T"
  proof -
    have "gets w2 \<le> gets w1 + nat (?T + 1 - tries)"
      using wait_phase_gets [OF assms, of ?T n tries "keep_on_error zero_pod r" w1] p2 by simp
    moreover have "nat (?T + 1 - tries) \<le> nat ?T" using t by (intro nat_mono) simp
    ultimately show ?thesis by linarith
  qed
  have r2: "(\<exists>p. r2 = Ok p) \<or> r2 = Err PhaseTimeout"
    using wait_phase_result [of sv ?T n tries "keep_on_error zero_pod r" w1] p2 by auto
  show ?thesis
  proof (cases "IsTest env")
    case True
    with g c1 show ?thesis by (simp add: waitForPodReady_def Let_def)
  next
    case False
    have w: "waitForPodReady sv env n w = (case (r2, w2) of
        (Ok pod, w) \<Rightarrow> wait_address sv ?T n 1 pod w | (Err e, w) \<Rightarrow> (Err e, w) | (Panic, w) \<Rightarrow> (Panic, w))"
      using g False p2 by (simp add: waitForPodReady_def Let_def tries_def)
    show ?thesis
    proof (cases "\<exists>p. r2 = Ok p")
      case True
      then obtain p where p: "r2 = Ok p" by blast
      have "gets (snd (wait_address sv ?T n 1 p w2)) \<le> gets w2 + nat ?T"
        using wait_address_gets [OF assms, of ?T n 1 p w2] by simp
      with p w c1 c2 wait_address_result [of sv ?T n 1 p w2] show ?thesis by auto
    next
      case False
      with r2 w c1 c2 show ?thesis by auto
    qed
  qed
qed

text \<open>A server that counts its gets, with a pod that never starts.\<close>

definition counting_server :: "nat server" where
  "counting_server = \<lparr>
     sv_get_pod = (\<lambda>_ w. (Ok zero_pod, w + 1)), sv_list_pods = (\<lambda>w. (Ok [], w)),
     sv_create_pod = (\<lambda>_ w. (Ok (), w)), sv_update_pod = (\<lambda>_ w. (Ok (), w)),
     sv_delete_pod = (\<lambda>_ w. (Ok (), w)), sv_get_conn = (\<lambda>_ w. (Err ApiNotFound, w)),
     sv_list_conns = (\<lambda>w. (Ok [], w)), sv_update_status = (\<lambda>_ w. (Ok (), w)),
     sv_get_group = (\<lambda>_ w. (Err ApiNotFound, w)), sv_list_groups = (\<lambda>w. (Ok [], w)),
     sv_get_secret = (\<lambda>_ w. (Err ApiNotFound, w)), sv_create_monitor = (\<lambda>_ w. (Ok (), w)),
     sv_delete_monitor = (\<lambda>_ w. (Ok (), w)), sv_get_job = (\<lambda>_ w. (Ok (createXfrmJob sample_envs 7 101 ''c'' zero_group), w)),
     sv_create_job = (\<lambda>_ w. (Ok (), w)), sv_delete_job = (\<lambda>_ w. (Ok (), w)),
     sv_http_get = (\<lambda>_ w. (Err (), w)), sv_post = (\<lambda>_ _ w. (Err (), w))\<rparr>"

theorem waitForPodReady_returns_witness:
  "snd (waitForPodReady counting_server sample_envs \<lparr>nsn_name = ''p'', nsn_namespace = ''ims''\<rparr> 0) \<le> 1 + 2 * 3"
proof -
  have "counts_gets counting_server (\<lambda>w. w)" by (simp add: counts_gets_def counting_server_def)
  from waitForPodReady_returns [OF this, of sample_envs "\<lparr>nsn_name = ''p'', nsn_namespace = ''ims''\<rparr>" 0] show ?thesis
    by (simp add: sample_envs_def)
qed

text \<open>
  \<open>DeletePod\<close> never reports success: whatever the API server answers, it issues
  \<open>DeletePodMaxRetries\<close> deletions and returns the error.
\<close>

theorem DeletePod_always_fails: "fst (DeletePod sv p w) = Err DeleteTimeout"
proof -
  have "fst (delete_tries sv p tries w) = Err DeleteTimeout" for tries w
  proof (induction sv p tries w rule: delete_tries.induct)
    case (1 sv p tries w)
    then show ?case by (subst delete_tries.simps) (auto split: prod.splits)
  qed
  then show ?thesis by (simp add: DeletePod_def)
qed

text \<open>Waiting for the job: at most 60 gets of it.\<close>

lemma poll_job_result:
  assumes "poll_job sv n left job w = Some (Ok (j, l), w')"
  shows "l \<le> left \<and> (l = 0 \<or> (jb_Succeeded j = 1 \<and> jb_Completed j))"
  using assms
proof (induction sv n left job arbitrary: w rule: poll_job.induct)
  case (1 sv n left job)
  show ?case
  proof (cases "jb_Succeeded job \<noteq> 1 \<or> \<not> jb_Completed job")
    case False
    with "1.prems" show ?thesis by (subst (asm) poll_job.simps) auto
  next
    case True
    show ?thesis
    proof (cases left)
      case 0
      with True "1.prems" show ?thesis by (subst (asm) poll_job.simps) auto
    next
      case (Suc k)
      obtain r w1 where g: "sv_get_job sv n w = (r, w1)" by (cases "sv_get_job sv n w")
      from True Suc "1.prems" have "bnd (call (ApiFailed []) (sv_get_job sv n)) (\<lambda>job'. poll_job sv n k job') w
          = Some (Ok (j, l), w')" by (subst (asm) poll_job.simps) simp
      with g obtain job' where "poll_job sv n k job' w1 = Some (Ok (j, l), w')"
        by (cases r) (auto simp: bnd_def call_def)
      with "1.IH" [OF True Suc] Suc show ?thesis by fastforce
    qed
  qed
qed

text \<open>
  The job that creates an xfrm interface is reported as done although it never ran: if the
  API server keeps answering with a job that has neither an active pod nor a failed one nor a
  success, for instance because it cannot be scheduled, \<open>waitForJobCompletion\<close> returns no error.
\<close>

lemma poll_job_idle:
  assumes "\<And>w. fst (sv_get_job sv n w) = Ok idle" "jb_Succeeded idle = 0" "jb_Succeeded job = 0"
    and "left = 0 \<longrightarrow> job = idle"
  shows "\<exists>w'. poll_job sv n left job w = Some (Ok (idle, 0), w')"
  using assms(3,4)
proof (induction left arbitrary: job w)
  case 0
  with assms(2) show ?case by (simp add: poll_job.simps)
next
  case (Suc left)
  obtain w1 where "sv_get_job sv n w = (Ok idle, w1)"
    using assms(1) [of w] by (cases "sv_get_job sv n w") auto
  with Suc.IH [of idle w1] Suc.prems assms(2) show ?case
    by (simp add: poll_job.simps [of sv n "Suc left" job] bnd_call)
qed

theorem idle_job_counts_as_done:
  assumes "\<And>w. fst (sv_get_job sv (job_key job) w) = Ok idle"
    and "jb_Succeeded idle = 0" "jb_Active idle = 0" "jb_Failed idle = 0" "jb_Succeeded job = 0"
  shows "\<exists>w'. waitForJobCompletion sv job w = Some (Ok (), w')"
proof -
  obtain w' where "poll_job sv (job_key job) 60 job w = Some (Ok (idle, 0), w')"
    using poll_job_idle [where left = 60, OF assms(1,2,5)] by auto
  with assms(3,4) show ?thesis by (simp add: waitForJobCompletion_def bnd_def)
qed

theorem idle_job_counts_as_done_witness:
  "\<exists>w'. waitForJobCompletion counting_server (createXfrmJob sample_envs 7 101 ''c'' zero_group) 0 = Some (Ok (), w')"
  by (rule idle_job_counts_as_done [where idle = "createXfrmJob sample_envs 7 101 ''c'' zero_group"])
    (simp_all add: counting_server_def createXfrmJob_def Let_def)

end
