(* ===== verification/Exec_Store.thy ===== *)
theory Exec_Store
  imports Exec_Props
begin

text \<open>
  Actions on an API server that keeps what is written to it. \<open>pod_store\<close> extends \<open>kube_store\<close>,
  for pods, by the requests that were posted; \<open>conn_api\<close> is what the actions on connections need,
  and allows every request to fail. Both are interpreted for \<open>map_server\<close>.
\<close>

section \<open>Reading the annotation that was written\<close>

lemma dec_json_strs_ok: "json_strs_ok (Some (json_strings s))"
  by (cases s) (auto simp: json_strs_ok_def json_strings_def json_str_ok_def list_all_iff)

lemma dec_json_map_ok: "json_map_ok (Some (json_map m))"
  by (cases m) (auto simp: json_map_ok_def json_map_def json_str_ok_def list_all_iff)

lemma json_u32_show: "json_u32_ok (Some (JNum (show_nat (unat (w :: 32 word)))))"
proof -
  have "unat w < 2 ^ LENGTH(32)" by (rule unsigned_less)
  then have "unat w < 2 ^ 32" by simp
  moreover from this have "parse_uint 64 (show_nat (unat w)) = (unat w, None)"
    by (intro parse_uint_show) simp
  ultimately show ?thesis by (simp add: json_u32_ok_def)
qed

lemma xfrm_json_ok_marshal: "xfrm_json_ok (marshal_xfrm s)"
proof -
  have "json_ok (JObj [(''routes'', routes_json (Routes s)), (''properties'', props_json (Props s))])"
    using json_ok_num [of "unat (InterfaceID (Props s))"]
    by (simp add: routes_json_def props_json_def json_ok_strings json_ok_map)
  from parse_print_json [OF this] show ?thesis
    by (simp add: xfrm_json_ok_def marshal_xfrm_def json_obj_ok_def jfield_def routes_json_def
        props_json_def dec_json_strs_ok dec_json_map_ok json_u32_show)
      (simp add: json_str_ok_def)
qed

lemma gok_dec_map: "gok (gmap_of (dec_map j))"
proof -
  have "gok (foldl (\<lambda>m (k, v). gput k (dec_string (Some v)) m) m kvs)" if "gok m"
    for m :: "(string, string) gomap" and kvs
    using that by (induction kvs arbitrary: m) (auto simp: gok_put)
  from this [OF gok_Nil] show ?thesis by (simp add: dec_map_def split: option.splits json.splits)
qed

lemma gok_unmarshal: "gok (gmap_of (BridgeFDB (Routes (unmarshal_xfrm s))))"
  by (simp add: unmarshal_xfrm_def Let_def dec_routes_def gok_dec_map)

lemma gok_route_step: "gok (gmap_of (BridgeFDB rs)) \<Longrightarrow> gok (gmap_of (BridgeFDB (route_step a rs)))"
  by (cases a) auto

text \<open>What the code relies on of \<open>diff.Diff\<close> here: no change between equal specifications.\<close>

definition same_ok :: "(xfrm_pod_spec \<Rightarrow> xfrm_pod_spec \<Rightarrow> bool) \<Rightarrow> bool" where
  "same_ok same \<longleftrightarrow> (\<forall>a b. xfrm_spec_deep_eq a b \<longrightarrow> same b a)"

locale pod_store = kube_store pod_nsn "sv_get_pod sv" "sv_update_pod sv" obj
  for sv :: "'w server" and obj :: "nsn \<Rightarrow> 'w \<Rightarrow> k8s_pod option" +
  fixes posts :: "'w \<Rightarrow> (string \<times> post_request) list"
  assumes post_store: "\<exists>rep w'. sv_post sv url r w = (rep, w') \<and> posts w' = posts w @ [(url, r)]
      \<and> (\<forall>k. obj k w' = obj k w)"
    and update_posts: "posts (snd (sv_update_pod sv p w)) = posts w"
begin

lemma update_annotation:
  assumes same: "same_ok same" and ok: "gok (gmap_of (BridgeFDB (xroutes x)))"
    and p: "obj k w = Some p" "pod_nsn p = k" "xfrm_key x = k" "Annotations p \<noteq> []"
  obtains w' where "updateXfrmSpecAnnotation sv same x w = Some (Ok (), w')"
    and "obj k w' = Some (p\<lparr>Annotations := gput AnnotationSpec (marshal_xfrm (PSpec x)) (Annotations p)\<rparr>)"
    and "\<And>k'. k' \<noteq> k \<Longrightarrow> obj k' w' = obj k' w" and "posts w' = posts w"
proof -
  let ?p = "p\<lparr>Annotations := gput AnnotationSpec (marshal_xfrm (PSpec x)) (Annotations p)\<rparr>"
  have kp: "pod_nsn ?p = k" using p(2) by (simp add: pod_nsn_def)
  with p(1) obtain w' where w': "sv_update_pod sv ?p w = (Ok (), w')"
    "\<forall>k'. obj k' w' = (if k' = k then Some ?p else obj k' w)"
    using update [of ?p w p] by auto
  have ann: "gstr (Annotations ?p) AnnotationSpec = marshal_xfrm (PSpec x)" by (simp add: gstr_put)
  have "xfrm_spec_deep_eq (PSpec x) (unmarshal_xfrm (marshal_xfrm (PSpec x)))"
    using ok by (rule unmarshal_marshal_xfrm_eq)
  with same have "same (unmarshal_xfrm (marshal_xfrm (PSpec x))) (PSpec x)" by (simp add: same_ok_def)
  with ann w' have "poll_annotation sv same k (PSpec x) w' = Some (Ok (), w')"
    by (subst poll_annotation.simps) (simp add: get_Some [of k w' ?p] xfrm_json_ok_marshal)
  then have "updateXfrmSpecAnnotation sv same x w = Some (Ok (), w')"
    using p get_Some [OF p(1)] w'(1)
    by (simp add: updateXfrmSpecAnnotation_def xfrm_key_def Let_def bnd_call)
  moreover have "posts w' = posts w" using update_posts [of ?p w] w'(1) by simp
  ultimately show ?thesis using that w'(2) by simp
qed

lemma record_route_store:
  assumes "same_ok same" and p: "obj k w = Some p" "pod_nsn p = k" "Annotations p \<noteq> []"
  obtains w' p' where "record_route sv same a p w = Some (Ok (), w')" and "obj k w' = Some p'"
    and "xfrm_spec_deep_eq ((PSpec (XfrmFromPod p))\<lparr>Routes := route_step a (xroutes (XfrmFromPod p))\<rparr>)
           (PSpec (XfrmFromPod p'))"
    and "\<And>k'. k' \<noteq> k \<Longrightarrow> obj k' w' = obj k' w" and "posts w' = posts w"
proof -
  let ?x = "set_routes (route_step a (xroutes (XfrmFromPod p))) (XfrmFromPod p)"
  have ok: "gok (gmap_of (BridgeFDB (xroutes ?x)))"
    by (simp add: set_routes_def gok_route_step XfrmFromPod_def gok_unmarshal)
  have key: "xfrm_key ?x = k"
    using p(2) by (simp add: xfrm_key_def set_routes_def XfrmFromPod_def pod_meta_of_def pod_nsn_def)
  obtain w' where w': "updateXfrmSpecAnnotation sv same ?x w = Some (Ok (), w')"
    "obj k w' = Some (p\<lparr>Annotations := gput AnnotationSpec (marshal_xfrm (PSpec ?x)) (Annotations p)\<rparr>)"
    "\<And>k'. k' \<noteq> k \<Longrightarrow> obj k' w' = obj k' w" "posts w' = posts w"
    using update_annotation [where x = ?x, OF assms(1) ok p(1,2) key p(3)] by metis
  have "xfrm_spec_deep_eq (PSpec ?x) (unmarshal_xfrm (marshal_xfrm (PSpec ?x)))"
    using ok by (rule unmarshal_marshal_xfrm_eq)
  then show ?thesis
    using that [OF _ w'(2)] w' by (simp add: record_route_def Let_def XfrmFromPod_def gstr_put set_routes_def)
qed

text \<open>The common part of the methods that wait for the pod, post a request and record the route.\<close>

lemma wait_post_record:
  assumes "same_ok same" "\<not> IsTest env"
    and p: "obj k w = Some p" "pod_nsn p = k" "Annotations p \<noteq> []" "Phase p = ''Running''" "PodIP p \<noteq> []"
    and rep: "\<And>w. \<exists>rep. fst (sv_post sv (pod_url (PodIP p) path) req w) = Ok rep \<and> StatusCode rep = 200"
  shows "\<exists>w' p'. bnd (wait_ready sv env k) (\<lambda>pod.
       bnd (send_post sv ea (pod_url (PodIP pod) path) req) (\<lambda>resp.
       if StatusCode resp \<noteq> 200 then fail (HttpStatus eb (StatusCode resp))
       else ignore_err (record_route sv same a pod))) w = Some (Ok (), w')
    \<and> obj k w' = Some p'
    \<and> xfrm_spec_deep_eq ((PSpec (XfrmFromPod p))\<lparr>Routes := route_step a (xroutes (XfrmFromPod p))\<rparr>)
        (PSpec (XfrmFromPod p'))
    \<and> (\<forall>k'. k' \<noteq> k \<longrightarrow> obj k' w' = obj k' w) \<and> posts w' = posts w @ [(pod_url (PodIP p) path, req)]"
proof -
  have "waitForPodReady sv env k w = (Ok p, w)"
    using get_Some [OF p(1)] assms(2) p(4,5) by (rule waitForPodReady_ready)
  then have wait: "wait_ready sv env k w = Some (Ok p, w)" by (simp add: wait_ready_def)
  obtain rep w1 where post: "sv_post sv (pod_url (PodIP p) path) req w = (Ok rep, w1)"
    "posts w1 = posts w @ [(pod_url (PodIP p) path, req)]" "\<forall>k. obj k w1 = obj k w" "StatusCode rep = 200"
    using post_store [of "pod_url (PodIP p) path" req w] rep [of w] by auto
  obtain w' p' where rec: "record_route sv same a p w1 = Some (Ok (), w')" "obj k w' = Some p'"
    "xfrm_spec_deep_eq ((PSpec (XfrmFromPod p))\<lparr>Routes := route_step a (xroutes (XfrmFromPod p))\<rparr>)
        (PSpec (XfrmFromPod p'))"
    "\<And>k'. k' \<noteq> k \<Longrightarrow> obj k' w' = obj k' w1" "posts w' = posts w1"
    using record_route_store [OF assms(1), of k w1 p a] p(1-3) post(3) by metis
  have "ignore_err (record_route sv same a p) w1 = Some (Ok (), w')"
    by (simp add: ignore_err_def rec(1))
  with wait post rec show ?thesis
    by (intro exI [of _ w'] exI [of _ p']) (simp add: bnd_Some [where m = "wait_ready sv env k", OF wait] send_post_def bnd_call(1) [where c = "sv_post sv (pod_url (PodIP p) path) req", OF post(1)])
qed

end

interpretation map_pod_store: pod_store map_server "\<lambda>k w. gget (st_Pods w) k" st_Posts
  by unfold_locales (auto simp: map_server_def)

fun route_request :: "action \<Rightarrow> string \<times> post_request" where
  "route_request (AddRemoteRouteAction r _) = ('':8080/addRemoteRoute'', RemoteRouteRequest r)"
| "route_request (AddLocalRouteAction r _) = ('':8080/addLocalRoute'', LocalRouteRequest r)"
| "route_request (DeleteLocalRouteAction r _) = ('':8080/deleteLocalRoute'', LocalRouteRequest r)"
| "route_request (DeleteRemoteRouteAction r _) = ('':8080/deleteRemoteRoute'', RemoteRouteRequest r)"
| "route_request (AddBridgeFDBAction _ u _) = ('':8080/addBridgeFDB'', BridgeFdbRequest u)"
| "route_request (DeleteBridgeFDBAction _ u _) = ('':8080/deleteBridgeFDB'', BridgeFdbRequest u)"
| "route_request _ = ([], LocalRouteRequest [])"


definition sample_store :: store where
  "sample_store = \<lparr>st_Pods = [(xfrm_key sample_xfrm_pod,
       scheduled ''n1'' ''10.0.0.7'' (create_xfrm_pod sample_xfrm_pod sample_envs))],
     st_Conns = [(''c'', sample_conn ''c'')], st_Groups = [], st_Secrets = [], st_Jobs = [], st_Posts = []\<rparr>"

lemma sample_running_pod:
  defines "p \<equiv> scheduled ''n1'' ''10.0.0.7'' (create_xfrm_pod sample_xfrm_pod sample_envs)"
  shows "pod_nsn p = xfrm_key sample_xfrm_pod" "Annotations p \<noteq> []" "Phase p = ''Running''" "PodIP p = ''10.0.0.7''"
  using xfrm_spec.created_name [of sample_xfrm_pod sample_envs] xfrm_spec.created_namespace [of sample_xfrm_pod sample_envs]
    xfrm_spec.created_spec_annotation [of sample_xfrm_pod sample_envs]
  by (auto simp: p_def pod_nsn_def xfrm_key_def create_xfrm_pod_def scheduled_def createPodFromSpec_def
      Xfrm_ApplySpec_def CreateK8sPodMeta_fields sample_xfrm_pod_def gcopy_def)


section \<open>Deleting a remote route\<close>

text \<open>
  C19. \<open>DeleteRemoteRouteAction.Do\<close> panics on a pod whose address is known: it posts the request,
  and when the xfrm pod answers with status 200 it reads the annotation of a nil pod. The routes
  \<open>diffRoutes\<close> deletes are those of pods read from the cluster, which have an address.
\<close>

theorem Do_DeleteRemoteRoute_panics:
  assumes "pm_IP (Meta p) \<noteq> []"
    and "sv_post sv (pod_url (pm_IP (Meta p)) '':8080/deleteRemoteRoute'') (RemoteRouteRequest r) w = (Ok rep, w')"
    and "StatusCode rep = 200"
  shows "Do sv same env (DeleteRemoteRouteAction r p) w = Some (Panic, w')"
  using assms
  by (simp add: Do_DeleteRemoteRoute_def send_post_def
      bnd_call(1) [where c = "sv_post sv (pod_url (pm_IP (Meta p)) '':8080/deleteRemoteRoute'') (RemoteRouteRequest r)"])

theorem Do_DeleteRemoteRoute_panics_witness:
  "\<exists>w'. Do map_server xfrm_spec_deep_eq sample_envs
     (DeleteRemoteRouteAction ''0.0.0.0/0'' (sample_xfrm_pod\<lparr>Meta := (Meta sample_xfrm_pod)\<lparr>pm_IP := ''10.0.0.7''\<rparr>\<rparr>))
     sample_store = Some (Panic, w')"
  by (intro exI, rule Do_DeleteRemoteRoute_panics [where rep = "\<lparr>StatusCode = 200, Body = Some ''{}''\<rparr>"])
    (simp_all add: map_server_def)

section \<open>The actions on connections do not panic\<close>

text \<open>
  What the actions on connections need of the API server: a get that succeeds answers with what is
  stored, an update of a status either fails or stores the connection, and posting a request
  changes no connection. Every request may fail.
\<close>

locale conn_api =
  fixes sv :: "'w server" and conns :: "'w \<Rightarrow> string \<Rightarrow> ipsec_conn option"
  assumes get_api: "\<exists>r w'. sv_get_conn sv k w = (r, w') \<and> r \<noteq> Panic \<and> conns w' = conns w
      \<and> (\<forall>c. r = Ok c \<longrightarrow> conns w k = Some c)"
    and update_api: "\<exists>r w'. sv_update_status sv c w = (r, w') \<and> r \<noteq> Panic
      \<and> conns w' = (if r = Ok () then (conns w)(cn_Name c \<mapsto> c) else conns w)"
    and post_api: "\<exists>r w'. sv_post sv url req w = (r, w') \<and> r \<noteq> Panic \<and> conns w' = conns w"
begin

text \<open>A run that has not panicked, in a state of the connections that satisfies \<open>P\<close> if it succeeded.\<close>

definition leaves :: "((string \<Rightarrow> ipsec_conn option) \<Rightarrow> bool) \<Rightarrow> ((act_error, unit) outcome \<times> 'w) option \<Rightarrow> bool" where
  "leaves P res \<longleftrightarrow> (\<exists>r w'. res = Some (r, w') \<and> r \<noteq> Panic \<and> (r = Ok () \<longrightarrow> P (conns w')))"

lemma update_leaves:
  "P ((conns w)(cn_Name c \<mapsto> c)) \<Longrightarrow> leaves P (call f (sv_update_status sv c) w)"
proof -
  assume P: "P ((conns w)(cn_Name c \<mapsto> c))"
  obtain r w' where "sv_update_status sv c w = (r, w')" "r \<noteq> Panic"
    "conns w' = (if r = Ok () then (conns w)(cn_Name c \<mapsto> c) else conns w)"
    using update_api [of c w] by blast
  with P show ?thesis by (cases r) (auto simp: leaves_def call_def)
qed

lemma get_leaves:
  assumes "\<And>c w'. conns w k = Some c \<Longrightarrow> conns w' = conns w \<Longrightarrow> leaves P (g c w')"
  shows "leaves P (bnd (call f (sv_get_conn sv k)) g w)"
proof -
  obtain r w' where "sv_get_conn sv k w = (r, w')" "r \<noteq> Panic" "conns w' = conns w"
    "\<forall>c. r = Ok c \<longrightarrow> conns w k = Some c"
    using get_api [of k w] by blast
  with assms [of _ w'] show ?thesis by (cases r) (auto simp: leaves_def call_def bnd_def)
qed

lemma optimistic_status_fields:
  "cn_Name (optimistic_status c) = cn_Name c" "Spec (optimistic_status c) = Spec c"
  "Children (Spec c) \<noteq> [] \<Longrightarrow> ChildrenState (Status (optimistic_status c)) \<noteq> None"
proof -
  let ?f = "\<lambda>c cname. set_children_state (gput cname ''UP'' (gmap_of (ChildrenState (Status c)))) c"
  have keep: "cn_Name (foldl ?f c ks) = cn_Name c \<and> Spec (foldl ?f c ks) = Spec c
      \<and> (ChildrenState (Status c) \<noteq> None \<or> ks \<noteq> [] \<longrightarrow> ChildrenState (Status (foldl ?f c ks)) \<noteq> None)" for ks c
    by (induction ks arbitrary: c) (auto simp: set_children_state_def)
  from keep [of c "gkeys (Children (Spec c))"]
  show "cn_Name (optimistic_status c) = cn_Name c" "Spec (optimistic_status c) = Spec c"
    "Children (Spec c) \<noteq> [] \<Longrightarrow> ChildrenState (Status (optimistic_status c)) \<noteq> None"
    by (simp_all add: optimistic_status_def set_state_def)
qed

text \<open>
  The connections in \<open>S\<close> have children in their status or none in their specification, and those
  in \<open>K\<close> have some in their specification.
\<close>

definition inv :: "string set \<Rightarrow> string set \<Rightarrow> (string \<Rightarrow> ipsec_conn option) \<Rightarrow> bool" where
  "inv S K m \<longleftrightarrow> (\<forall>n c. m n = Some c \<longrightarrow> cn_Name c = n
     \<and> (n \<in> S \<longrightarrow> ChildrenState (Status c) \<noteq> None \<or> Children (Spec c) = [])
     \<and> (n \<in> K \<longrightarrow> Children (Spec c) \<noteq> []))"

lemma update_status_inv:
  assumes "inv S K (conns w)"
  shows "leaves (inv (insert n S) K) (Do sv same env (UpdateChildConnectionStatus n) w)"
proof -
  have "leaves (inv (insert n S) K) (call f (sv_update_status sv (optimistic_status c)) w')"
    if c: "conns w n = Some c" "conns w' = conns w" for f c w'
  proof (rule update_leaves)
    from assms c(1) have "cn_Name c = n" by (simp add: inv_def)
    then show "inv (insert n S) K ((conns w')(cn_Name (optimistic_status c) \<mapsto> optimistic_status c))"
      using assms c optimistic_status_fields [of c] by (auto simp: inv_def)
  qed
  then show ?thesis unfolding Do.simps Do_UpdateChildStatus_def by (intro get_leaves)
qed

lemma restart_child_inv:
  assumes i: "inv S K (conns w)" and n: "n \<in> S" "n \<in> K"
  shows "leaves (inv S K) (Do sv same env (RestartChildConnectionAction n ch ip) w)"
proof -
  let ?url = "pod_url ip '':61410/child-restart''" and ?req = "RestartConnectionChildRequest n ch"
  obtain r w1 where post: "sv_post sv ?url ?req w = (r, w1)" "r \<noteq> Panic" "conns w1 = conns w"
    using post_api by blast
  show ?thesis
  proof (cases r)
    case (Ok resp)
    have upd: "leaves (inv S K) (call f (sv_update_status sv c') w')"
      if "conns w n = Some c" "conns w' = conns w" "cn_Name c' = cn_Name c" "Spec c' = Spec c"
        "ChildrenState (Status c') \<noteq> None" for f c c' w'
      by (rule update_leaves) (use i that in \<open>auto simp: inv_def\<close>)
    have rest: "leaves (inv S K) (bnd (call f (sv_get_conn sv n)) (\<lambda>ipsec.
        if StatusCode resp = 500 \<and> body = ''Action failed'' then fail (ConnectionRestartError n ch)
        else if StatusCode resp \<noteq> 200 then fail (HttpStatus ''Error restarting a connection'' (StatusCode resp))
        else (case ChildrenState (Status ipsec) of
         None \<Rightarrow> crash
       | Some m \<Rightarrow>
           let m' = gput ch ''UP'' m;
               ipsec = set_children_state m' ipsec;
               somethingDown = list_contains (gvals m') ''Down'';
               ipsec = (if \<not> somethingDown then set_state ''UP'' ipsec else ipsec)
           in call (ApiFailed ''Error updating IPSecConnection'') (sv_update_status sv ipsec))) w1)" for body f
    proof (rule get_leaves)
      fix c w' assume c: "conns w1 n = Some c" "conns w' = conns w1"
      with i n post(3) obtain m where m: "ChildrenState (Status c) = Some m" by (auto simp: inv_def)
      have "leaves (inv S K) (call (ApiFailed ''Error updating IPSecConnection'') (sv_update_status sv
          (if cond then set_state ''UP'' (set_children_state m' c) else set_children_state m' c)) w')" for cond m'
        by (rule upd [where c = c]) (use c post(3) in \<open>auto simp: set_state_def set_children_state_def\<close>)
      then show "leaves (inv S K) ((if StatusCode resp = 500 \<and> body = ''Action failed''
           then fail (ConnectionRestartError n ch)
        else if StatusCode resp \<noteq> 200 then fail (HttpStatus ''Error restarting a connection'' (StatusCode resp))
        else (case ChildrenState (Status c) of
         None \<Rightarrow> crash
       | Some m \<Rightarrow>
           let m' = gput ch ''UP'' m;
               ipsec = set_children_state m' c;
               somethingDown = list_contains (gvals m') ''Down'';
               ipsec = (if \<not> somethingDown then set_state ''UP'' ipsec else ipsec)
           in call (ApiFailed ''Error updating IPSecConnection'') (sv_update_status sv ipsec))) w')"
        by (simp add: m Let_def leaves_def fail_def)
    qed
    show ?thesis
    proof (cases "Body resp")
      case None
      with Ok post(1) show ?thesis
        by (simp add: Do_RestartChild_def send_post_def read_body_def leaves_def
            bnd_call(1) [where c = "sv_post sv ?url ?req"])
    next
      case (Some b)
      with Ok post(1) rest show ?thesis
        by (simp add: Do_RestartChild_def send_post_def read_body_def
            bnd_call(1) [where c = "sv_post sv ?url ?req"])
    qed
  next
    case (Err e)
    with post(1) show ?thesis
      by (simp add: Do_RestartChild_def send_post_def leaves_def bnd_call(2) [where c = "sv_post sv ?url ?req"])
  qed (use post(2) in simp)
qed

text \<open>Every restart is of a connection in \<open>K\<close>, and one in \<open>S\<close> or updated before.\<close>

fun guarded :: "string set \<Rightarrow> string set \<Rightarrow> action list \<Rightarrow> bool" where
  "guarded S K [] \<longleftrightarrow> True"
| "guarded S K (UpdateChildConnectionStatus n # as) \<longleftrightarrow> guarded (insert n S) K as"
| "guarded S K (RestartChildConnectionAction n ch ip # as) \<longleftrightarrow> n \<in> S \<and> n \<in> K \<and> guarded S K as"
| "guarded S K (_ # as) \<longleftrightarrow> False"

lemma guarded_run:
  assumes "guarded S K acts" "inv S K (conns w)"
  shows "\<exists>r w'. in_order (Do sv same env) acts w = Some (r, w') \<and> r \<noteq> Panic"
  using assms
proof (induction S K acts arbitrary: w rule: guarded.induct)
  case (2 S K n as)
  obtain r w' where s: "Do sv same env (UpdateChildConnectionStatus n) w = Some (r, w')"
    "r \<noteq> Panic" "r = Ok () \<longrightarrow> inv (insert n S) K (conns w')"
    using update_status_inv [OF "2.prems"(2)] unfolding leaves_def by blast
  show ?case
    using "2.IH" [of w'] "2.prems"(1) s by (cases r) (auto simp: bnd_def)
next
  case (3 S K n ch ip as)
  have n: "n \<in> S" "n \<in> K" using "3.prems"(1) by auto
  obtain r w' where s: "Do sv same env (RestartChildConnectionAction n ch ip) w = Some (r, w')"
    "r \<noteq> Panic" "r = Ok () \<longrightarrow> inv S K (conns w')"
    using restart_child_inv [OF "3.prems"(2) n] unfolding leaves_def by blast
  show ?case
    using "3.IH" [of w'] "3.prems"(1) s by (cases r) (auto simp: bnd_def)
qed simp_all

lemma guardedI:
  assumes "\<forall>a \<in> set acts. (\<exists>n. a = UpdateChildConnectionStatus n) \<or> (\<exists>n ch ip. a = RestartChildConnectionAction n ch ip)"
    and "\<And>xs n ch ip ys. acts = xs @ RestartChildConnectionAction n ch ip # ys
      \<Longrightarrow> n \<in> K \<and> (n \<in> S \<or> UpdateChildConnectionStatus n \<in> set xs)"
  shows "guarded S K acts"
  using assms
proof (induction acts arbitrary: S)
  case (Cons a acts)
  from Cons.prems(1) consider n where "a = UpdateChildConnectionStatus n"
    | n ch ip where "a = RestartChildConnectionAction n ch ip" by auto
  then show ?case
  proof cases
    case (1 n)
    have "guarded (insert n S) K acts"
    proof (rule Cons.IH)
      show "\<forall>a \<in> set acts. (\<exists>n. a = UpdateChildConnectionStatus n) \<or> (\<exists>n ch ip. a = RestartChildConnectionAction n ch ip)"
        using Cons.prems(1) by simp
      show "m \<in> K \<and> (m \<in> insert n S \<or> UpdateChildConnectionStatus m \<in> set xs)"
        if "acts = xs @ RestartChildConnectionAction m ch ip # ys" for xs m ch ip ys
        using Cons.prems(2) [of "a # xs" m ch ip ys] that 1 by auto
    qed
    with 1 show ?thesis by simp
  next
    case (2 n ch ip)
    have "guarded S K acts"
    proof (rule Cons.IH)
      show "\<forall>a \<in> set acts. (\<exists>n. a = UpdateChildConnectionStatus n) \<or> (\<exists>n ch ip. a = RestartChildConnectionAction n ch ip)"
        using Cons.prems(1) by simp
      show "m \<in> K \<and> (m \<in> S \<or> UpdateChildConnectionStatus m \<in> set xs)"
        if "acts = xs @ RestartChildConnectionAction m ch' ip' # ys" for xs m ch' ip' ys
        using Cons.prems(2) [of "a # xs" m ch' ip' ys] that 2 by auto
    qed
    with 2 Cons.prems(2) [of "[]" n ch ip acts] show ?thesis by simp
  qed
qed simp

end

interpretation map_conn_api: conn_api map_server "\<lambda>w. gget (st_Conns w)"
  by unfold_locales
    (auto simp: map_server_def lookup_or_def conn_key_def gget_put fun_eq_iff split: option.splits)

lemma gkeys_up_children: "set (gkeys (up_children c)) = set (gkeys (Children (Spec c)))"
proof -
  have "set (gkeys (foldl (\<lambda>m k. gput k v m) m ks)) = set (gkeys m) \<union> set ks"
    for m :: "(string, string) gomap" and ks and v :: string
    by (induction ks arbitrary: m) auto
  from this [of "''UP''" "[]" "gkeys (Children (Spec c))"] show ?thesis by (simp add: up_children_def)
qed

lemma wanted_conn:
  assumes "d \<in> set (FindIPSecs (createIPSecs cs) gr)" "ch \<in> set (gkeys (gmap_of (is_ChildrenState d)))"
  shows "\<exists>c \<in> set cs. cn_Name c = is_Name d \<and> Children (Spec c) \<noteq> []"
proof -
  from assms(1) obtain c where "c \<in> set cs" "is_Name d = cn_Name c" "is_ChildrenState d = Some (up_children c)"
    by (auto simp: FindIPSecs_def createIPSecs_def)
  with assms(2) gkeys_up_children [of c] show ?thesis by auto
qed

lemma read_conn:
  assumes "GetClusterIPSecs a = Ok cur" "ListConns a = Ok cs" "s \<in> set (FindIPSecs cur gr)"
  shows "\<exists>c \<in> set cs. cn_Name c = is_Name s \<and> is_ChildrenState s = ChildrenState (Status c)"
proof -
  from assms obtain c where "c \<in> set cs" "s = \<lparr>is_Name = cn_Name c, is_State = State (Status c),
      is_ChildrenState = ChildrenState (Status c), is_Group = Group (Spec c)\<rparr>"
    by (auto simp: GetClusterIPSecs_def FindIPSecs_def)
  then show ?thesis by (intro bexI [of _ c]) simp_all
qed


definition sample_api :: "ipsec_conn list \<Rightarrow> api" where
  "sample_api cs = \<lparr>ListNodes = Ok [], ListGroups = Ok [], ListPods = Ok [], ListWorkerPods = Ok [],
     ListConns = Ok cs, GetPodMonitor = Err ApiNotFound, GetPod = (\<lambda>_. Err ApiNotFound)\<rparr>"


end
