(* ===== verification/Reconcile.thy ===== *)
theory Reconcile
  imports Status Exec_Store
begin

text \<open>
  \<open>Reconcile\<close>, \<open>UpdateStatus\<close> and \<open>res\<close> of \<open>ipman_controller.go\<close>: one pass of the reconciler. The
  list requests of one step are answered from \<open>snap\<close>, the view of the API server's state that the
  step sees; \<open>fetch\<close> answers the request for the loaded connections of a restctl pod. Durations
  are in nanoseconds. Events and logging are left out.
\<close>

datatype recon_error =
    FetchPodFailed api_error
  | StatusFailed ctl_error
  | StateFailed ctl_error
  | DesiredFailed ctl_error
  | ListFailed api_error
  | DiffFailed diff_error
  | ActionFailed act_error

record 'w outside =
  api_server :: "'w server"
  snap :: "'w \<Rightarrow> api"
  fetch_configs :: "'w \<Rightarrow> string \<Rightarrow> configs_reply"
  diff_slice :: "string slice \<Rightarrow> string slice \<Rightarrow> change list"
  diff_map :: "(string, string) gomap option \<Rightarrow> (string, string) gomap option \<Rightarrow> change list"
  diff_spec :: "xfrm_pod_spec \<Rightarrow> xfrm_pod_spec \<Rightarrow> bool"

section \<open>The status of all connections\<close>

text \<open>The delay of each connection overwrites that of the one before.\<close>

fun update_all ::
  "'w outside \<Rightarrow> envs \<Rightarrow> int \<Rightarrow> int option \<Rightarrow> ipsec_conn list \<Rightarrow> 'w \<Rightarrow> (int option \<times> ctl_error option) \<times> 'w"
where
  "update_all out env now rq [] w = ((rq, None), w)"
| "update_all out env now rq (c # cs) w =
     (case updateIPSecConnectionStatus env (snap out w) now c of (c', rq2, err) \<Rightarrow>
        (case err of
           Some e \<Rightarrow> ((rq2, Some e), w)
         | None \<Rightarrow> (case sv_update_status (api_server out) c' w of
              (Err e, w') \<Rightarrow> ((rq2, Some (PlainApiError e)), w')
            | (_, w') \<Rightarrow> update_all out env now rq2 cs w')))"

definition UpdateStatus ::
  "'w outside \<Rightarrow> envs \<Rightarrow> int \<Rightarrow> 'w \<Rightarrow> (int option \<times> ctl_error option) \<times> 'w"
where
  "UpdateStatus out env now w = (case ListConns (snap out w) of
      Ok cs \<Rightarrow> update_all out env now None cs w
    | Err e \<Rightarrow> ((None, Some (PlainApiError e)), w)
    | Panic \<Rightarrow> ((None, None), w))"

text \<open>\<open>apierrors.IsConflict\<close> looks through wrapped errors.\<close>

fun is_conflict :: "ctl_error option \<Rightarrow> bool" where
  "is_conflict (Some (PlainApiError e)) = (e = ApiConflict)"
| "is_conflict (Some (NoCharonPod e)) = (e = ApiConflict)"
| "is_conflict _ = False"

text \<open>The retries; the number is what is left of \<open>UpdateStatusMaxRetries\<close>.\<close>

fun retry_status ::
  "'w outside \<Rightarrow> envs \<Rightarrow> int \<Rightarrow> nat \<Rightarrow> (int option \<times> ctl_error option) \<times> 'w
   \<Rightarrow> ((int option \<times> ctl_error option) \<times> nat) \<times> 'w"
where
  "retry_status out env now 0 (r, w) = ((r, 0), w)"
| "retry_status out env now (Suc n) (r, w) =
     (if is_conflict (snd r) then retry_status out env now n (UpdateStatus out env now w)
      else ((r, Suc n), w))"

section \<open>One pass\<close>

definition res :: "int option \<Rightarrow> int list \<Rightarrow> int" where
  "res rq ts = (case rq of
      None \<Rightarrow> if ts = [] then 60 * second_ns else Min (set ts)
    | Some d \<Rightarrow> Min (set (ts @ [d])))"

definition act_pass ::
  "'w outside \<Rightarrow> envs \<Rightarrow> reconciler \<Rightarrow> int option \<Rightarrow> 'w
   \<Rightarrow> ((recon_error, int) outcome \<times> reconciler \<times> 'w) option"
where
  "act_pass out env r rq w =
     (case GetClusterState env (snap out w) of
        Err e \<Rightarrow> Some (Err (StateFailed e), r, w)
      | Panic \<Rightarrow> Some (Panic, r, w)
      | Ok current \<Rightarrow>
     (case CreateDesiredState env (snap out w) of
        Err e \<Rightarrow> Some (Err (DesiredFailed e), r, w)
      | Panic \<Rightarrow> Some (Panic, r, w)
      | Ok desired \<Rightarrow>
     (case ListConns (snap out w) of
        Err e \<Rightarrow> Some (Err (ListFailed e), r, w)
      | Panic \<Rightarrow> Some (Panic, r, w)
      | Ok conns \<Rightarrow>
     (case DiffStates (diff_slice out) (diff_map out) (fetch_configs out w) r desired current conns of
        (Err e, r') \<Rightarrow> Some (Err (DiffFailed e), r', w)
      | (Panic, r') \<Rightarrow> Some (Panic, r', w)
      | (Ok actions, r') \<Rightarrow>
     (case in_order (Do (api_server out) (diff_spec out) env) actions w of
        None \<Rightarrow> None
      | Some (Err e, w') \<Rightarrow> Some (Err (ActionFailed e), r', w')
      | Some (Panic, w') \<Rightarrow> Some (Panic, r', w')
      | Some (Ok _, w') \<Rightarrow>
          Some (Ok (if NotLoadedConns r' \<noteq> [] then res rq [3 * second_ns] else res rq []), r', w'))))))"

definition Reconcile ::
  "'w outside \<Rightarrow> envs \<Rightarrow> int \<Rightarrow> reconciler \<Rightarrow> nsn \<Rightarrow> 'w
   \<Rightarrow> ((recon_error, int) outcome \<times> reconciler \<times> 'w) option"
where
  "Reconcile out env now r req w =
     (let sv = api_server out;
          w = snd (sv_get_pod sv \<lparr>nsn_name = env_PodName env, nsn_namespace = NamespaceName env\<rparr> w)
      in (case sv_get_pod sv req w of (got, w) \<Rightarrow>
        let pass = (case retry_status out env now UpdateStatusMaxRetries (UpdateStatus out env now w) of
              (((rq, err), left), w) \<Rightarrow>
                (case err of
                   Some e \<Rightarrow> if left = 0 then Some (Err (StatusFailed e), r, w) else act_pass out env r rq w
                 | None \<Rightarrow> act_pass out env r rq w))
        in (case got of
              Ok pod \<Rightarrow> if PodIP pod = [] then Some (Ok second_ns, r, w) else pass
            | Err e \<Rightarrow> if e \<noteq> ApiNotFound then Some (Err (FetchPodFailed e), r, w) else pass
            | Panic \<Rightarrow> Some (Panic, r, w))))"

section \<open>Properties\<close>

lemma update_all_last:
  "update_all out env now rq (cs @ [c]) w = ((rq', None), w') \<Longrightarrow>
   \<exists>w1 c'. updateIPSecConnectionStatus env (snap out w1) now c = (c', rq', None)"
proof (induction cs arbitrary: rq w)
  case Nil
  then show ?case
    by (auto split: prod.splits option.splits outcome.splits)
next
  case (Cons d cs)
  then show ?case
    by (auto split: prod.splits option.splits outcome.splits)
qed

text \<open>
  Only the last connection decides when the reconciler comes back: when \<open>UpdateStatus\<close>
  succeeds, the delay it returns is the one computed for the last connection in the list, and
  those of the others, which may have addresses about to expire, are forgotten.
\<close>

theorem UpdateStatus_last_delay:
  assumes "ListConns (snap out w) = Ok (cs @ [c])" and "UpdateStatus out env now w = ((rq, None), w')"
  shows "\<exists>w1 c'. updateIPSecConnectionStatus env (snap out w1) now c = (c', rq, None)"
proof -
  from assms have "update_all out env now None (cs @ [c]) w = ((rq, None), w')"
    by (simp add: UpdateStatus_def)
  then show ?thesis by (rule update_all_last)
qed

text \<open>A cluster without connections, groups and pods; the pod asked for does not exist.\<close>

definition empty_outside :: "store outside" where
  "empty_outside = \<lparr>api_server = map_server, snap = (\<lambda>_. quiet_api\<lparr>ListConns := Ok []\<rparr>),
     fetch_configs = (\<lambda>_ _. LoadedConns []), diff_slice = ref_slice_diff, diff_map = ref_map_diff,
     diff_spec = xfrm_spec_deep_eq\<rparr>"

definition pool_outside :: "store outside" where
  "pool_outside = empty_outside\<lparr>snap := (\<lambda>w. pool_api\<lparr>ListConns := Ok (gvals (st_Conns w))\<rparr>)\<rparr>"

definition empty_store :: store where
  "empty_store = \<lparr>st_Pods = [], st_Conns = [], st_Groups = [], st_Secrets = [], st_Jobs = [], st_Posts = []\<rparr>"

text \<open>\<open>pool_conn\<close> has a pending address; the connection after it has none.\<close>

definition two_conns :: store where
  "two_conns = empty_store\<lparr>st_Conns := [(''c'', pool_conn), (''d'', two_children\<lparr>cn_Name := ''d''\<rparr>)]\<rparr>"

lemma pool_update_ok:
  assumes "updateIPSecConnectionStatus sample_envs (pool_api\<lparr>ListConns := l\<rparr>) 0 c = (c', rq, err)"
  shows "err = None" "cn_Name c' = cn_Name c" "PendingIPs (Status c) = None \<Longrightarrow> rq = None"
  using assms by (auto simp: updateIPSecConnectionStatus_def pool_api_def quiet_api_def Let_def requeue_in_def)

theorem UpdateStatus_last_delay_witness:
  "fst (fst (UpdateStatus pool_outside sample_envs 0 two_conns)) = None"
proof -
  let ?d = "two_children\<lparr>cn_Name := ''d''\<rparr>"
  have snap: "snap pool_outside w = pool_api\<lparr>ListConns := Ok (gvals (st_Conns w))\<rparr>" for w
    by (simp add: pool_outside_def)
  have conns: "ListConns (snap pool_outside two_conns) = Ok ([pool_conn] @ [?d])"
    by (simp add: snap two_conns_def)
  obtain c1 rq1 e1 where u1: "updateIPSecConnectionStatus sample_envs (snap pool_outside two_conns) 0 pool_conn = (c1, rq1, e1)"
    by (metis surj_pair)
  note c1 = pool_update_ok(1,2) [OF u1 [unfolded snap]]
  have n: "cn_Name c1 = ''c''" using c1(2) by (simp add: pool_conn_def two_children_def)
  obtain w1 where w1: "sv_update_status map_server c1 two_conns = (Ok (), w1)"
    "gget (st_Conns w1) ''d'' = Some ?d"
    using n by (simp add: map_server_def conn_key_def two_conns_def gget_put)
  obtain c2 rq2 e2 where u2: "updateIPSecConnectionStatus sample_envs (snap pool_outside w1) 0 ?d = (c2, rq2, e2)"
    by (metis surj_pair)
  note c2 = pool_update_ok [OF u2 [unfolded snap]]
  obtain w2 where w2: "sv_update_status map_server c2 w1 = (Ok (), w2)"
    using c2(2) w1(2) by (simp add: map_server_def conn_key_def)
  have srv: "api_server pool_outside = map_server" by (simp add: pool_outside_def empty_outside_def)
  have U: "UpdateStatus pool_outside sample_envs 0 two_conns = ((rq2, None), w2)"
    using u1 u2 c1 c2 w1 w2 by (simp add: UpdateStatus_def conns srv)
  from UpdateStatus_last_delay [OF conns U] obtain w c' where
    "updateIPSecConnectionStatus sample_envs (snap pool_outside w) 0 ?d = (c', rq2, None)" by blast
  from pool_update_ok(3) [OF this [unfolded snap]] U show ?thesis
    by (simp add: two_children_def zero_status_def)
qed

lemma act_pass_success:
  assumes "act_pass out env r rq w = Some (Ok d, r', w')"
  shows "\<exists>current desired conns acts. GetClusterState env (snap out w) = Ok current
    \<and> CreateDesiredState env (snap out w) = Ok desired \<and> ListConns (snap out w) = Ok conns
    \<and> DiffStates (diff_slice out) (diff_map out) (fetch_configs out w) r desired current conns = (Ok acts, r')
    \<and> in_order (Do (api_server out) (diff_spec out) env) acts w = Some (Ok (), w')
    \<and> d = (if NotLoadedConns r' \<noteq> [] then res rq [3 * second_ns] else res rq [])"
  using assms unfolding act_pass_def
  by (auto split: outcome.splits prod.splits option.splits)

lemma Reconcile_done:
  assumes "Reconcile out env now r req w = Some (Ok d, r', w')"
  shows "(\<exists>w1 p. fst (sv_get_pod (api_server out) req w1) = Ok p \<and> PodIP p = [] \<and> d = second_ns)
    \<or> (\<exists>w1 rq current desired conns acts. GetClusterState env (snap out w1) = Ok current
        \<and> CreateDesiredState env (snap out w1) = Ok desired \<and> ListConns (snap out w1) = Ok conns
        \<and> DiffStates (diff_slice out) (diff_map out) (fetch_configs out w1) r desired current conns = (Ok acts, r')
        \<and> in_order (Do (api_server out) (diff_spec out) env) acts w1 = Some (Ok (), w')
        \<and> (NotLoadedConns r' \<noteq> [] \<longrightarrow> d \<le> 3 * second_ns))"
proof -
  have le: "res rq [3 * second_ns] \<le> 3 * second_ns" for rq
    by (cases rq) (auto simp: res_def)
  let ?w1 = "snd (sv_get_pod (api_server out) \<lparr>nsn_name = env_PodName env, nsn_namespace = NamespaceName env\<rparr> w)"
  obtain got w2 where g: "sv_get_pod (api_server out) req ?w1 = (got, w2)"
    by (cases "sv_get_pod (api_server out) req ?w1")
  obtain rq err left w3 where s: "retry_status out env now UpdateStatusMaxRetries (UpdateStatus out env now w2)
      = (((rq, err), left), w3)" by (metis surj_pair)
  consider p where "got = Ok p" "PodIP p = []" "d = second_ns"
    | "act_pass out env r rq w3 = Some (Ok d, r', w')"
    using assms unfolding Reconcile_def Let_def g prod.case s
    by (auto split: outcome.splits if_splits option.splits)
  then show ?thesis
  proof cases
    case (1 p)
    with g have "fst (sv_get_pod (api_server out) req ?w1) = Ok p" by simp
    with 1 show ?thesis by blast
  next
    case 2
    from act_pass_success [OF this] le [of rq] show ?thesis by auto
  qed
qed

text \<open>A pass over an empty cluster asks for nothing.\<close>

lemma empty_pass:
  assumes "\<not> IsMonitoringEnabled env"
  shows "Reconcile empty_outside env 0 r req empty_store
    = Some (Ok (if NotLoadedConns r \<noteq> [] then 3 * second_ns else 60 * second_ns), r, empty_store)"
proof -
  have p: "sv_get_pod map_server k empty_store = (Err ApiNotFound, empty_store)" for k
    by (simp add: map_server_def empty_store_def lookup_or_def)
  have o: "api_server empty_outside = map_server" "snap empty_outside w = quiet_api\<lparr>ListConns := Ok []\<rparr>"
    "diff_spec empty_outside = xfrm_spec_deep_eq" for w
    by (simp_all add: empty_outside_def)
  have U: "UpdateStatus empty_outside env 0 empty_store = ((None, None), empty_store)"
    by (simp add: UpdateStatus_def o)
  have G: "GetClusterState env (quiet_api\<lparr>ListConns := Ok []\<rparr>) = Ok \<lparr>Groups = [], PodMonitor = False\<rparr>"
    by (simp add: GetClusterState_def quiet_api_def monitor_present_def GetClusterPodsAs_def
        GetClusterPodsByType_def GetClusterIPSecs_def Let_def)
  have D: "CreateDesiredState env (quiet_api\<lparr>ListConns := Ok []\<rparr>) = Ok \<lparr>Groups = [], PodMonitor = False\<rparr>"
    using assms by (simp add: CreateDesiredState_def CreateNodes_def CreateClusterNodes_def Let_def)
  have "act_pass empty_outside env r None empty_store
      = Some (Ok (if NotLoadedConns r \<noteq> [] then 3 * second_ns else 60 * second_ns), r, empty_store)"
    by (simp add: act_pass_def o G D DiffStates_def res_def Let_def)
  then show ?thesis
    by (simp add: Reconcile_def o p U Let_def UpdateStatusMaxRetries_def numeral_eq_Suc)
qed

text \<open>
  C24. \<open>Reconcile\<close> reports success only when all its work is done: unless it stops because the pod
  it was called for has no address yet (and comes back in a second), both states could be
  computed, the comparison succeeded and every action was carried out without an error, a failed
  restart of a connection included; the delay is then 3 seconds at most while a connection is not
  loaded.
\<close>

theorem Reconcile_success:
  assumes "Reconcile out env now r req w = Some (Ok d, r', w')"
  shows "(\<exists>w1 p. fst (sv_get_pod (api_server out) req w1) = Ok p \<and> PodIP p = [] \<and> d = second_ns)
    \<or> (\<exists>w1 rq current desired conns acts. GetClusterState env (snap out w1) = Ok current
        \<and> CreateDesiredState env (snap out w1) = Ok desired \<and> ListConns (snap out w1) = Ok conns
        \<and> DiffStates (diff_slice out) (diff_map out) (fetch_configs out w1) r desired current conns = (Ok acts, r')
        \<and> in_order (Do (api_server out) (diff_spec out) env) acts w1 = Some (Ok (), w')
        \<and> (NotLoadedConns r' \<noteq> [] \<longrightarrow> d \<le> 3 * second_ns))"
  using assms by (rule Reconcile_done)

theorem Reconcile_success_witness:
  "\<exists>w1 acts. in_order (Do map_server xfrm_spec_deep_eq sample_envs) acts w1 = Some (Ok (), empty_store)"
proof -
  have "\<not> IsMonitoringEnabled sample_envs" by (simp add: sample_envs_def)
  from empty_pass [OF this, of sample_reconciler "\<lparr>nsn_name = ''x'', nsn_namespace = ''y''\<rparr>"]
  have R: "Reconcile empty_outside sample_envs 0 sample_reconciler \<lparr>nsn_name = ''x'', nsn_namespace = ''y''\<rparr> empty_store
      = Some (Ok (60 * second_ns), sample_reconciler, empty_store)"
    by (simp add: sample_reconciler_def)
  have "60 * second_ns \<noteq> second_ns" by (simp add: second_ns_def)
  with Reconcile_success [OF R] show ?thesis by (auto simp: empty_outside_def)
qed

end
