(* ===== verification/Go_Net.thy ===== *)
theory Go_Net
  imports Json "HOL-Library.Word"
begin

unbundle bit_operations_syntax

text \<open>
  The part of Go's \<open>net\<close> and \<open>net/netip\<close> packages that the validating webhook calls:
  \<open>net.ParseCIDR\<close> with the two address parsers behind it, the masks, and \<open>IPNet.Contains\<close>.
  An address is its list of bytes; \<open>As16\<close> puts an IPv4 address behind the prefix
  \<open>::ffff:0:0/96\<close>, and \<open>To4\<close> takes it off again. Of the errors only their presence is kept.
\<close>

type_synonym bytes = "8 word list"

section \<open>Parsing addresses\<close>

text \<open>
  \<open>parseIPv4Fields\<close>: the value and the number of digits of the current octet and the octets
  before it. At a dot, no digit since the start or the last dot is an error.
\<close>

fun v4_fields :: "nat \<Rightarrow> nat \<Rightarrow> bytes \<Rightarrow> string \<Rightarrow> bytes option" where
  "v4_fields val digLen fields [] = (if length fields < 3 then None else Some (fields @ [of_nat val]))"
| "v4_fields val digLen fields (c # cs) =
     (case char_digit c of
        Some d \<Rightarrow>
          if digLen = 1 \<and> val = 0 then None
          else if val * 10 + d > 255 then None
          else v4_fields (val * 10 + d) (digLen + 1) fields cs
      | None \<Rightarrow>
          if c \<noteq> CHR ''.'' then None
          else if digLen = 0 \<or> cs = [] then None
          else if length fields = 3 then None
          else v4_fields 0 0 (fields @ [of_nat val]) cs)"

definition parse_v4 :: "string \<Rightarrow> bytes option" where
  "parse_v4 s = v4_fields 0 0 [] s"

text \<open>\<open>parseIPv6\<close>: one group of at most four hexadecimal digits, then the loop over the groups.\<close>

fun hex_group :: "nat \<Rightarrow> nat \<Rightarrow> string \<Rightarrow> (nat \<times> nat \<times> string) option" where
  "hex_group off acc [] = Some (off, acc, [])"
| "hex_group off acc (c # cs) =
     (case char_hex c of
        None \<Rightarrow> Some (off, acc, c # cs)
      | Some d \<Rightarrow> if off > 3 then None else hex_group (off + 1) (acc * 16 + d) cs)"

function v6_groups :: "bytes \<Rightarrow> nat option \<Rightarrow> string \<Rightarrow> (bytes \<times> nat option \<times> string) option" where
  "v6_groups ip ellipsis s =
     (if length ip \<ge> 16 then Some (ip, ellipsis, s)
      else (case hex_group 0 0 s of
        None \<Rightarrow> None
      | Some (off, acc, rest) \<Rightarrow>
          if off = 0 then None
          else if rest \<noteq> [] \<and> hd rest = CHR ''.'' then
            (if ellipsis = None \<and> length ip \<noteq> 12 then None
             else if length ip + 4 > 16 then None
             else (case parse_v4 s of None \<Rightarrow> None | Some b \<Rightarrow> Some (ip @ b, ellipsis, [])))
          else
            (let ip = ip @ [of_nat (acc div 256), of_nat acc] in
             (case rest of
                [] \<Rightarrow> Some (ip, ellipsis, [])
              | c # s \<Rightarrow>
                  if c \<noteq> CHR '':'' then None
                  else if s = [] then None
                  else if hd s = CHR '':'' then
                    (if ellipsis \<noteq> None then None
                     else if tl s = [] then Some (ip, Some (length ip), [])
                     else v6_groups ip (Some (length ip)) (tl s))
                  else v6_groups ip ellipsis s))))"
  by pat_completeness auto
termination by (relation "measure (\<lambda>(ip, _, _). 16 - length ip)") auto

declare v6_groups.simps [simp del]

definition expand :: "bytes \<times> nat option \<times> string \<Rightarrow> bytes option" where
  "expand r = (case r of (ip, ellipsis, s) \<Rightarrow>
     if s \<noteq> [] then None
     else if length ip < 16 then
       (case ellipsis of
          None \<Rightarrow> None
        | Some e \<Rightarrow> Some (take e ip @ replicate (16 - length ip) 0 @ drop e ip))
     else if ellipsis \<noteq> None then None else Some ip)"

definition parse_v6 :: "string \<Rightarrow> bytes option" where
  "parse_v6 s =
     (if take 2 s = ''::'' then
        (if drop 2 s = [] then Some (replicate 16 0)
         else Option.bind (v6_groups [] (Some 0) (drop 2 s)) expand)
      else Option.bind (v6_groups [] None s) expand)"

text \<open>
  \<open>netip.ParseAddr\<close> for addresses without a zone, which \<open>ParseCIDR\<close> refuses: the first
  character that is a dot, a colon or a percent sign decides.
\<close>

datatype addr = V4 bytes | V6 bytes

definition parse_addr :: "string \<Rightarrow> addr option" where
  "parse_addr s =
     (if list_contains s (CHR ''%'') then None
      else (case find (\<lambda>c. c = CHR ''.'' \<or> c = CHR '':'') s of
          None \<Rightarrow> None
        | Some c \<Rightarrow> if c = CHR ''.'' then map_option V4 (parse_v4 s) else map_option V6 (parse_v6 s)))"

fun BitLen :: "addr \<Rightarrow> nat" where
  "BitLen (V4 _) = 32"
| "BitLen (V6 _) = 128"

definition v4_prefix :: bytes where
  "v4_prefix = replicate 10 0 @ [255, 255]"

fun As16 :: "addr \<Rightarrow> bytes" where
  "As16 (V4 b) = v4_prefix @ b"
| "As16 (V6 b) = b"

section \<open>Networks\<close>

record ip_net =
  net_IP :: bytes
  net_Mask :: bytes

fun cidr_mask :: "nat \<Rightarrow> nat \<Rightarrow> bytes" where
  "cidr_mask n 0 = []"
| "cidr_mask n (Suc k) =
     (if n \<ge> 8 then 255 # cidr_mask (n - 8) k else NOT (drop_bit n 255) # cidr_mask 0 k)"

definition and_bytes :: "bytes \<Rightarrow> bytes \<Rightarrow> bytes" where
  "and_bytes a b = map2 (AND) a b"

definition ip_mask :: "bytes \<Rightarrow> bytes \<Rightarrow> bytes" where
  "ip_mask ip m =
     (let m = (if length m = 16 \<and> length ip = 4 \<and> take 12 m = replicate 12 255 then drop 12 m else m);
          ip = (if length m = 4 \<and> length ip = 16 \<and> take 12 ip = v4_prefix then drop 12 ip else ip)
      in if length ip \<noteq> length m then [] else and_bytes ip m)"

text \<open>\<open>dtoi\<close>: the number in front, an error from 0xFFFFFF on; what follows it is left.\<close>

fun dtoi_loop :: "nat \<Rightarrow> string \<Rightarrow> (nat \<times> string) option" where
  "dtoi_loop n [] = Some (n, [])"
| "dtoi_loop n (c # cs) =
     (case char_digit c of
        None \<Rightarrow> Some (n, c # cs)
      | Some d \<Rightarrow> if n * 10 + d \<ge> 16777215 then None else dtoi_loop (n * 10 + d) cs)"

definition dtoi :: "string \<Rightarrow> (nat \<times> string) option" where
  "dtoi s = (case s of
      [] \<Rightarrow> None
    | c # _ \<Rightarrow> if char_digit c = None then None else dtoi_loop 0 s)"

definition ParseCIDR :: "string \<Rightarrow> (bytes \<times> ip_net) option" where
  "ParseCIDR s = (case cut_at (CHR ''/'') s of (address, m, found) \<Rightarrow>
     if \<not> found then None
     else (case parse_addr address of
        None \<Rightarrow> None
      | Some a \<Rightarrow> (case dtoi m of
          None \<Rightarrow> None
        | Some (n, rest) \<Rightarrow>
            if rest \<noteq> [] \<or> n > BitLen a then None
            else (let ms = cidr_mask n (BitLen a div 8)
                  in Some (As16 a, \<lparr>net_IP = ip_mask (As16 a) ms, net_Mask = ms\<rparr>)))))"

definition To4 :: "bytes \<Rightarrow> bytes option" where
  "To4 ip = (if length ip = 4 then Some ip
     else if length ip = 16 \<and> take 12 ip = v4_prefix then Some (drop 12 ip) else None)"

definition networkNumberAndMask :: "ip_net \<Rightarrow> bytes \<times> bytes" where
  "networkNumberAndMask n = (case To4 (net_IP n) of
      Some ip \<Rightarrow> (if length (net_Mask n) = 4 then (ip, net_Mask n)
                else if length (net_Mask n) = 16 then (ip, drop 12 (net_Mask n)) else ([], []))
    | None \<Rightarrow> (if length (net_IP n) \<noteq> 16 then ([], [])
             else if length (net_Mask n) = 16 then (net_IP n, net_Mask n) else ([], [])))"

definition net_contains :: "ip_net \<Rightarrow> bytes \<Rightarrow> bool" where
  "net_contains n ip =
     (case networkNumberAndMask n of (nn, m) \<Rightarrow>
        let x = (case To4 ip of Some y \<Rightarrow> y | None \<Rightarrow> ip)
        in length x = length nn \<and> and_bytes nn m = and_bytes x m)"

section \<open>IPv4 networks\<close>

lemma v4_fields_length: "v4_fields v d f s = Some b \<Longrightarrow> length f \<le> 3 \<Longrightarrow> length b = 4"
  by (induction v d f s rule: v4_fields.induct) (auto split: option.splits if_splits)

lemma parse_v4_length: "parse_v4 s = Some b \<Longrightarrow> length b = 4"
  using v4_fields_length [of 0 0 "[]" s b] by (simp add: parse_v4_def)

lemma length_cidr_mask [simp]: "length (cidr_mask n k) = k"
  by (induction n k rule: cidr_mask.induct) auto

lemma length_and_bytes [simp]: "length (and_bytes a b) = min (length a) (length b)"
  by (simp add: and_bytes_def)

lemma and_bytes_idem: "and_bytes (and_bytes a m) m = and_bytes a m"
  by (induction a m rule: list_induct2') (simp_all add: and_bytes_def and.assoc)

lemma length_v4_prefix [simp]: "length v4_prefix = 12"
  by (simp add: v4_prefix_def)

lemma contains_v4:
  assumes "length b = 4" "length b' = 4"
  shows "net_contains \<lparr>net_IP = ip_mask (As16 (V4 b)) (cidr_mask n 4), net_Mask = cidr_mask n 4\<rparr> (As16 (V4 b'))
    \<longleftrightarrow> and_bytes b (cidr_mask n 4) = and_bytes b' (cidr_mask n 4)"
  using assms
  by (simp add: net_contains_def networkNumberAndMask_def ip_mask_def To4_def Let_def and_bytes_idem)

text \<open>Evaluation on IPv4 networks written out.\<close>

lemma cidr_mask_v4: "cidr_mask n 4 = cidr_mask n (Suc (Suc (Suc (Suc 0))))"
  by (simp add: numeral_eq_Suc)

lemmas eval_cidr = ParseCIDR_def parse_addr_def parse_v4_def dtoi_def char_digit_def cidr_mask_v4 Let_def

lemmas eval_contains = net_contains_def networkNumberAndMask_def ip_mask_def To4_def and_bytes_def v4_prefix_def
  Let_def numeral_eq_Suc

end
