(* ===== verification/Xfrminion.thy ===== *)
theory Xfrminion
  imports Go_Net Server
begin

text \<open>
  The server in the xfrm pod, \<open>cmd/xfrminion/main.go\<close>, and \<open>pkg/netconfig/netif.go\<close>: the handlers
  that set up the VXLAN interface and that add and delete routes and forwarding entries. The
  kernel behind the netlink library and the program \<open>bridge\<close> are parameters, functions on a state
  of any type \<open>'k\<close>. A handler ends with the answer 200 (\<open>Ok\<close>), with another status, with a panic,
  which the HTTP server turns into a closed connection, or with the end of the process.
\<close>

section \<open>The kernel\<close>

record link =
  lk_Type :: string
  lk_Name :: string
  lk_Index :: int

record route =
  rt_LinkIndex :: int
  rt_Dst :: "ip_net option"

record vxlan_link =
  vx_Name :: string
  VxlanId :: int
  vx_Port :: int
  SrcAddr :: bytes
  VtepDevIndex :: int
  Learning :: bool

datatype kernel_error = FileExists | KernelError string

record 'k netlink =
  kn_LinkList :: "'k \<Rightarrow> (kernel_error, link list) outcome \<times> 'k"
  kn_LinkByName :: "string \<Rightarrow> 'k \<Rightarrow> (kernel_error, link) outcome \<times> 'k"
  kn_LinkAdd :: "vxlan_link \<Rightarrow> 'k \<Rightarrow> (kernel_error, unit) outcome \<times> 'k"
  kn_LinkSetUp :: "link \<Rightarrow> 'k \<Rightarrow> (kernel_error, unit) outcome \<times> 'k"
  kn_AddrList :: "link \<Rightarrow> 'k \<Rightarrow> (kernel_error, ip_net list) outcome \<times> 'k"
  kn_AddrAdd :: "link \<Rightarrow> ip_net \<Rightarrow> 'k \<Rightarrow> (kernel_error, unit) outcome \<times> 'k"
  kn_RouteList :: "link \<Rightarrow> 'k \<Rightarrow> (kernel_error, route list) outcome \<times> 'k"
  kn_RouteAdd :: "route \<Rightarrow> 'k \<Rightarrow> (kernel_error, unit) outcome \<times> 'k"
  kn_RouteDel :: "route \<Rightarrow> 'k \<Rightarrow> (kernel_error, unit) outcome \<times> 'k"
  kn_run :: "string list \<Rightarrow> 'k \<Rightarrow> (string \<times> bool) \<times> 'k"  \<comment> \<open>combined output, no error\<close>

section \<open>Handlers\<close>

datatype reply = Replied int | Exited

text \<open>\<open>writeError\<close> reads the message of its error, so a nil error panics.\<close>

definition writeError :: "'e option \<Rightarrow> int option \<Rightarrow> ('k, reply, 'a) io" where
  "writeError err status = (case err of
      None \<Rightarrow> crash
    | Some _ \<Rightarrow> fail (Replied (case status of Some n \<Rightarrow> n | None \<Rightarrow> 400)))"

definition or_400 :: "('k \<Rightarrow> ('e, 'a) outcome \<times> 'k) \<Rightarrow> ('k, reply, 'a) io" where
  "or_400 c = call (\<lambda>_. Replied 400) c"

definition or_exit :: "('k \<Rightarrow> ('e, 'a) outcome \<times> 'k) \<Rightarrow> ('k, reply, 'a) io" where
  "or_exit c = call (\<lambda>_. Exited) c"

definition read_request :: "'a body \<Rightarrow> ('k, reply, 'a) io" where
  "read_request b = (case b of Parsed r \<Rightarrow> ret r | _ \<Rightarrow> writeError (Some b) None)"

text \<open>The loop keeps the last link of the type.\<close>

definition last_link :: "string \<Rightarrow> link list \<Rightarrow> link option" where
  "last_link ty links = foldl (\<lambda>acc l. if lk_Type l = ty then Some l else acc) None links"

definition command :: "'k netlink \<Rightarrow> string list \<Rightarrow> ('k, reply, string \<times> bool) io" where
  "command kn args = (\<lambda>w. case kn_run kn args w of (r, w') \<Rightarrow> Some (Ok r, w'))"

definition run_bridge :: "'k netlink \<Rightarrow> string \<Rightarrow> string \<Rightarrow> string \<Rightarrow> ('k, reply, unit) io" where
  "run_bridge kn op dev dst =
     bnd (command kn [''bridge'', ''fdb'', op, ''00:00:00:00:00:00'', ''dev'', dev, ''dst'', dst]) (\<lambda>(out, ok).
     if out \<noteq> [] \<or> \<not> ok then writeError (if ok then None else Some ()) (Some 409) else ret ())"

definition addBridgeFDB :: "'k netlink \<Rightarrow> string body \<Rightarrow> ('k, reply, unit) io" where
  "addBridgeFDB kn b =
     bnd (read_request b) (\<lambda>ciliumIP.
     bnd (or_400 (kn_LinkList kn)) (\<lambda>links.
     case last_link ''vxlan'' links of
       None \<Rightarrow> writeError (None :: unit option) None
     | Some l \<Rightarrow> run_bridge kn ''append'' (lk_Name l) ciliumIP))"

definition deleteBridgeFDB :: "'k netlink \<Rightarrow> string body \<Rightarrow> ('k, reply, unit) io" where
  "deleteBridgeFDB kn b =
     bnd (read_request b) (\<lambda>ciliumIP.
     bnd (or_400 (kn_LinkList kn)) (\<lambda>links.
     case last_link ''vxlan'' links of
       None \<Rightarrow> crash
     | Some l \<Rightarrow>
         bnd (run_bridge kn ''delete'' (lk_Name l) ciliumIP) (\<lambda>_.
         bnd (command kn [''bash'', ''-c'', ''bridge fdb show | grep '' @ ciliumIP
             @ '' | awk '' @ [CHR 0x27] @ ''{print $1}'' @ [CHR 0x27] @ '' | xargs -I {arg} bridge fdb del {arg} dev '' @ lk_Name l
             @ '' dst '' @ ciliumIP]) (\<lambda>_. ret ()))))"

definition parse_dst :: "string \<Rightarrow> ('k, reply, ip_net) io" where
  "parse_dst s = (case ParseCIDR s of None \<Rightarrow> writeError (Some ()) None | Some (_, n) \<Rightarrow> ret n)"

text \<open>An error that says \<open>file exists\<close> counts as success.\<close>

definition unless_exists :: "('k \<Rightarrow> (kernel_error, unit) outcome \<times> 'k) \<Rightarrow> ('k, reply, unit) io" where
  "unless_exists c = bnd (attempt c) (\<lambda>r. case r of
      Inl e \<Rightarrow> if e \<noteq> FileExists then writeError (Some e) None else ret ()
    | Inr _ \<Rightarrow> ret ())"

definition addLocalRoute :: "'k netlink \<Rightarrow> string body \<Rightarrow> ('k, reply, unit) io" where
  "addLocalRoute kn b =
     bnd (read_request b) (\<lambda>vxlanIP.
     bnd (or_400 (kn_LinkList kn)) (\<lambda>links.
     case last_link ''vxlan'' links of
       None \<Rightarrow> writeError (Some ()) None
     | Some l \<Rightarrow> bnd (parse_dst vxlanIP) (\<lambda>n.
         unless_exists (kn_RouteAdd kn \<lparr>rt_LinkIndex = lk_Index l, rt_Dst = Some n\<rparr>))))"

definition deleteLocalRoute :: "'k netlink \<Rightarrow> string body \<Rightarrow> ('k, reply, unit) io" where
  "deleteLocalRoute kn b =
     bnd (read_request b) (\<lambda>vxlanIP.
     bnd (or_400 (kn_LinkList kn)) (\<lambda>links.
     case last_link ''vxlan'' links of
       None \<Rightarrow> writeError (Some ()) None
     | Some l \<Rightarrow> bnd (parse_dst vxlanIP) (\<lambda>n.
         or_400 (kn_RouteDel kn \<lparr>rt_LinkIndex = lk_Index l, rt_Dst = Some n\<rparr>))))"

definition addRemoteRoute :: "'k netlink \<Rightarrow> string body \<Rightarrow> ('k, reply, unit) io" where
  "addRemoteRoute kn b =
     bnd (read_request b) (\<lambda>remoteIP.
     bnd (or_400 (kn_LinkList kn)) (\<lambda>links.
     case last_link ''xfrm'' links of
       None \<Rightarrow> writeError (None :: unit option) None
     | Some l \<Rightarrow> bnd (parse_dst remoteIP) (\<lambda>n.
         unless_exists (kn_RouteAdd kn \<lparr>rt_LinkIndex = lk_Index l, rt_Dst = Some n\<rparr>))))"

definition deleteRemoteRoute :: "'k netlink \<Rightarrow> string body \<Rightarrow> ('k, reply, unit) io" where
  "deleteRemoteRoute kn b =
     bnd (read_request b) (\<lambda>remoteIP.
     bnd (or_400 (kn_LinkList kn)) (\<lambda>links.
     case last_link ''xfrm'' links of
       None \<Rightarrow> writeError (None :: unit option) None
     | Some l \<Rightarrow> bnd (parse_dst remoteIP) (\<lambda>n.
         unless_exists (kn_RouteDel kn \<lparr>rt_LinkIndex = lk_Index l, rt_Dst = Some n\<rparr>))))"

section \<open>Setting up the VXLAN interface\<close>

text \<open>Whether \<open>IPNet.String\<close> is \<open>0.0.0.0/0\<close>; a nil network has another text.\<close>

definition is_default :: "ip_net option \<Rightarrow> bool" where
  "is_default d = (case d of None \<Rightarrow> False
    | Some n \<Rightarrow> networkNumberAndMask n = ([0, 0, 0, 0], [0, 0, 0, 0]))"

fun default_link :: "'k netlink \<Rightarrow> link list \<Rightarrow> ('k, reply, link) io" where
  "default_link kn [] = fail (Replied 400)"
| "default_link kn (l # ls) =
     bnd (or_400 (kn_RouteList kn l)) (\<lambda>routes.
     if list_ex (\<lambda>r. is_default (rt_Dst r)) routes then ret l else default_link kn ls)"

definition FindDefaultInterface :: "'k netlink \<Rightarrow> ('k, reply, link) io" where
  "FindDefaultInterface kn = bnd (or_400 (kn_LinkList kn)) (default_link kn)"

fun octets :: "string list \<Rightarrow> (num_error, bytes) outcome" where
  "octets [] = Ok []"
| "octets (s # ss) = (case parse_uint 8 s of
      (_, Some e) \<Rightarrow> Err e
    | (n, None) \<Rightarrow> obind (octets ss) (\<lambda>bs. Ok (of_nat n # bs)))"

definition IpToByteArray :: "string \<Rightarrow> (num_error, bytes) outcome" where
  "IpToByteArray ip = octets (split_on (CHR ''.'') ip)"

text \<open>Four octets are read by index; fewer panic, more are left.\<close>

definition IPv4 :: "bytes \<Rightarrow> ('e, bytes) outcome" where
  "IPv4 b = (if length b < 4 then Panic else Ok (v4_prefix @ take 4 b))"

definition CIDRMask32 :: "int \<Rightarrow> bytes" where
  "CIDRMask32 i = (if i < 0 \<or> i > 32 then [] else cidr_mask (nat i) 4)"

text \<open>The comparison of four bytes by index, from the left; a missing byte panics.\<close>

fun same_bytes :: "nat \<Rightarrow> bytes \<Rightarrow> bytes \<Rightarrow> bool option" where
  "same_bytes 0 _ _ = Some True"
| "same_bytes (Suc n) (a # as) (b # bs) = (if a = b then same_bytes n as bs else Some False)"
| "same_bytes _ _ _ = None"

text \<open>The first route to the network is deleted.\<close>

fun drop_connected :: "'k netlink \<Rightarrow> ip_net \<Rightarrow> route list \<Rightarrow> ('k, reply, unit) io" where
  "drop_connected kn local [] = ret ()"
| "drop_connected kn local (r # rs) = (case rt_Dst r of
      None \<Rightarrow> crash
    | Some d \<Rightarrow> (case same_bytes 4 (net_IP d) (net_IP local) of
        None \<Rightarrow> crash
      | Some True \<Rightarrow> or_exit (kn_RouteDel kn r)
      | Some False \<Rightarrow> drop_connected kn local rs))"

definition fatal_unless :: "bool \<Rightarrow> ('k, reply, unit) io" where
  "fatal_unless ok = (if ok then ret () else fail Exited)"

definition setup_xfrm :: "'k netlink \<Rightarrow> string \<Rightarrow> string \<Rightarrow> ip_net \<Rightarrow> ('k, reply, unit) io" where
  "setup_xfrm kn name xfrmIP xfrmIpNet =
     bnd (or_exit (kn_LinkByName kn name)) (\<lambda>iface.
     bnd (or_exit (kn_AddrAdd kn iface xfrmIpNet)) (\<lambda>_.
     bnd (fatal_unless (ParseCIDR xfrmIP \<noteq> None)) (\<lambda>_.
     bnd (or_exit (kn_LinkSetUp kn iface)) (\<lambda>_.
     bnd (or_exit (kn_RouteList kn iface)) (\<lambda>routes.
     drop_connected kn (snd (the (ParseCIDR xfrmIP))) routes)))))"

definition setup_vxlan :: "'k netlink \<Rightarrow> vxlan_link \<Rightarrow> string \<Rightarrow> bytes \<Rightarrow> ('k, reply, unit) io" where
  "setup_vxlan kn template vxlanIP vmask =
     bnd (or_exit (kn_LinkAdd kn template)) (\<lambda>_.
     bnd (or_exit (kn_LinkByName kn (vx_Name template))) (\<lambda>iface.
     case cut_at (CHR ''/'') vxlanIP of (vip, _, found) \<Rightarrow>
     bnd (fatal_unless found) (\<lambda>_.
     bnd (or_exit (Pair (IpToByteArray vip))) (\<lambda>b.
     bnd (or_exit (Pair (IPv4 b :: (unit, bytes) outcome))) (\<lambda>addr.
     bnd (or_exit (kn_AddrAdd kn iface \<lparr>net_IP = addr, net_Mask = vmask\<rparr>)) (\<lambda>_.
     or_exit (kn_LinkSetUp kn iface)))))))"

record setup_request =
  rq_XfrmIP :: string
  rq_XfrmID :: int
  rq_VxlanIP :: string

definition setupVxlan :: "'k netlink \<Rightarrow> setup_request body \<Rightarrow> ('k, reply, unit) io" where
  "setupVxlan kn b =
     bnd (read_request b) (\<lambda>rq.
     bnd (FindDefaultInterface kn) (\<lambda>cilium.
     bnd (or_400 (kn_AddrList kn cilium)) (\<lambda>addrs.
     if addrs = [] then writeError (Some ()) None else
     (case cut_at (CHR ''/'') (rq_XfrmIP rq) of (xfrmIp, subnet, found) \<Rightarrow>
     bnd (fatal_unless found) (\<lambda>_.
     bnd (or_400 (Pair (IpToByteArray xfrmIp))) (\<lambda>xb.
     (case parse_int 8 subnet of
        (_, Some e) \<Rightarrow> writeError (Some e) None
      | (i, None) \<Rightarrow>
          bnd (or_400 (Pair (IPv4 xb :: (unit, bytes) outcome))) (\<lambda>xaddr.
          bnd (setup_xfrm kn (''xfrm'' @ show_int (rq_XfrmID rq)) (rq_XfrmIP rq)
                 \<lparr>net_IP = xaddr, net_Mask = CIDRMask32 i\<rparr>) (\<lambda>_.
          setup_vxlan kn
            \<lparr>vx_Name = ''vxlan'' @ show_int (rq_XfrmID rq), VxlanId = rq_XfrmID rq, vx_Port = 4789,
             SrcAddr = net_IP (hd addrs), VtepDevIndex = lk_Index cilium, Learning = True\<rparr>
            (rq_VxlanIP rq) (CIDRMask32 i))))))))))"

section \<open>The server\<close>

text \<open>
  The handlers under their paths (\<open>main\<close>), for requests of the client in \<open>pkg/comms\<close>: a field that
  the request does not have stays empty. The paths \<open>/pid\<close> and \<open>/healthz\<close> touch no state.
\<close>

fun req_vxlan :: "post_request \<Rightarrow> string" where
  "req_vxlan (LocalRouteRequest v) = v"
| "req_vxlan (SetupVxlanRequest _ v _) = v"
| "req_vxlan _ = []"

fun req_remote :: "post_request \<Rightarrow> string" where
  "req_remote (RemoteRouteRequest v) = v"
| "req_remote _ = []"

fun req_cilium :: "post_request \<Rightarrow> string" where
  "req_cilium (BridgeFdbRequest v) = v"
| "req_cilium _ = []"

fun req_setup :: "post_request \<Rightarrow> setup_request" where
  "req_setup (SetupVxlanRequest x v i) = \<lparr>rq_XfrmIP = x, rq_XfrmID = i, rq_VxlanIP = v\<rparr>"
| "req_setup r = \<lparr>rq_XfrmIP = [], rq_XfrmID = 0, rq_VxlanIP = req_vxlan r\<rparr>"

definition xfrminion :: "'k netlink \<Rightarrow> string \<times> post_request \<Rightarrow> ('k, reply, unit) io" where
  "xfrminion kn r = (case r of (path, req) \<Rightarrow>
     if path = '':8080/setupVxlan'' then setupVxlan kn (Parsed (req_setup req))
     else if path = '':8080/addBridgeFDB'' then addBridgeFDB kn (Parsed (req_cilium req))
     else if path = '':8080/addLocalRoute'' then addLocalRoute kn (Parsed (req_vxlan req))
     else if path = '':8080/addRemoteRoute'' then addRemoteRoute kn (Parsed (req_remote req))
     else if path = '':8080/deleteBridgeFDB'' then deleteBridgeFDB kn (Parsed (req_cilium req))
     else if path = '':8080/deleteLocalRoute'' then deleteLocalRoute kn (Parsed (req_vxlan req))
     else if path = '':8080/deleteRemoteRoute'' then deleteRemoteRoute kn (Parsed (req_remote req))
     else fail (Replied 404))"

end
