(* ===== verification/Mutate.thy ===== *)
theory Mutate
  imports Status Server
begin

text \<open>
  The mutating admission webhook, \<open>internal/webhook/v1/mutating_webhook.go\<close>: it gives a worker
  pod an address of a pool of its connection and returns the JSON patch that prepares the pod.
  The lease of \<open>k8slock\<close> is outside the repository, a parameter (\<open>locker_api\<close>); the API server
  is the record \<open>server\<close>. The patch is kept as a list, before it is printed.
\<close>

section \<open>The patch\<close>

datatype patch_value =
    PString string
  | PEnv "env_var list"
  | PContainer pod_container
  | PContainers "pod_container list"

record jsonPatch =
  Op :: string
  Path :: string
  PValue :: patch_value

definition createNetAdminSecurityContext :: "string list" where
  "createNetAdminSecurityContext = [''NET_ADMIN'']"

definition initContainer :: "child \<Rightarrow> string \<Rightarrow> string \<Rightarrow> string \<Rightarrow> pod_container" where
  "initContainer c gateway ip img =
     (let remoteIps = go_join '','' (elems (RemoteIPs c))
      in \<lparr>ct_Name = InterfaceRequestContainerName, ct_Image = img, ct_PullPolicy = ''Always'',
          ct_Mounts = [], ct_Ports = [],
          ct_Env = [\<lparr>ev_Name = ''VXLAN_IP'', ev_Value = ip\<rparr>,
            \<lparr>ev_Name = ''XFRM_GATEWAY_IP'', ev_Value = gateway\<rparr>,
            \<lparr>ev_Name = ''INTERFACE_ID'', ev_Value = show_int (XfrmIfId c)\<rparr>,
            \<lparr>ev_Name = ''XFRM_IP'', ev_Value = XfrmIP c\<rparr>,
            \<lparr>ev_Name = ''REMOTE_IPS'', ev_Value = remoteIps\<rparr>],
          ct_Capabilities = createNetAdminSecurityContext\<rparr>)"

definition createEnvPatch :: "k8s_pod \<Rightarrow> string \<Rightarrow> jsonPatch list" where
  "createEnvPatch p ip =
     (let address = fst (cut_at (CHR ''/'') ip)
      in map (\<lambda>i. \<lparr>Op = ''add'', Path = ''/spec/containers/'' @ show_nat i @ ''/env'',
           PValue = PEnv (\<lparr>ev_Name = WorkerContainerVxlanIPEnvVarName, ev_Value = address\<rparr>
             # ct_Env (Containers p ! i))\<rparr>) [0..<length (Containers p)])"

definition createAnnotationPatch :: "(string, string) gomap \<Rightarrow> jsonPatch list" where
  "createAnnotationPatch annotations = map (\<lambda>(key, v). \<lparr>Op = ''add'',
     Path = ''/metadata/annotations/'' @ replace_first (CHR ''/'') ''~1'' key, PValue = PString v\<rparr>) annotations"

definition createLabelPatch :: "child \<Rightarrow> jsonPatch" where
  "createLabelPatch c = \<lparr>Op = ''add'', Path = ''/metadata/labels/ipman.dialo.ai~1worker'',
     PValue = PString (c_Name c)\<rparr>"

definition createInitContainerPatch :: "k8s_pod \<Rightarrow> child \<Rightarrow> string \<Rightarrow> string \<Rightarrow> string \<Rightarrow> jsonPatch" where
  "createInitContainerPatch p c gateway ip img =
     (if length (InitContainers p) = 0
      then \<lparr>Op = ''add'', Path = ''/spec/initContainers'', PValue = PContainers [initContainer c gateway ip img]\<rparr>
      else \<lparr>Op = ''add'', Path = ''/spec/initContainers/-'', PValue = PContainer (initContainer c gateway ip img)\<rparr>)"

text \<open>Neither \<open>ap\<close> nor \<open>ep\<close> is ever nil, so the two early returns of \<open>patch\<close> are not taken.\<close>

definition make_patch ::
  "k8s_pod \<Rightarrow> string \<Rightarrow> string \<Rightarrow> (string, string) gomap \<Rightarrow> child \<Rightarrow> string \<Rightarrow> jsonPatch list"
where
  "make_patch p ip gateway annotations c img =
     createAnnotationPatch annotations @ [createInitContainerPatch p c gateway ip img]
       @ createEnvPatch p ip @ [createLabelPatch c]"

definition worker_annotations :: "child \<Rightarrow> string \<Rightarrow> string \<Rightarrow> (string, string) gomap" where
  "worker_annotations c ip gateway =
     [(AnnotationVxlanIP, ip), (AnnotationXfrmIP, XfrmIP c),
      (AnnotationIntefaceID, show_int (XfrmIfId c)),
      (AnnotationRemoteIPs, print_json (json_strings (RemoteIPs c))),
      (AnnotationLocalIPs, print_json (json_strings (LocalIPs c))),
      (AnnotationXfrmUnderlyingIP, gateway)]"

section \<open>The allocation\<close>

text \<open>
  The branch of the source that answers that the pool cannot be found is not taken: an absent pool
  has no free addresses, which is tested before.
\<close>

datatype webhook_error =
    MissingAnnotations
  | NoClientset
  | NoLease
  | NoConnection
  | NoMatchingChild
  | NoFreeIPs
  | XfrmNotReady
  | GatewayUnassigned
  | StatusUpdateFailed api_error

definition take_ip :: "string \<Rightarrow> string \<Rightarrow> string list \<Rightarrow> string \<Rightarrow> string \<Rightarrow> ipsec_conn \<Rightarrow> ipsec_conn" where
  "take_ip childName poolName rest ip timestamp conn =
     (let st = Status conn;
          pools = (case gget (gmap_of (FreeIPs st)) childName of None \<Rightarrow> [] | Some m \<Rightarrow> m)
      in conn\<lparr>Status := st\<lparr>FreeIPs := Some (gput childName (gput poolName rest pools) (gmap_of (FreeIPs st))),
           PendingIPs := Some (gput ip timestamp (gmap_of (PendingIPs st)))\<rparr>\<rparr>)"

definition allocate ::
  "string \<Rightarrow> string \<Rightarrow> string \<Rightarrow> ipsec_conn \<Rightarrow> (webhook_error, child \<times> string \<times> string \<times> ipsec_conn) outcome"
where
  "allocate timestamp childName poolName conn =
     (case find (\<lambda>c. c_Name c = childName) (gvals (Children (Spec conn))) of
        None \<Rightarrow> Err NoMatchingChild
      | Some c \<Rightarrow>
     (case free_of (Status conn) (c_Name c) poolName of
        None \<Rightarrow> Err NoFreeIPs
      | Some [] \<Rightarrow> Err NoFreeIPs
      | Some (ip # rest) \<Rightarrow>
     (case gget (gmap_of (XfrmGatewayIPs (Status conn))) (c_Name c) of
        None \<Rightarrow> Err XfrmNotReady
      | Some gateway \<Rightarrow>
          if gateway = [] then Err GatewayUnassigned
          else Ok (c, ip, gateway, take_ip (c_Name c) poolName rest ip timestamp conn))))"

section \<open>The handler\<close>

record 'w locker_api =
  lk_clientset :: bool
  lk_new :: "string \<Rightarrow> 'w \<Rightarrow> (api_error, unit) outcome \<times> 'w"
  lk_lock :: "string \<Rightarrow> ('w, webhook_error, unit) io"
  lk_unlock :: "string \<Rightarrow> ('w, webhook_error, unit) io"

text \<open>The loop around \<open>NewLocker\<close> ends only when the answer is not \<open>AlreadyExists\<close>.\<close>

partial_function (option) new_lease :: "'w locker_api \<Rightarrow> string \<Rightarrow> ('w, webhook_error, unit) io" where
  "new_lease lk name w =
     (case lk_new lk name w of
        (Ok _, w) \<Rightarrow> Some (Ok (), w)
      | (Panic, w) \<Rightarrow> Some (Panic, w)
      | (Err e, w) \<Rightarrow> if e = ApiAlreadyExists then new_lease lk name w else Some (Err NoLease, w))"

record pod_review =
  rv_Kind :: string
  rv_DryRun :: "bool option"
  rv_Pod :: k8s_pod

datatype mutation = NoPatch | Patched "jsonPatch list"

definition MutatingWebhook_ServeHTTP ::
  "'w server \<Rightarrow> 'w locker_api \<Rightarrow> envs \<Rightarrow> wall_clock \<Rightarrow> pod_review option \<Rightarrow> ('w, webhook_error, mutation) io"
where
  "MutatingWebhook_ServeHTTP sv lk env now request =
     (case request of
        None \<Rightarrow> crash
      | Some rv \<Rightarrow>
          if rv_Kind rv \<noteq> ''Pod'' then ret NoPatch
          else let isDryRun = (rv_DryRun rv = Some True);
                   pod = rv_Pod rv;
                   child_ann = gget (Annotations pod) AnnotationChildName;
                   ipman_ann = gget (Annotations pod) AnnotationIpmanName;
                   pool_ann = gget (Annotations pod) AnnotationPoolName
               in if child_ann = None \<and> ipman_ann = None \<and> pool_ann = None then ret NoPatch
                  else (case (child_ann, ipman_ann, pool_ann) of
                     (Some childName, Some ipmanName, Some poolName) \<Rightarrow>
                       if \<not> lk_clientset lk then fail NoClientset
                       else let dummy = (isDryRun \<or> IsTest env);
                                leaseName = go_join ''-'' [LeasePrefix, ipmanName, LeasePostfix]
                            in bnd (if dummy then ret () else new_lease lk leaseName) (\<lambda>_.
                               bnd (if dummy then ret () else lk_lock lk leaseName) (\<lambda>_.
                               bnd (call (\<lambda>_. NoConnection) (sv_get_conn sv ipmanName)) (\<lambda>conn.
                               bnd (from_outcome (allocate (format_layout now) childName poolName conn)) (\<lambda>(c, ip, gateway, conn').
                               let patch = make_patch pod ip gateway (worker_annotations c ip gateway) c (VxlandlordImage env)
                               in if \<not> isDryRun \<and> \<not> IsTest env
                                  then bnd (attempt (sv_update_status sv conn')) (\<lambda>r. case r of
                                      Inl e \<Rightarrow> bnd (lk_unlock lk leaseName) (\<lambda>_. fail (StatusUpdateFailed e))
                                    | Inr _ \<Rightarrow> ret (Patched patch))
                                  else ret (Patched patch)))))
                   | _ \<Rightarrow> fail MissingAnnotations))"

section \<open>What an allocation does\<close>

lemma allocate_Ok:
  assumes "allocate ts cn pn conn = Ok (c, ip, gateway, conn')"
  shows "find (\<lambda>c. c_Name c = cn) (gvals (Children (Spec conn))) = Some c" and "c_Name c = cn"
    and "\<exists>rest. free_of (Status conn) cn pn = Some (ip # rest) \<and> conn' = take_ip cn pn rest ip ts conn"
    and "gget (gmap_of (XfrmGatewayIPs (Status conn))) cn = Some gateway" "gateway \<noteq> []"
proof -
  from assms obtain d where d: "find (\<lambda>c. c_Name c = cn) (gvals (Children (Spec conn))) = Some d"
    by (auto simp: allocate_def split: option.splits)
  then have "c_Name d = cn" using find_Some_in by fastforce
  with assms d show "find (\<lambda>c. c_Name c = cn) (gvals (Children (Spec conn))) = Some c" "c_Name c = cn"
    "\<exists>rest. free_of (Status conn) cn pn = Some (ip # rest) \<and> conn' = take_ip cn pn rest ip ts conn"
    "gget (gmap_of (XfrmGatewayIPs (Status conn))) cn = Some gateway" "gateway \<noteq> []"
    by (auto simp: allocate_def split: option.splits list.splits if_splits)
qed

lemma free_of_take_ip:
  "free_of (Status (take_ip cn pn rest ip ts conn)) c p
     = (if c = cn \<and> p = pn then Some rest else free_of (Status conn) c p)"
  by (auto simp: take_ip_def free_of_def Let_def gget_put split: option.splits)

lemma pending_take_ip:
  "gget (gmap_of (PendingIPs (Status (take_ip cn pn rest ip ts conn)))) i
     = (if i = ip then Some ts else gget (gmap_of (PendingIPs (Status conn))) i)"
  by (simp add: take_ip_def Let_def gget_put)

lemma take_ip_rest [simp]:
  "Spec (take_ip cn pn rest ip ts conn) = Spec conn" "cn_Name (take_ip cn pn rest ip ts conn) = cn_Name conn"
  "XfrmGatewayIPs (Status (take_ip cn pn rest ip ts conn)) = XfrmGatewayIPs (Status conn)"
  by (simp_all add: take_ip_def Let_def)

end
