(* ===== verification/Node_Tools.thy ===== *)
theory Node_Tools
  imports Xfrminion Mutate Exec
begin

text \<open>
  The programs that run once: vxlandlord, the init container of a worker pod
  (\<open>cmd/vxlandlord/main.go\<close>), xfrminjector, the job that moves an xfrm interface into the xfrm
  pod (\<open>cmd/xfrminjector/main.go\<close>), and the environment that the operator reads
  (\<open>cmd/operator/main.go\<close>). They end normally (\<open>Ok\<close>), leave with status 1 (\<open>Err Exited\<close>) or panic.
  Their environment is a function from names to values, empty when unset, as \<open>os.Getenv\<close> gives it.
  At the end, \<open>IsValidIPv4\<close> and \<open>MapF\<close> of \<open>pkg/utils/utils.go\<close>.
\<close>

section \<open>The kernel\<close>

record via_route =
  vr_LinkIndex :: int
  vr_Dst :: "ip_net option"
  vr_Src :: bytes
  vr_Gw :: "bytes option"  \<comment> \<open>with the on-link flag when there is one\<close>

record xfrm_link =
  xl_Name :: string
  ParentIndex :: int
  Ifid :: "32 word"

record 'k tools =
  to_netlink :: "'k netlink"
  to_LinkDel :: "link \<Rightarrow> 'k \<Rightarrow> (kernel_error, unit) outcome \<times> 'k"
  to_RouteAdd :: "via_route \<Rightarrow> 'k \<Rightarrow> (kernel_error, unit) outcome \<times> 'k"
  to_ReadFile :: "string \<Rightarrow> 'k \<Rightarrow> (kernel_error, string) outcome \<times> 'k"
  to_GetFromPid :: "int \<Rightarrow> 'k \<Rightarrow> (kernel_error, int) outcome \<times> 'k"
  to_GetNs :: "'k \<Rightarrow> (kernel_error, int) outcome \<times> 'k"
  to_SetNs :: "int \<Rightarrow> 'k \<Rightarrow> (kernel_error, unit) outcome \<times> 'k"
  to_AddXfrm :: "xfrm_link \<Rightarrow> 'k \<Rightarrow> (kernel_error, unit) outcome \<times> 'k"
  to_LinkSetNsPid :: "xfrm_link \<Rightarrow> int \<Rightarrow> 'k \<Rightarrow> (kernel_error, unit) outcome \<times> 'k"

text \<open>An error of a step that another program would answer with a status ends these programs.\<close>

definition exit_on_err :: "('k, 'e, 'a) io \<Rightarrow> ('k, reply, 'a) io" where
  "exit_on_err m = (\<lambda>k. case m k of
      None \<Rightarrow> None
    | Some (Ok v, k') \<Rightarrow> Some (Ok v, k')
    | Some (Err _, k') \<Rightarrow> Some (Err Exited, k')
    | Some (Panic, k') \<Rightarrow> Some (Panic, k'))"

section \<open>vxlandlord\<close>

text \<open>An interface that exists is deleted and the creation fails all the same.\<close>

definition createVxlan :: "'k tools \<Rightarrow> link \<Rightarrow> bytes \<Rightarrow> int \<Rightarrow> ('k, reply, link) io" where
  "createVxlan tk underlying local_ip ifid =
     (let kn = to_netlink tk; name = ''vxlan'' @ show_int ifid
      in bnd (attempt (kn_LinkAdd kn \<lparr>vx_Name = name, VxlanId = ifid, vx_Port = 4789, SrcAddr = local_ip,
             VtepDevIndex = lk_Index underlying, Learning = False\<rparr>)) (\<lambda>r. case r of
           Inl _ \<Rightarrow> bnd (or_exit (kn_LinkByName kn name)) (\<lambda>l. bnd (or_exit (to_LinkDel tk l)) (\<lambda>_. fail Exited))
         | Inr _ \<Rightarrow> or_exit (kn_LinkByName kn name)))"

record vxlan_params =
  vp_VxlanIP :: string
  vp_XfrmIP :: string
  vp_IfId :: int
  vp_Gateway :: string
  vp_RemoteIPs :: "string list"

definition read_params :: "(string \<Rightarrow> string) \<Rightarrow> vxlan_params" where
  "read_params getenv = \<lparr>vp_VxlanIP = getenv ''VXLAN_IP'', vp_XfrmIP = getenv ''XFRM_IP'',
     vp_IfId = fst (parse_int 64 (getenv ''INTERFACE_ID'')), vp_Gateway = getenv ''XFRM_GATEWAY_IP'',
     vp_RemoteIPs = split_on (CHR '','') (getenv ''REMOTE_IPS'')\<rparr>"

section \<open>Addresses written with dots (utils.go)\<close>

text \<open>
  The regular expression of \<open>IsValidIPv4\<close>: an octet at a word boundary and three times a dot with
  an octet, anywhere in the string. The remainders are those after each way to match an octet.
\<close>

definition is_digit_in :: "nat \<Rightarrow> nat \<Rightarrow> char \<Rightarrow> bool" where
  "is_digit_in lo hi c = (case char_digit c of None \<Rightarrow> False | Some d \<Rightarrow> lo \<le> d \<and> d \<le> hi)"

fun is_octet :: "string \<Rightarrow> bool" where
  "is_octet [a] = is_digit_in 0 9 a"
| "is_octet [a, b] = (is_digit_in 0 9 a \<and> is_digit_in 0 9 b)"
| "is_octet [a, b, c] = (is_digit_in 0 1 a \<and> is_digit_in 0 9 b \<and> is_digit_in 0 9 c
     \<or> a = CHR ''2'' \<and> is_digit_in 0 4 b \<and> is_digit_in 0 9 c
     \<or> a = CHR ''2'' \<and> b = CHR ''5'' \<and> is_digit_in 0 5 c)"
| "is_octet _ = False"

definition octet_rests :: "string \<Rightarrow> string list" where
  "octet_rests s = map (\<lambda>n. drop n s) (filter (\<lambda>n. n \<le> length s \<and> is_octet (take n s)) [1, 2, 3])"

fun dotted :: "nat \<Rightarrow> string \<Rightarrow> bool" where
  "dotted 0 s = True"
| "dotted (Suc n) [] = False"
| "dotted (Suc n) (c # s) = (c = CHR ''.'' \<and> list_ex (dotted n) (octet_rests s))"

definition word_char :: "char \<Rightarrow> bool" where
  "word_char c = (let n = of_char c :: nat in (48 \<le> n \<and> n \<le> 57) \<or> (65 \<le> n \<and> n \<le> 90) \<or> (97 \<le> n \<and> n \<le> 122) \<or> n = 95)"

definition IsValidIPv4 :: "string \<Rightarrow> bool" where
  "IsValidIPv4 s = list_ex (\<lambda>i. (i = 0 \<or> \<not> word_char (s ! (i - 1))) \<and> list_ex (dotted 3) (octet_rests (drop i s)))
     [0..<length s]"

definition MapF :: "('a \<Rightarrow> 'b) \<Rightarrow> 'a list \<Rightarrow> 'b list" where
  "MapF f vs = map f vs"

section \<open>vxlandlord, continued\<close>

text \<open>A remote network that cannot be parsed is not reported: the route then has no destination.\<close>

fun add_remotes :: "'k tools \<Rightarrow> int \<Rightarrow> bytes \<Rightarrow> bytes \<Rightarrow> string list \<Rightarrow> ('k, reply, unit) io" where
  "add_remotes tk index src gw [] = ret ()"
| "add_remotes tk index src gw (r # rs) =
     bnd (or_exit (to_RouteAdd tk \<lparr>vr_LinkIndex = index, vr_Dst = map_option snd (ParseCIDR r), vr_Src = src,
       vr_Gw = Some gw\<rparr>)) (\<lambda>_. add_remotes tk index src gw rs)"

definition subnet_of :: "string \<Rightarrow> string \<times> string" where
  "subnet_of ip = (case cut_at (CHR ''/'') ip of (address, m, found) \<Rightarrow> (address, if found then m else ''32''))"

definition octets_of :: "string \<Rightarrow> ('k, reply, bytes) io" where
  "octets_of s = bnd (or_exit (Pair (IpToByteArray s))) (\<lambda>b. or_exit (Pair (IPv4 b :: (unit, bytes) outcome)))"

definition parsed_int :: "nat \<Rightarrow> string \<Rightarrow> ('k, reply, int) io" where
  "parsed_int bits s = (case parse_int bits s of (n, None) \<Rightarrow> ret n | (_, Some _) \<Rightarrow> fail Exited)"

definition setup_worker :: "'k tools \<Rightarrow> vxlan_params \<Rightarrow> link \<Rightarrow> bytes \<Rightarrow> bytes \<Rightarrow> bytes \<Rightarrow> bytes \<Rightarrow> ('k, reply, unit) io" where
  "setup_worker tk p cilium ciliumIP vmask vxaddr xaddr =
     bnd (createVxlan tk cilium ciliumIP (vp_IfId p)) (\<lambda>vxlan.
     bnd (or_exit (kn_LinkSetUp (to_netlink tk) vxlan)) (\<lambda>_.
     bnd (ignore_err (or_exit (kn_AddrAdd (to_netlink tk) vxlan \<lparr>net_IP = vxaddr, net_Mask = vmask\<rparr>))) (\<lambda>_.
     bnd (fatal_unless (IsValidIPv4 (vp_Gateway p))) (\<lambda>_.
     bnd (command (to_netlink tk) [''bridge'', ''fdb'', ''append'', ''00:00:00:00:00:00'', ''dev'',
         ''vxlan'' @ show_int (vp_IfId p), ''dst'', vp_Gateway p]) (\<lambda>(_, ok).
     bnd (fatal_unless ok) (\<lambda>_.
     bnd (or_exit (to_RouteAdd tk \<lparr>vr_LinkIndex = lk_Index vxlan,
         vr_Dst = Some \<lparr>net_IP = xaddr, net_Mask = CIDRMask32 32\<rparr>, vr_Src = vxaddr, vr_Gw = None\<rparr>)) (\<lambda>_.
     add_remotes tk (lk_Index vxlan) vxaddr xaddr (vp_RemoteIPs p))))))))"

definition vxlandlord :: "'k tools \<Rightarrow> (string \<Rightarrow> string) \<Rightarrow> ('k, reply, unit) io" where
  "vxlandlord tk getenv =
     bnd (exit_on_err (FindDefaultInterface (to_netlink tk))) (\<lambda>cilium.
     bnd (or_exit (kn_AddrList (to_netlink tk) cilium)) (\<lambda>addrs.
     bnd (fatal_unless (addrs \<noteq> [])) (\<lambda>_.
     let p = read_params getenv
     in (case subnet_of (vp_VxlanIP p) of (vip, subnet) \<Rightarrow>
          bnd (parsed_int 8 subnet) (\<lambda>i.
          bnd (octets_of vip) (\<lambda>vxaddr.
          bnd (octets_of (fst (cut_at (CHR ''/'') (vp_XfrmIP p)))) (\<lambda>xaddr.
          setup_worker tk p cilium (net_IP (hd addrs)) (CIDRMask32 i) vxaddr xaddr)))))))"

section \<open>xfrminjector\<close>

definition injected_link :: "string \<Rightarrow> int \<Rightarrow> link \<Rightarrow> xfrm_link" where
  "injected_link xfrmID ifid parent =
     \<lparr>xl_Name = ''xfrm'' @ xfrmID, ParentIndex = lk_Index parent, Ifid = word_of_int ifid\<rparr>"

definition xfrminjector :: "'k tools \<Rightarrow> (string \<Rightarrow> string) \<Rightarrow> ('k, reply, unit) io" where
  "xfrminjector tk getenv =
     bnd (parsed_int 64 (getenv ''TARGET_PID'')) (\<lambda>target.
     bnd (parsed_int 64 (getenv ''XFRM_ID'')) (\<lambda>ifid.
     bnd (or_exit (to_ReadFile tk (CharonSocketVolumeMountPath @ ''charon.pid''))) (\<lambda>pidText.
     bnd (parsed_int 64 (trim_space pidText)) (\<lambda>source.
     bnd (or_exit (to_GetFromPid tk source)) (\<lambda>ns.
     bnd (or_exit (to_GetNs tk)) (\<lambda>_.
     bnd (or_exit (to_SetNs tk ns)) (\<lambda>_.
     bnd (if getenv ''INTERFACE_NAME'' = [] then exit_on_err (FindDefaultInterface (to_netlink tk))
          else or_exit (kn_LinkByName (to_netlink tk) (getenv ''INTERFACE_NAME''))) (\<lambda>parent.
     bnd (or_exit (to_AddXfrm tk (injected_link (getenv ''XFRM_ID'') ifid parent))) (\<lambda>_.
     or_exit (to_LinkSetNsPid tk (injected_link (getenv ''XFRM_ID'') ifid parent) target))))))))))"

section \<open>The environment of the operator\<close>

definition operator_envs :: "(string \<Rightarrow> string) \<Rightarrow> (num_error, envs) outcome" where
  "operator_envs getenv =
     (case parse_int 64 (getenv ''POD_WAIT_TIMEOUT'') of
        (_, Some e) \<Rightarrow> Err e
      | (timeout, None) \<Rightarrow>
     (case (if getenv ''XFRMINJECTOR_TTL_SECONDS'' = [] then Ok None
            else (case parse_int 32 (getenv ''XFRMINJECTOR_TTL_SECONDS'') of
                (_, Some e) \<Rightarrow> Err e | (n, None) \<Rightarrow> Ok (Some (word_of_int n)))) of
        Ok ttl \<Rightarrow> Ok
         \<lparr>NamespaceName = getenv ''NAMESPACE_NAME'', HostSocketsPath = getenv ''HOST_SOCKETS_PATH'',
          XfrminionImage = getenv ''XFRMINION_IMAGE'', XfrminionPullPolicy = getenv ''XFRMINION_PULL_POLICY'',
          XfrminjectorImage = getenv ''XFRMINJECTOR_IMAGE'',
          XfrminjectorPullPolicy = getenv ''XFRMINJECTOR_PULL_POLICY'', XfrminjectorTTL = ttl,
          CharonDaemonImage = getenv ''CHARONDAEMON_IMAGE'', CharonDaemonPullPolicy = getenv ''CHARON_PULL_POLICY'',
          VxlandlordImage = getenv ''VXLANDLORD_IMAGE'', RestctlImage = getenv ''RESTCTL_IMAGE'',
          RestctlPullPolicy = getenv ''RESTCTL_PULL_POLICY'', CaddyImage = getenv ''CADDY_IMAGE'',
          CaddyProxyPullPolicy = getenv ''PROXY_PULL_POLICY'', IsTest = False, WaitForPodTimeoutSeconds = timeout,
          IsMonitoringEnabled = (getenv ''MONITORING_ENABLED'' = ''true''),
          MonitoringScrapeInterval = getenv ''MONITORING_SCRAPE_INTERVAL'',
          MonitoringReleaseName = getenv ''MONITORING_RELEASE_NAME'',
          env_ServiceAccountName = getenv ''SERVICE_ACCOUNT_NAME'', env_PodName = getenv ''POD_NAME''\<rparr>
      | Err e \<Rightarrow> Err e
      | Panic \<Rightarrow> Panic))"

end
