(* ===== verification/Operator.thy ===== *)
theory Operator
  imports Reconcile Node_Tools
begin

text \<open>
  The operator as a program: its start (\<open>main\<close> of \<open>cmd/operator/main.go\<close>), and its run as a
  sequence of passes of the reconciler, which share what the reconciler remembers between them: the names of the
  connections it knows, of those that are not loaded, and two metrics.
\<close>

section \<open>The start\<close>

text \<open>The steps of the framework that may fail; the flags say whether they succeed.\<close>

record framework =
  fw_NewManager :: bool
  fw_SetupController :: bool
  fw_AddServer :: bool

datatype start_error = NoManager | BadEnvironment num_error | NoController | NoWebhookServer

datatype webhook = MutatingWebhook envs | ValidatingWebhook envs

record operator =
  op_Env :: envs
  op_Reconciler :: reconciler
  op_Webhooks :: "(string \<times> webhook) list"

definition new_reconciler :: reconciler where
  "new_reconciler = \<lparr>NotLoadedConns = [], AllConns = [], NotLoadedMetric = 0, ConnectionsStatusMetric = []\<rparr>"

definition operator_main :: "framework \<Rightarrow> (string \<Rightarrow> string) \<Rightarrow> (start_error, operator) outcome" where
  "operator_main fw getenv =
     (if \<not> fw_NewManager fw then Err NoManager
      else obind (map_err BadEnvironment (operator_envs getenv)) (\<lambda>e.
        if \<not> fw_SetupController fw then Err NoController
        else if \<not> fw_AddServer fw then Err NoWebhookServer
        else Ok \<lparr>op_Env = e, op_Reconciler = new_reconciler,
          op_Webhooks = [(''/mutating'', MutatingWebhook e), (''/validating'', ValidatingWebhook e)]\<rparr>))"

section \<open>The passes\<close>

text \<open>
  The passes that follow each other, whatever the outside is like at each of them, what starts them, and how they
  end; \<open>A\<close> says what is known of the outside. The framework runs one pass at a time.
\<close>

inductive passes :: "('w outside \<Rightarrow> bool) \<Rightarrow> envs \<Rightarrow> reconciler \<Rightarrow> reconciler \<Rightarrow> bool" for A env where
  none: "passes A env r r"
| pass: "passes A env r r' \<Longrightarrow> A out \<Longrightarrow> Reconcile out env now r' req w = Some (result, r'', w') \<Longrightarrow> passes A env r r''"

text \<open>
  A relation of what the reconciler remembers before and after that every comparison of restctl pods
  respects, when the list of connections is as \<open>C\<close> says, is respected by every pass.
\<close>

locale remembered =
  fixes R :: "reconciler \<Rightarrow> reconciler \<Rightarrow> bool" and C :: "ipsec_conn list \<Rightarrow> bool"
  assumes same: "R r r"
    and later: "R r r' \<Longrightarrow> R r' r'' \<Longrightarrow> R r r''"
    and proxy: "C conns \<Longrightarrow> R r (snd (diffProxy fetch r d c conns))"
begin

lemma group: "C conns \<Longrightarrow> R r (snd (diff_group dslice dmap fetch conns r gs cgs))"
  using same proxy [of conns r fetch "Proxy gs" "Proxy cgs"] by (simp add: diff_group_def Let_def case_prod_unfold)

lemma all_groups: "C conns \<Longrightarrow> R r (snd (diff_groups dslice dmap fetch conns current r gss))"
proof (induction gss arbitrary: r)
  case (Cons gs gss)
  show ?case
  proof (cases "findGroup (GroupRef gs) current")
    case (Some i)
    obtain o1 r1 where g: "diff_group dslice dmap fetch conns r gs (Groups current ! i) = (o1, r1)"
      by (cases "diff_group dslice dmap fetch conns r gs (Groups current ! i)")
    then have "R r r1" using group [OF Cons.prems] by (metis snd_conv)
    with Some g later [OF _ Cons.IH [OF Cons.prems, of r1]] show ?thesis
      by (cases o1) (auto simp: case_prod_unfold)
  qed (use Cons in simp)
qed (simp add: same)

lemma states: "C conns \<Longrightarrow> R r (snd (DiffStates dslice dmap fetch r desired current conns))"
  using all_groups by (simp add: DiffStates_def Let_def case_prod_unfold)

lemma act_pass_remembers:
  assumes C: "\<And>w cs. ListConns (snap out w) = Ok cs \<Longrightarrow> C cs" and p: "act_pass out env r rq w = Some (result, r', w')"
  shows "R r r'"
proof -
  consider "r' = r" | current desired conns acts where "ListConns (snap out w) = Ok conns"
      "DiffStates (diff_slice out) (diff_map out) (fetch_configs out w) r desired current conns = (acts, r')"
    using p unfolding act_pass_def by (auto split: outcome.splits prod.splits option.splits)
  then show ?thesis
  proof cases
    case 2
    from states [OF C [OF 2(1)], of r] 2(2) show ?thesis by (metis snd_conv)
  qed (simp add: same)
qed

lemma Reconcile_remembers:
  assumes C: "\<And>w cs. ListConns (snap out w) = Ok cs \<Longrightarrow> C cs" and p: "Reconcile out env now r req w = Some (result, r', w')"
  shows "R r r'"
proof -
  obtain got w2 where g: "sv_get_pod (api_server out) req
      (snd (sv_get_pod (api_server out) \<lparr>nsn_name = env_PodName env, nsn_namespace = NamespaceName env\<rparr> w)) = (got, w2)"
    by (metis surj_pair)
  obtain rq err left w3 where s: "retry_status out env now UpdateStatusMaxRetries (UpdateStatus out env now w2)
      = (((rq, err), left), w3)" by (metis surj_pair)
  consider "r' = r" | "act_pass out env r rq w3 = Some (result, r', w')"
    using p unfolding Reconcile_def Let_def g prod.case s by (auto split: outcome.splits if_splits option.splits)
  then show ?thesis
  proof cases
    case 2
    from act_pass_remembers [OF C this] show ?thesis .
  qed (simp add: same)
qed

lemma passes_remember:
  assumes "passes A env r r'" and A: "\<And>out w cs. A out \<Longrightarrow> ListConns (snap out w) = Ok cs \<Longrightarrow> C cs"
  shows "R r r'"
  using assms(1)
proof induction
  case (pass r r' out now req w result r'' w')
  have "C cs" if "ListConns (snap out w) = Ok cs" for w cs using pass.hyps(2) that by (rule A)
  from Reconcile_remembers [OF this pass.hyps(3)] have "R r' r''" .
  with pass.IH show ?case by (rule later)
qed (rule same)

end

section \<open>What the reconciler remembers\<close>

lemma drop_empty_delete [simp]:
  "drop_empty (delete_func_in_place [] (\<lambda>s. s = n) xs) = filter (\<lambda>s. s \<noteq> n) (drop_empty xs)"
  using delete_func_in_place_clean [of "\<lambda>s. s = []" "[]" "\<lambda>s. s = n" xs]
  by (simp add: drop_empty_def conj_commute)

lemma drop_empty_append [simp]: "drop_empty (xs @ ys) = drop_empty xs @ drop_empty ys"
  by (simp add: drop_empty_def)

lemma set_drop_empty [simp]: "set (drop_empty xs) = set xs - {[]}"
  by (auto simp: drop_empty_def)

definition metrics_grow :: "reconciler \<Rightarrow> reconciler \<Rightarrow> bool" where
  "metrics_grow r r' \<longleftrightarrow> NotLoadedMetric r \<le> NotLoadedMetric r'
     \<and> set (gkeys (ConnectionsStatusMetric r)) \<subseteq> set (gkeys (ConnectionsStatusMetric r'))"

lemma metrics_grow_refl: "metrics_grow r r"
  by (simp add: metrics_grow_def)

lemma metrics_grow_trans: "metrics_grow r r' \<Longrightarrow> metrics_grow r' r'' \<Longrightarrow> metrics_grow r r''"
  by (auto simp: metrics_grow_def)

definition gauges_ok :: "reconciler \<Rightarrow> bool" where
  "gauges_ok r \<longleftrightarrow> gok (ConnectionsStatusMetric r) \<and> (\<forall>n v. gget (ConnectionsStatusMetric r) n = Some v \<longrightarrow> v \<le> 1)"

lemma foldl_related:
  assumes "\<And>r x. R r (f r x)" "\<And>r. R r r" "\<And>r r' r''. R r r' \<Longrightarrow> R r' r'' \<Longrightarrow> R r r''"
  shows "R r (foldl f r xs)"
proof (induction xs arbitrary: r)
  case (Cons x xs)
  from assms(3) [OF assms(1) Cons.IH] show ?case by simp
qed (simp add: assms(2))

lemma updateMetric_keeps:
  "NotLoadedConns (updateMetric r) = NotLoadedConns r \<and> AllConns (updateMetric r) = AllConns r
    \<and> metrics_grow r (updateMetric r) \<and> (gauges_ok r \<longrightarrow> gauges_ok (updateMetric r))"
  unfolding updateMetric_def
proof (rule foldl_related [where R = "\<lambda>r r'. NotLoadedConns r' = NotLoadedConns r \<and> AllConns r' = AllConns r
    \<and> metrics_grow r r' \<and> (gauges_ok r \<longrightarrow> gauges_ok r')"], goal_cases)
  case (1 r name)
  show ?case by (auto simp: Let_def metrics_grow_def gauges_ok_def gkeys_put gget_put gok_put)
qed (auto simp: metrics_grow_def)

lemma remember_distinct: "distinct (drop_empty xs) \<Longrightarrow> distinct (drop_empty (remember_conns conns xs))"
  unfolding remember_conns_def
proof (induction conns arbitrary: xs)
  case (Cons c conns)
  have "distinct (drop_empty (if \<not> list_contains xs (cn_Name c) then xs @ [cn_Name c] else xs))"
    using Cons.prems by (auto simp: drop_empty_def)
  with Cons.IH show ?case by simp
qed simp

lemma forget_distinct: "distinct (drop_empty xs) \<Longrightarrow> distinct (drop_empty (forget_conns conns xs))"
proof -
  have "distinct (drop_empty (foldl (\<lambda>xs i. let n = xs ! i
     in if \<not> list_ex (\<lambda>c. cn_Name c = n) conns then delete_func_in_place [] (\<lambda>s. s = n) xs else xs) xs js))"
    if "distinct (drop_empty xs)" for xs js
    using that by (induction js arbitrary: xs) (simp_all add: Let_def)
  then show "distinct (drop_empty xs) \<Longrightarrow> ?thesis" by (simp add: forget_conns_def)
qed

lemma check_distinct:
  "distinct (drop_empty ns) \<Longrightarrow> distinct (drop_empty (fst (foldl (check_missing loaded) (ns, b) cs)))"
proof (induction cs arbitrary: ns b)
  case (Cons c cs)
  obtain ns1 b1 where s: "check_missing loaded (ns, b) c = (ns1, b1)" by (cases "check_missing loaded (ns, b) c")
  have "distinct (drop_empty ns1)"
    using s Cons.prems by (auto simp: check_missing_def drop_empty_def [of "[_]"] split: if_splits)
  with Cons.IH s show ?case by simp
qed simp

definition memory_ok :: "reconciler \<Rightarrow> bool" where
  "memory_ok r \<longleftrightarrow> distinct (AllConns r) \<and> [] \<notin> set (AllConns r) \<and> distinct (drop_empty (NotLoadedConns r)) \<and> gauges_ok r"

text \<open>\<open>diffProxy\<close> leaves the memory alone or updates the metrics and both lists.\<close>

lemma diffProxy_memory:
  "snd (diffProxy fetch r d c conns) = r
   \<or> (\<exists>loaded ours ns. set ours \<subseteq> set conns
      \<and> ns \<in> {fst (foldl (check_missing loaded) (NotLoadedConns r, True) ours), drop_empty (fst (foldl (check_missing loaded) (NotLoadedConns r, True) ours))}
      \<and> snd (diffProxy fetch r d c conns) = (updateMetric r)\<lparr>NotLoadedConns := ns,
          AllConns := drop_empty (forget_conns conns (remember_conns conns (AllConns r)))\<rparr>)"
proof (cases "\<exists>d' c' loaded. d = Some d' \<and> c = Some c' \<and> comparePods d c \<and> fetch (pm_IP (Meta c')) = LoadedConns loaded")
  case True
  then obtain d' c' loaded where x: "d = Some d'" "c = Some c'" "comparePods d c" "fetch (pm_IP (Meta c')) = LoadedConns loaded" by blast
  let ?ours = "filter (\<lambda>k. CharonGroupRef_Equals (PGroup d') (Group (Spec k))) conns"
  let ?ns = "fst (foldl (check_missing loaded) (NotLoadedConns r, True) ?ours)"
  have k: "NotLoadedConns (updateMetric r) = NotLoadedConns r" "AllConns (updateMetric r) = AllConns r"
    using updateMetric_keeps [of r] by auto
  have "snd (diffProxy fetch r d c conns) \<in> (\<lambda>ns. (updateMetric r)\<lparr>NotLoadedConns := ns,
      AllConns := drop_empty (forget_conns conns (remember_conns conns (AllConns r)))\<rparr>) ` {?ns, drop_empty ?ns}"
    using x k by (auto simp: diffProxy_def Let_def case_prod_unfold)
  then obtain ns where ns: "ns \<in> {?ns, drop_empty ?ns}" "snd (diffProxy fetch r d c conns) = (updateMetric r)\<lparr>NotLoadedConns := ns,
      AllConns := drop_empty (forget_conns conns (remember_conns conns (AllConns r)))\<rparr>" by blast
  have "set ?ours \<subseteq> set conns" by (rule filter_is_subset)
  with ns show ?thesis by blast
next
  case False
  then show ?thesis
    by (cases d; cases c) (auto simp: diffProxy_def Let_def split: configs_reply.split)
qed

lemma distinct_drop_empty: "distinct (drop_empty xs) \<Longrightarrow> distinct (drop_empty (drop_empty xs))"
  by (simp add: drop_empty_def)

lemma diffProxy_keeps_memory:
  "(memory_ok r \<longrightarrow> memory_ok (snd (diffProxy fetch r d c conns))) \<and> metrics_grow r (snd (diffProxy fetch r d c conns))"
  using diffProxy_memory [of fetch r d c conns]
proof (elim disjE exE conjE)
  fix loaded ours ns
  let ?r' = "snd (diffProxy fetch r d c conns)" and ?fold = "fst (foldl (check_missing loaded) (NotLoadedConns r, True) ours)"
  assume ns: "ns \<in> {?fold, drop_empty ?fold}" and r': "?r' = (updateMetric r)\<lparr>NotLoadedConns := ns,
    AllConns := drop_empty (forget_conns conns (remember_conns conns (AllConns r)))\<rparr>"
  note k = updateMetric_keeps [of r]
  have "memory_ok ?r'" if m: "memory_ok r"
  proof -
    have "distinct (drop_empty (AllConns r))" using m by (simp add: memory_ok_def drop_empty_def)
    then have "distinct (drop_empty (forget_conns conns (remember_conns conns (AllConns r))))"
      by (intro forget_distinct remember_distinct)
    moreover have "distinct (drop_empty ns)"
      using ns check_distinct [of "NotLoadedConns r" loaded True ours] m distinct_drop_empty by (auto simp: memory_ok_def)
    ultimately show ?thesis using m k by (simp add: memory_ok_def r' gauges_ok_def)
  qed
  with k show ?thesis by (simp add: r' metrics_grow_def)
qed (simp add: metrics_grow_def)

interpretation memory: remembered "\<lambda>r r'. (memory_ok r \<longrightarrow> memory_ok r') \<and> metrics_grow r r'" "\<lambda>_. True"
proof
  show "(memory_ok r \<longrightarrow> memory_ok r'') \<and> metrics_grow r r''"
    if "(memory_ok r \<longrightarrow> memory_ok r') \<and> metrics_grow r r'" "(memory_ok r' \<longrightarrow> memory_ok r'') \<and> metrics_grow r' r''" for r r' r''
    using that metrics_grow_trans by blast
qed (simp_all add: diffProxy_keeps_memory metrics_grow_refl)

text \<open>A connection that no list has stays noted.\<close>

lemma check_missing_other:
  assumes "n \<noteq> []" "n \<in> set ns" "n \<notin> cn_Name ` set cs"
  shows "n \<in> set (fst (foldl (check_missing loaded) (ns, b) cs))"
  using assms(2,3)
proof (induction cs arbitrary: ns b)
  case (Cons c cs)
  obtain ns1 b1 where s: "check_missing loaded (ns, b) c = (ns1, b1)" by (cases "check_missing loaded (ns, b) c")
  have "n \<in> set ns1"
    using s Cons.prems assms(1) by (auto simp: check_missing_def delete_in_place_mem split: if_splits)
  with Cons s show ?case by simp
qed simp

lemma diffProxy_keeps_noted:
  assumes "n \<noteq> []" "n \<notin> cn_Name ` set conns" "n \<in> set (NotLoadedConns r)"
  shows "n \<in> set (NotLoadedConns (snd (diffProxy fetch r d c conns)))"
  using diffProxy_memory [of fetch r d c conns]
proof (elim disjE exE conjE)
  fix loaded ours ns
  assume "set ours \<subseteq> set conns"
    and "ns \<in> {fst (foldl (check_missing loaded) (NotLoadedConns r, True) ours), drop_empty (fst (foldl (check_missing loaded) (NotLoadedConns r, True) ours))}"
    and r': "snd (diffProxy fetch r d c conns) = (updateMetric r)\<lparr>NotLoadedConns := ns,
      AllConns := drop_empty (forget_conns conns (remember_conns conns (AllConns r)))\<rparr>"
  moreover have "n \<in> set (fst (foldl (check_missing loaded) (NotLoadedConns r, True) ours))" if "set ours \<subseteq> set conns"
    using assms that by (intro check_missing_other) auto
  ultimately show ?thesis using assms(1) by auto
qed (use assms(3) in simp)

interpretation noted: remembered "\<lambda>r r'. n \<in> set (NotLoadedConns r) \<longrightarrow> n \<in> set (NotLoadedConns r')"
    "\<lambda>conns. n \<noteq> [] \<and> n \<notin> cn_Name ` set conns" for n
  by unfold_locales (use diffProxy_keeps_noted in auto)

definition unlisted :: "string \<Rightarrow> 'w outside \<Rightarrow> bool" where
  "unlisted n out \<longleftrightarrow> (\<forall>w conns. ListConns (snap out w) = Ok conns \<longrightarrow> n \<notin> cn_Name ` set conns)"

section \<open>Properties\<close>

text \<open>
  C9. What the reconciler remembers stays in order over all its passes, from the start of the operator on, whatever
  the API server and the restctl pods answer and however passes end: no connection is listed twice and none without a
  name, no missing one is noted twice, a gauge is 0 or 1; and from pass to pass the
  counter never falls and no gauge disappears.
\<close>

theorem operator_memory:
  assumes "operator_main fw getenv = Ok operator"
    and "passes A (op_Env operator) (op_Reconciler operator) r" and "passes A (op_Env operator) r r'"
  shows "memory_ok r' \<and> metrics_grow r r'"
proof -
  have "op_Reconciler operator = new_reconciler"
    using assms(1) by (auto simp: operator_main_def obind_def split: if_splits outcome.splits)
  then have "memory_ok (op_Reconciler operator)"
    by (simp add: new_reconciler_def memory_ok_def gauges_ok_def gget_def drop_empty_def)
  moreover have "memory_ok r \<longrightarrow> memory_ok r'" "metrics_grow r r'" "memory_ok (op_Reconciler operator) \<longrightarrow> memory_ok r"
    using memory.passes_remember [OF assms(2)] memory.passes_remember [OF assms(3)] by simp_all
  ultimately show ?thesis by blast
qed

definition all_well :: framework where
  "all_well = \<lparr>fw_NewManager = True, fw_SetupController = True, fw_AddServer = True\<rparr>"

definition sample_getenv :: "string \<Rightarrow> string" where
  "sample_getenv k = (if k = ''POD_WAIT_TIMEOUT'' then ''60'' else [])"

lemma sample_operator:
  "\<exists>operator. operator_main all_well sample_getenv = Ok operator \<and> \<not> IsMonitoringEnabled (op_Env operator)"
proof -
  have "parse_int 64 ''60'' = (60, None)"
    by (simp add: parse_int_def parse_uint_def char_digit_def Let_def)
  then show ?thesis
    by (simp add: operator_main_def all_well_def operator_envs_def sample_getenv_def obind_def)
qed

lemma one_pass:
  "\<not> IsMonitoringEnabled env \<Longrightarrow> A empty_outside \<Longrightarrow> passes A env r r"
  using passes.pass [OF passes.none _ empty_pass [of env r undefined]] by blast

theorem operator_memory_witness:
  "\<exists>operator. operator_main all_well sample_getenv = Ok operator \<and> memory_ok (op_Reconciler operator)"
proof -
  obtain operator where o: "operator_main all_well sample_getenv = Ok operator" "\<not> IsMonitoringEnabled (op_Env operator)"
    using sample_operator by blast
  have p: "passes (\<lambda>out. out = empty_outside) (op_Env operator) (op_Reconciler operator) (op_Reconciler operator)"
    using one_pass [OF o(2), of "\<lambda>out. out = empty_outside"] by blast
  from operator_memory [OF o(1) p p] o(1) show ?thesis by blast
qed

text \<open>
  C10. A connection that is deleted while it is not loaded is never forgotten: once its name is noted and no list has
  it any more, every later pass leaves it noted, and each that succeeds asks for the next one after three
  seconds at most, until the operator is restarted.
\<close>

theorem deleted_connection_stays_noted:
  fixes out :: "'w outside"
  assumes "n \<in> set (NotLoadedConns r)" "n \<noteq> []" and "passes (unlisted n :: 'w outside \<Rightarrow> bool) env r r'"
    and "unlisted n out" "Reconcile out env now r' req w = Some (Ok d, r'', w')"
  shows "n \<in> set (NotLoadedConns r'') \<and> d \<le> 3 * second_ns"
proof -
  have listed: "n \<noteq> [] \<and> n \<notin> cn_Name ` set cs" if "unlisted n out" "ListConns (snap out w) = Ok cs" for out :: "'w outside" and w cs
    using that assms(2) unfolding unlisted_def by blast
  have "n \<in> set (NotLoadedConns r')" using noted.passes_remember [OF assms(3), of n] listed assms(1) by blast
  then have "n \<in> set (NotLoadedConns r'')"
    using noted.Reconcile_remembers [OF _ assms(5), of n] listed [OF assms(4)] by blast
  moreover from this have "NotLoadedConns r'' \<noteq> []" by auto
  with Reconcile_done [OF assms(5)] have "d = second_ns \<or> d \<le> 3 * second_ns" by auto
  ultimately show ?thesis by (auto simp: second_ns_def)
qed

theorem deleted_connection_stays_noted_witness:
  "\<exists>d r'' w'. Reconcile empty_outside sample_envs 0 (new_reconciler\<lparr>NotLoadedConns := [''x'']\<rparr>) \<lparr>nsn_name = ''x'', nsn_namespace = ''y''\<rparr>
     empty_store = Some (Ok d, r'', w') \<and> ''x'' \<in> set (NotLoadedConns r'') \<and> d \<le> 3 * second_ns"
proof -
  let ?r = "new_reconciler\<lparr>NotLoadedConns := [''x'']\<rparr>" and ?req = "\<lparr>nsn_name = ''x'', nsn_namespace = ''y''\<rparr>"
  have e: "\<not> IsMonitoringEnabled sample_envs" by (simp add: sample_envs_def)
  have u: "unlisted ''x'' empty_outside" by (simp add: unlisted_def empty_outside_def)
  have "Reconcile empty_outside sample_envs 0 ?r ?req empty_store = Some (Ok (3 * second_ns), ?r, empty_store)"
    using empty_pass [OF e, of ?r ?req] by simp
  with deleted_connection_stays_noted [OF _ _ one_pass [OF e, of "unlisted ''x''", OF u] u this] show ?thesis by simp
qed

end
