(* ===== verification/Mutate_Props.thy ===== *)
theory Mutate_Props
  imports Mutate
begin

text \<open>
  What the mutating webhook does to the connection it allocates from, to the pod it patches and to
  its lease.
\<close>

section \<open>Inversion of the handler\<close>

definition lease_of :: "string \<Rightarrow> string" where
  "lease_of ipmanName = go_join ''-'' [LeasePrefix, ipmanName, LeasePostfix]"

definition asks_for :: "k8s_pod \<Rightarrow> string \<Rightarrow> string \<Rightarrow> string \<Rightarrow> bool" where
  "asks_for pod ipmanName childName poolName \<longleftrightarrow>
     gget (Annotations pod) AnnotationIpmanName = Some ipmanName
     \<and> gget (Annotations pod) AnnotationChildName = Some childName
     \<and> gget (Annotations pod) AnnotationPoolName = Some poolName"

text \<open>The handler for a pod with all three annotations, after the guards.\<close>

lemma serve_asking:
  assumes "rv_Kind rv = ''Pod''" "asks_for (rv_Pod rv) im cn pn"
  shows "MutatingWebhook_ServeHTTP sv lk env now (Some rv) =
    (if \<not> lk_clientset lk then fail NoClientset
     else let dummy = (rv_DryRun rv = Some True \<or> IsTest env)
          in bnd (if dummy then ret () else new_lease lk (lease_of im)) (\<lambda>_.
             bnd (if dummy then ret () else lk_lock lk (lease_of im)) (\<lambda>_.
             bnd (call (\<lambda>_. NoConnection) (sv_get_conn sv im)) (\<lambda>conn.
             bnd (from_outcome (allocate (format_layout now) cn pn conn)) (\<lambda>(c, ip, gateway, conn').
             let patch = make_patch (rv_Pod rv) ip gateway (worker_annotations c ip gateway) c (VxlandlordImage env)
             in if rv_DryRun rv \<noteq> Some True \<and> \<not> IsTest env
                then bnd (attempt (sv_update_status sv conn')) (\<lambda>r. case r of
                    Inl e \<Rightarrow> bnd (lk_unlock lk (lease_of im)) (\<lambda>_. fail (StatusUpdateFailed e))
                  | Inr _ \<Rightarrow> ret (Patched patch))
                else ret (Patched patch))))))"
  using assms by (simp add: MutatingWebhook_ServeHTTP_def asks_for_def lease_of_def Let_def)

lemma serve_patched_asks:
  assumes "MutatingWebhook_ServeHTTP sv lk env now (Some rv) w = Some (Ok (Patched ps), w')"
  obtains im cn pn where "rv_Kind rv = ''Pod''" "asks_for (rv_Pod rv) im cn pn"
  using assms
  by (auto simp: MutatingWebhook_ServeHTTP_def asks_for_def Let_def ret_def fail_def split: if_splits option.splits)

lemma bnd_Ok_iff: "bnd m f w = Some (Ok v, w') \<longleftrightarrow> (\<exists>a w1. m w = Some (Ok a, w1) \<and> f a w1 = Some (Ok v, w'))"
  by (auto simp: bnd_def split: option.splits prod.splits outcome.splits)

lemma call_Ok_iff: "call f c w = Some (Ok v, w') \<longleftrightarrow> c w = (Ok v, w')"
  by (cases "fst (c w)") (auto simp: call_def split: prod.splits)

lemma serve_patched:
  assumes ok: "MutatingWebhook_ServeHTTP sv lk env now (Some rv) w = Some (Ok (Patched ps), w')"
    and ask: "rv_Kind rv = ''Pod''" "asks_for (rv_Pod rv) im cn pn"
    and real: "rv_DryRun rv \<noteq> Some True" "\<not> IsTest env"
  shows "\<exists>w1 w2 w3 conn c ip gateway conn'. new_lease lk (lease_of im) w = Some (Ok (), w1)
    \<and> lk_lock lk (lease_of im) w1 = Some (Ok (), w2) \<and> sv_get_conn sv im w2 = (Ok conn, w3)
    \<and> allocate (format_layout now) cn pn conn = Ok (c, ip, gateway, conn')
    \<and> sv_update_status sv conn' w3 = (Ok (), w')
    \<and> ps = make_patch (rv_Pod rv) ip gateway (worker_annotations c ip gateway) c (VxlandlordImage env)"
proof -
  have upd: "attempt (sv_update_status sv conn') w3 = Some (Ok (Inr ()), w') \<Longrightarrow> sv_update_status sv conn' w3 = (Ok (), w')"
    for conn' w3 by (cases "fst (sv_update_status sv conn' w3)") (auto simp: attempt_def split: prod.splits)
  have su: "(\<forall>x. r \<noteq> Inl x) \<longleftrightarrow> r = Inr ()" for r :: "api_error + unit" by (cases r) auto
  from ok show ?thesis
    unfolding serve_asking [OF ask] using real
    by (auto simp: su Let_def bnd_Ok_iff call_Ok_iff from_outcome_def fail_def ret_def split: if_splits sum.splits prod.splits dest: upd)
qed

lemma serve_dry_run:
  assumes ok: "MutatingWebhook_ServeHTTP sv lk env now (Some rv) w = Some (r, w')"
    and ask: "rv_Kind rv = ''Pod''" "asks_for (rv_Pod rv) im cn pn"
    and dry: "rv_DryRun rv = Some True \<or> IsTest env"
  shows "w' = w \<or> w' = snd (sv_get_conn sv im w)"
  using ok dry unfolding serve_asking [OF ask]
  by (cases "fst (sv_get_conn sv im w)")
    (auto simp: bnd_def call_def from_outcome_def fail_def ret_def Let_def
      split: if_splits prod.splits outcome.splits)

section \<open>JSON pointers\<close>

text \<open>RFC 6901: in the path of a patch \<open>~1\<close> stands for a slash and \<open>~0\<close> for a tilde.\<close>

fun pointer_unescape :: "string \<Rightarrow> string" where
  "pointer_unescape [] = []"
| "pointer_unescape [c] = [c]"
| "pointer_unescape (c # d # s) =
     (if c = CHR ''~'' \<and> d = CHR ''1'' then CHR ''/'' # pointer_unescape s
      else if c = CHR ''~'' \<and> d = CHR ''0'' then CHR ''~'' # pointer_unescape s
      else c # pointer_unescape (d # s))"

lemma pointer_unescape_plain: "CHR ''~'' \<notin> set s \<Longrightarrow> pointer_unescape s = s"
  by (induction s rule: pointer_unescape.induct) auto

lemma pointer_unescape_append:
  "CHR ''~'' \<notin> set p \<Longrightarrow> pointer_unescape (p @ s) = p @ pointer_unescape s"
proof (induction p)
  case (Cons c p)
  then show ?case by (cases "p @ s") auto
qed simp

lemma escaped_key_read:
  assumes "CHR ''~'' \<notin> set k"
  shows "pointer_unescape (replace_first (CHR ''/'') ''~1'' k) = k"
proof (cases "CHR ''/'' \<in> set k")
  case True
  then obtain p s where k: "k = p @ CHR ''/'' # s" "CHR ''/'' \<notin> set p" by (meson split_list_first)
  with assms show ?thesis
    by (simp add: replace_first_append pointer_unescape_append pointer_unescape_plain)
next
  case False
  then have "replace_first (CHR ''/'') ''~1'' k = k" by (induction k) auto
  with assms show ?thesis by (simp add: pointer_unescape_plain)
qed

text \<open>A key with two slashes leaves one in the path, which then names a member of a member.\<close>

lemma escaped_key_no_slash:
  assumes "count_char (CHR ''/'') k \<le> 1"
  shows "CHR ''/'' \<notin> set (replace_first (CHR ''/'') ''~1'' k)"
  using assms
proof (induction k)
  case (Cons c k)
  then show ?case by (auto simp: count_char_def filter_empty_conv)
qed simp

section \<open>Samples\<close>

text \<open>An API server over maps whose state also has a flag for one lease.\<close>

definition with_flag :: "('w \<Rightarrow> 'r \<times> 'w) \<Rightarrow> 'w \<times> bool \<Rightarrow> 'r \<times> 'w \<times> bool" where
  "with_flag f s = (case f (fst s) of (r, w) \<Rightarrow> (r, w, snd s))"

definition leased :: "'w server \<Rightarrow> ('w \<times> bool) server" where
  "leased sv = \<lparr>
     sv_get_pod = (\<lambda>k. with_flag (sv_get_pod sv k)), sv_list_pods = with_flag (sv_list_pods sv),
     sv_create_pod = (\<lambda>p. with_flag (sv_create_pod sv p)), sv_update_pod = (\<lambda>p. with_flag (sv_update_pod sv p)),
     sv_delete_pod = (\<lambda>p. with_flag (sv_delete_pod sv p)), sv_get_conn = (\<lambda>k. with_flag (sv_get_conn sv k)),
     sv_list_conns = with_flag (sv_list_conns sv), sv_update_status = (\<lambda>c. with_flag (sv_update_status sv c)),
     sv_get_group = (\<lambda>k. with_flag (sv_get_group sv k)), sv_list_groups = with_flag (sv_list_groups sv),
     sv_get_secret = (\<lambda>k. with_flag (sv_get_secret sv k)), sv_create_monitor = (\<lambda>k. with_flag (sv_create_monitor sv k)),
     sv_delete_monitor = (\<lambda>k. with_flag (sv_delete_monitor sv k)), sv_get_job = (\<lambda>k. with_flag (sv_get_job sv k)),
     sv_create_job = (\<lambda>j. with_flag (sv_create_job sv j)), sv_delete_job = (\<lambda>j. with_flag (sv_delete_job sv j)),
     sv_http_get = (\<lambda>u. with_flag (sv_http_get sv u)), sv_post = (\<lambda>u r. with_flag (sv_post sv u r))\<rparr>"

definition flag_locker :: "('w \<times> bool) locker_api" where
  "flag_locker = \<lparr>lk_clientset = True, lk_new = (\<lambda>_ s. (Ok (), s)),
     lk_lock = (\<lambda>_ s. Some (Ok (), fst s, True)), lk_unlock = (\<lambda>_ s. Some (Ok (), fst s, False))\<rparr>"

definition pool_ready :: ipsec_conn where
  "pool_ready = pool_conn\<lparr>Status := zero_status\<lparr>XfrmGatewayIPs := Some [(''a'', ''10.9.0.1'')],
     FreeIPs := Some [(''a'', [(''p'', [''10.0.0.1/24'', ''10.0.0.2/24''])])]\<rparr>\<rparr>"

definition asking_pod :: k8s_pod where
  "asking_pod = zero_pod\<lparr>Annotations := [(AnnotationChildName, ''a''), (AnnotationIpmanName, ''c''), (AnnotationPoolName, ''p'')]\<rparr>"

definition asking :: pod_review where
  "asking = \<lparr>rv_Kind = ''Pod'', rv_DryRun = None, rv_Pod = asking_pod\<rparr>"

definition ready_world :: "store \<times> bool" where
  "ready_world = (\<lparr>st_Pods = [], st_Conns = [(''c'', pool_ready)], st_Groups = [], st_Secrets = [], st_Jobs = [], st_Posts = []\<rparr>, False)"

definition noon :: wall_clock where
  "noon = \<lparr>wc_year = 2025, wc_month = 6, wc_day = 1, wc_hour = 12, wc_minute = 0, wc_second = 0, wc_nano = 5, wc_zone = 7200\<rparr>"

lemma noon_ok: "clock_ok noon"
  by (simp add: clock_ok_def noon_def days_in_def)

lemma asking_asks: "rv_Kind asking = ''Pod''" "asks_for (rv_Pod asking) ''c'' ''a'' ''p''" "rv_DryRun asking \<noteq> Some True"
  by (simp_all add: asking_def asks_for_def asking_pod_def annotation_key_defs)

lemma asking_served:
  obtains ps w' where "MutatingWebhook_ServeHTTP (leased map_server) flag_locker sample_envs noon (Some asking) ready_world
     = Some (Ok (Patched ps), w')"
proof -
  have c: "sv_get_conn (leased map_server) ''c'' (fst ready_world, b) = (Ok pool_ready, (fst ready_world, b))" for b
    by (simp add: leased_def with_flag_def map_server_def lookup_or_def ready_world_def)
  obtain ch ip gw conn' where a: "allocate (format_layout noon) ''a'' ''p'' pool_ready = Ok (ch, ip, gw, conn')"
    by (simp add: allocate_def pool_ready_def pool_conn_def two_children_def free_of_def)
  have "conn_key conn' = ''c''"
    using allocate_Ok(3) [OF a] by (auto simp: conn_key_def pool_ready_def pool_conn_def two_children_def)
  then obtain w' where u: "sv_update_status (leased map_server) conn' (fst ready_world, True) = (Ok (), w')"
    by (simp add: leased_def with_flag_def map_server_def ready_world_def)
  have n: "new_lease flag_locker l ready_world = Some (Ok (), ready_world)" for l
    by (subst new_lease.simps) (simp add: flag_locker_def)
  have k: "lk_clientset flag_locker" "lk_lock flag_locker l ready_world = Some (Ok (), fst ready_world, True)"
    "\<not> IsTest sample_envs" for l by (simp_all add: flag_locker_def sample_envs_def)
  show thesis
    by (rule that, unfold serve_asking [OF asking_asks(1,2)])
      (simp add: bnd_def call_def attempt_def from_outcome_def ret_def k n c a u asking_asks(3) Let_def)
qed

section \<open>Properties\<close>

text \<open>
  C26. A pod that the webhook admits (not in a dry run) gets the first free address of the pool it
  names: the connection is written back with that address taken off the pool and entered as
  pending under the time of the request, in a form that reads back as that time to the second; the
  patch annotates the pod with the address and puts it, without the mask, in front of the
  environment of every container.
\<close>

theorem mutate_allocates:
  assumes "MutatingWebhook_ServeHTTP sv lk env now (Some rv) w = Some (Ok (Patched ps), w')"
    and "rv_Kind rv = ''Pod''" "asks_for (rv_Pod rv) im cn pn"
    and "rv_DryRun rv \<noteq> Some True" "\<not> IsTest env" and "clock_ok now"
  shows "\<exists>w2 w3 conn ip rest conn' ts. sv_get_conn sv im w2 = (Ok conn, w3)
    \<and> free_of (Status conn) cn pn = Some (ip # rest)
    \<and> sv_update_status sv conn' w3 = (Ok (), w')
    \<and> free_of (Status conn') cn pn = Some rest
    \<and> gget (gmap_of (PendingIPs (Status conn'))) ip = Some ts
    \<and> parse_layout ts = Some (instant (now\<lparr>wc_nano := 0\<rparr>))
    \<and> \<lparr>Op = ''add'', Path = ''/metadata/annotations/ipman.dialo.ai~1vxlanIp'', PValue = PString ip\<rparr> \<in> set ps
    \<and> (\<forall>i < length (Containers (rv_Pod rv)). \<lparr>Op = ''add'', Path = ''/spec/containers/'' @ show_nat i @ ''/env'',
         PValue = PEnv (\<lparr>ev_Name = ''VXLAN_IP'', ev_Value = fst (cut_at (CHR ''/'') ip)\<rparr>
           # ct_Env (Containers (rv_Pod rv) ! i))\<rparr> \<in> set ps)"
proof -
  from serve_patched [OF assms(1-5)] obtain w2 w3 conn c ip gateway conn' where
    get: "sv_get_conn sv im w2 = (Ok conn, w3)" and a: "allocate (format_layout now) cn pn conn = Ok (c, ip, gateway, conn')"
    and u: "sv_update_status sv conn' w3 = (Ok (), w')"
    and ps: "ps = make_patch (rv_Pod rv) ip gateway (worker_annotations c ip gateway) c (VxlandlordImage env)"
    by (elim exE conjE) (rule that)
  from allocate_Ok(3) [OF a] obtain rest where rest: "free_of (Status conn) cn pn = Some (ip # rest)"
    "conn' = take_ip cn pn rest ip (format_layout now) conn" by blast
  have "\<lparr>Op = ''add'', Path = ''/metadata/annotations/ipman.dialo.ai~1vxlanIp'', PValue = PString ip\<rparr> \<in> set ps"
    by (simp add: ps make_patch_def createAnnotationPatch_def worker_annotations_def AnnotationVxlanIP_def)
  moreover have "\<lparr>Op = ''add'', Path = ''/spec/containers/'' @ show_nat i @ ''/env'',
       PValue = PEnv (\<lparr>ev_Name = ''VXLAN_IP'', ev_Value = fst (cut_at (CHR ''/'') ip)\<rparr>
         # ct_Env (Containers (rv_Pod rv) ! i))\<rparr> \<in> set ps" if "i < length (Containers (rv_Pod rv))" for i
    using that by (auto simp: ps make_patch_def createEnvPatch_def Let_def WorkerContainerVxlanIPEnvVarName_def)
  ultimately show ?thesis
    using get u rest parse_format [OF assms(6)]
    by (intro exI [of _ w2] exI [of _ w3] exI [of _ conn] exI [of _ ip] exI [of _ rest] exI [of _ conn']
        exI [of _ "format_layout now"]) (simp add: free_of_take_ip pending_take_ip)
qed

theorem mutate_allocates_witness:
  "\<exists>w' ps. MutatingWebhook_ServeHTTP (leased map_server) flag_locker sample_envs noon (Some asking) ready_world
     = Some (Ok (Patched ps), w')
   \<and> (\<exists>ip. \<lparr>Op = ''add'', Path = ''/metadata/annotations/ipman.dialo.ai~1vxlanIp'', PValue = PString ip\<rparr> \<in> set ps)"
proof -
  obtain ps w' where s: "MutatingWebhook_ServeHTTP (leased map_server) flag_locker sample_envs noon (Some asking) ready_world
     = Some (Ok (Patched ps), w')" by (rule asking_served)
  have "\<not> IsTest sample_envs" by (simp add: sample_envs_def)
  from mutate_allocates [OF s asking_asks this noon_ok]
  have "\<exists>ip. \<lparr>Op = ''add'', Path = ''/metadata/annotations/ipman.dialo.ai~1vxlanIp'', PValue = PString ip\<rparr> \<in> set ps"
    by (elim exE conjE) (rule exI)
  with s show ?thesis by (intro exI [of _ w'] exI [of _ ps]) simp
qed

text \<open>
  A dry run has no side effect: no lease is asked for, no status is written; the only request
  made is the one that reads the connection.
\<close>

theorem mutate_dry_run_pure:
  assumes "MutatingWebhook_ServeHTTP sv lk env now (Some rv) w = Some (r, w')"
    and "rv_Kind rv = ''Pod''" "asks_for (rv_Pod rv) im cn pn"
    and "rv_DryRun rv = Some True \<or> IsTest env"
  shows "w' = w \<or> w' = snd (sv_get_conn sv im w)"
  using assms by (rule serve_dry_run)

theorem mutate_dry_run_pure_witness:
  "\<exists>r. MutatingWebhook_ServeHTTP (leased map_server) flag_locker sample_envs noon
     (Some (asking\<lparr>rv_DryRun := Some True\<rparr>)) ready_world = Some (r, ready_world)"
proof -
  let ?rv = "asking\<lparr>rv_DryRun := Some True\<rparr>"
  have ask: "rv_Kind ?rv = ''Pod''" "asks_for (rv_Pod ?rv) ''c'' ''a'' ''p''" "rv_DryRun ?rv = Some True \<or> IsTest sample_envs"
    using asking_asks by simp_all
  have c: "sv_get_conn (leased map_server) ''c'' ready_world = (Ok pool_ready, ready_world)"
    by (simp add: leased_def with_flag_def map_server_def lookup_or_def ready_world_def)
  have "MutatingWebhook_ServeHTTP (leased map_server) flag_locker sample_envs noon (Some ?rv) ready_world \<noteq> None"
    unfolding serve_asking [OF ask(1,2)]
    by (auto simp: c bnd_def call_def from_outcome_def fail_def ret_def Let_def split: outcome.splits prod.splits)
  then obtain r w' where s: "MutatingWebhook_ServeHTTP (leased map_server) flag_locker sample_envs noon (Some ?rv) ready_world
      = Some (r, w')" by force
  from mutate_dry_run_pure [OF s ask] c have "w' = ready_world" by auto
  with s show ?thesis by blast
qed

text \<open>
  The lease is kept: after a request that was answered with a patch, the lease that the handler
  locked is still locked (only a failed status update unlocks it), whatever the locker, as long as
  the two requests in between leave leases alone. The next request waits for it to expire.
\<close>

theorem lease_left_locked:
  assumes "MutatingWebhook_ServeHTTP sv lk env now (Some rv) w = Some (Ok (Patched ps), w')"
    and "rv_Kind rv = ''Pod''" "asks_for (rv_Pod rv) im cn pn" "rv_DryRun rv \<noteq> Some True" "\<not> IsTest env"
    and "\<And>u u'. lk_lock lk (lease_of im) u = Some (Ok (), u') \<Longrightarrow> locked u'"
    and "\<And>u. locked u \<Longrightarrow> locked (snd (sv_get_conn sv im u))"
    and "\<And>u conn. locked u \<Longrightarrow> locked (snd (sv_update_status sv conn u))"
  shows "locked w'"
proof -
  from serve_patched [OF assms(1-5)] obtain w1 w2 w3 conn conn' where
    "lk_lock lk (lease_of im) w1 = Some (Ok (), w2)" "sv_get_conn sv im w2 = (Ok conn, w3)"
    "sv_update_status sv conn' w3 = (Ok (), w')"
    by (elim exE conjE) (rule that)
  with assms(6) assms(7) [of w2] assms(8) [of w3 conn'] show ?thesis by simp
qed

theorem lease_left_locked_witness:
  "\<exists>ps w'. MutatingWebhook_ServeHTTP (leased map_server) flag_locker sample_envs noon (Some asking) ready_world
     = Some (Ok (Patched ps), w', True)"
proof -
  obtain ps w' where s: "MutatingWebhook_ServeHTTP (leased map_server) flag_locker sample_envs noon (Some asking) ready_world
     = Some (Ok (Patched ps), w')" by (rule asking_served)
  have "\<not> IsTest sample_envs" by (simp add: sample_envs_def)
  from lease_left_locked [OF s asking_asks this, of snd] have "snd w'"
    by (auto simp: flag_locker_def leased_def with_flag_def case_prod_unfold)
  with s show ?thesis by (cases w') auto
qed

text \<open>
  The paths of the annotation patches are read by a JSON patch as the annotations they are made
  from: the last member of the path, unescaped, is the key, it has no slash left, and the value is
  the annotation's; this is so for every key with at most one slash and no tilde.
\<close>

theorem annotation_paths_roundtrip:
  assumes "\<forall>(k, v) \<in> set annotations. CHR ''~'' \<notin> set k \<and> count_char (CHR ''/'') k \<le> 1"
  shows "map (\<lambda>j. (pointer_unescape (drop (length ''/metadata/annotations/'') (Path j)), PValue j))
      (createAnnotationPatch annotations) = map (\<lambda>(k, v). (k, PString v)) annotations
    \<and> (\<forall>j \<in> set (createAnnotationPatch annotations).
        CHR ''/'' \<notin> set (drop (length ''/metadata/annotations/'') (Path j)))"
  using assms
  by (auto simp: createAnnotationPatch_def escaped_key_read escaped_key_no_slash case_prod_unfold)

theorem annotation_paths_roundtrip_witness:
  "map (\<lambda>j. pointer_unescape (drop (length ''/metadata/annotations/'') (Path j)))
     (createAnnotationPatch (worker_annotations zero_child ''10.0.0.1/24'' ''10.9.0.1''))
   = [AnnotationVxlanIP, AnnotationXfrmIP, AnnotationIntefaceID, AnnotationRemoteIPs, AnnotationLocalIPs,
      AnnotationXfrmUnderlyingIP]"
proof -
  have ok: "\<forall>(k, v) \<in> set (worker_annotations zero_child ''10.0.0.1/24'' ''10.9.0.1'').
      CHR ''~'' \<notin> set k \<and> count_char (CHR ''/'') k \<le> 1"
    by (simp add: worker_annotations_def annotation_key_defs count_char_def)
  from conjunct1 [OF annotation_paths_roundtrip [OF ok], THEN arg_cong, of "map fst"]
  show ?thesis by (simp add: comp_def case_prod_unfold) (simp add: worker_annotations_def)
qed

end
