(* ===== verification/Validate.thy ===== *)
theory Validate
  imports Cluster Go_Net
begin

text \<open>
  The validating admission webhook, \<open>internal/webhook/v1/validating_webhook.go\<close>: what may be
  created, changed and deleted. The \<open>(bool, error)\<close> results of the source, in which the error is
  set exactly when the verdict is false, are \<open>Ok ()\<close> and \<open>Err e\<close>. Messages are kept as the
  constructors of \<open>denial\<close> with the values they print.
\<close>

datatype denial =
    BadOldObject
  | BadNewObject
  | UnknownAction
  | ListPodsFailed api_error
  | ListConnsFailed api_error
  | NoCharonGroup string api_error
  | WorkerUses nsn
  | DuplicatedIP string
  | DuplicatedIfId int
  | NameExists string
  | PodsExist nsn
  | BadLocalIP string
  | BadRemoteIP string
  | BadPoolIP string string
  | PodsDependOnChild "nsn list"
  | NotReloadable
  | PodUsesIP nsn
  | BadSubnet string
  | BadPodIP string
  | LocalIPUsed nsn

definition pod_key :: "k8s_pod \<Rightarrow> nsn" where
  "pod_key p = \<lparr>nsn_name = p_Name p, nsn_namespace = p_Namespace p\<rparr>"

section \<open>Deletion\<close>

definition uses_connection :: "ipsec_conn \<Rightarrow> k8s_pod \<Rightarrow> denial option" where
  "uses_connection conn p =
     (case (gget (Annotations p) AnnotationChildName, gget (Annotations p) AnnotationIpmanName) of
        (Some cn, Some im) \<Rightarrow>
          if ghas (Children (Spec conn)) cn \<and> im = cn_Name conn then Some (WorkerUses (pod_key p)) else None
      | _ \<Rightarrow> None)"

text \<open>An object of the request: absent, not parseable, or a connection.\<close>

datatype raw_object = NoObject | Garbled | Connection ipsec_conn

definition validateIPSecConnectionDeletion :: "raw_object \<Rightarrow> k8s_pod list \<Rightarrow> (denial, unit) outcome" where
  "validateIPSecConnectionDeletion oldObject workers = (case oldObject of
      Connection conn \<Rightarrow>
        (case first_error (uses_connection conn) workers of Some e \<Rightarrow> Err e | None \<Rightarrow> Ok ())
    | _ \<Rightarrow> Err BadOldObject)"

section \<open>Addresses and interface ids of one connection\<close>

definition unique_ip ::
  "child \<Rightarrow> (string, string list) gomap \<Rightarrow> string \<Rightarrow> (denial, (string, string list) gomap) outcome"
where
  "unique_ip c ips ip =
     (let children = (case gget ips ip of None \<Rightarrow> [] | Some l \<Rightarrow> l)
      in if list_contains children (c_Name c) then Err (DuplicatedIP ip)
         else Ok (gput ip (children @ [c_Name c]) ips))"

definition unique_pools ::
  "child \<Rightarrow> (string, string list) gomap \<Rightarrow> (denial, (string, string list) gomap) outcome"
where
  "unique_pools c ips =
     foldl_outcome (\<lambda>ips (_, pool). foldl_outcome (unique_ip c) ips (elems pool)) ips (gmap_of (IpPools c))"

definition unique_child ::
  "(string, string list) gomap \<times> int list \<Rightarrow> child \<Rightarrow> (denial, (string, string list) gomap \<times> int list) outcome"
where
  "unique_child st c = (case st of (ips, ifids) \<Rightarrow>
     obind (unique_pools c ips) (\<lambda>ips.
       if list_contains ifids (XfrmIfId c) then Err (DuplicatedIfId (XfrmIfId c))
       else Ok (ips, XfrmIfId c # ifids)))"

definition validateIPSecConnectionUnique :: "ipsec_conn \<Rightarrow> (denial, unit) outcome" where
  "validateIPSecConnectionUnique conn =
     obind (foldl_outcome unique_child ([], []) (gvals (Children (Spec conn)))) (\<lambda>_. Ok ())"

section \<open>Creation\<close>

definition slash_count :: "string \<Rightarrow> nat" where
  "slash_count = count_char (CHR ''/'')"

definition bad_child :: "child \<Rightarrow> denial option" where
  "bad_child c =
     (case first_error (\<lambda>ip. if slash_count ip \<noteq> 1 then Some (BadLocalIP ip) else None) (elems (LocalIPs c)) of
        Some e \<Rightarrow> Some e
      | None \<Rightarrow>
     (case first_error (\<lambda>ip. if slash_count ip \<noteq> 1 then Some (BadRemoteIP ip) else None) (elems (RemoteIPs c)) of
        Some e \<Rightarrow> Some e
      | None \<Rightarrow>
        first_error (\<lambda>(poolName, pool). first_error (\<lambda>ip. if slash_count ip \<noteq> 1 then Some (BadPoolIP poolName ip) else None)
          (elems pool)) (gmap_of (IpPools c))))"

definition validateIPSecConnectionCreation ::
  "ipsec_conn \<Rightarrow> ipsec_conn list \<Rightarrow> k8s_pod list \<Rightarrow> (denial, unit) outcome"
where
  "validateIPSecConnectionCreation conn other pods =
     (case first_error (\<lambda>obj. if sp_Name (Spec obj) = sp_Name (Spec conn)
         then Some (NameExists (sp_Name (Spec obj))) else None) other of
        Some e \<Rightarrow> Err e
      | None \<Rightarrow>
     (case first_error (\<lambda>p. if gstr (Annotations p) AnnotationIpmanName = sp_Name (Spec conn)
         then Some (PodsExist (pod_key p)) else None) pods of
        Some e \<Rightarrow> Err e
      | None \<Rightarrow>
     (case first_error bad_child (gvals (Children (Spec conn))) of
        Some e \<Rightarrow> Err e
      | None \<Rightarrow> validateIPSecConnectionUnique conn)))"

section \<open>Update\<close>

definition isChildDeleted :: "(string, child) gomap \<Rightarrow> (string, child) gomap \<Rightarrow> child list" where
  "isChildDeleted new old = map snd (filter (\<lambda>(k, v). \<not> ghas new k) old)"

definition isChildAdded :: "(string, child) gomap \<Rightarrow> (string, child) gomap \<Rightarrow> child list" where
  "isChildAdded new old = map snd (filter (\<lambda>(k, v). \<not> ghas old k) new)"

text \<open>The pods of the connection, by the child they name.\<close>

definition add_dependent ::
  "ipsec_conn \<Rightarrow> ipsec_conn \<Rightarrow> (string, k8s_pod list) gomap \<Rightarrow> k8s_pod \<Rightarrow> (string, k8s_pod list) gomap"
where
  "add_dependent new old m pod =
     (if gget (Annotations pod) AnnotationIpmanName \<noteq> Some (cn_Name new) then m
      else (case gget (Annotations pod) AnnotationChildName of
          None \<Rightarrow> m
        | Some cn \<Rightarrow>
            if list_contains (gkeys (Children (Spec new))) cn \<or> list_contains (gkeys (Children (Spec old))) cn
            then gput cn ((case gget m cn of None \<Rightarrow> [] | Some ps \<Rightarrow> ps) @ [pod]) m
            else m))"

definition dependent_pods :: "ipsec_conn \<Rightarrow> ipsec_conn \<Rightarrow> k8s_pod list \<Rightarrow> (string, k8s_pod list) gomap" where
  "dependent_pods new old pods = foldl (add_dependent new old) [] pods"

definition deletion_blocked :: "(string, k8s_pod list) gomap \<Rightarrow> child \<Rightarrow> denial option" where
  "deletion_blocked dependent c = (case gget dependent (c_Name c) of
      None \<Rightarrow> None
    | Some ps \<Rightarrow> if length ps \<noteq> 0 then Some (PodsDependOnChild (map pod_key ps)) else None)"

definition without_added :: "(string, child) gomap \<Rightarrow> (string, child) gomap \<Rightarrow> (string, child) gomap" where
  "without_added new old = (let added = isChildAdded new old in
     gdelete_func (\<lambda>_ c. list_ex (\<lambda>a. c_Name a = c_Name c) added) new)"

definition deleted_ips :: "child \<Rightarrow> child \<Rightarrow> string list" where
  "deleted_ips newChild oldChild = concat (map (\<lambda>(poolName, pool).
     filter (\<lambda>ip. \<not> list_contains (case gget (gmap_of (IpPools newChild)) poolName of
         None \<Rightarrow> [] | Some l \<Rightarrow> elems l) ip) (elems pool))
     (gmap_of (IpPools oldChild)))"

definition ip_in_use :: "k8s_pod list \<Rightarrow> string \<Rightarrow> denial option" where
  "ip_in_use pods ip = map_option (\<lambda>p. PodUsesIP (pod_key p))
     (find (\<lambda>p. gstr (Annotations p) AnnotationVxlanIP = ip) pods)"

definition subnet_in_use :: "string \<Rightarrow> ip_net \<Rightarrow> k8s_pod \<Rightarrow> denial option" where
  "subnet_in_use ip subnet p = (case gget (Annotations p) AnnotationVxlanIP of
      None \<Rightarrow> None
    | Some podIp \<Rightarrow> (case ParseCIDR podIp of
        None \<Rightarrow> Some (BadPodIP podIp)
      | Some (netIp, _) \<Rightarrow>
          if net_contains subnet netIp \<or> ip = podIp then Some (LocalIPUsed (pod_key p)) else None))"

definition local_ip_in_use :: "k8s_pod list \<Rightarrow> string \<Rightarrow> denial option" where
  "local_ip_in_use pods ip = (case ParseCIDR ip of
      None \<Rightarrow> Some (BadSubnet ip)
    | Some (_, subnet) \<Rightarrow> first_error (subnet_in_use ip subnet) pods)"

definition update_child ::
  "(string, k8s_pod list) gomap \<Rightarrow> k8s_pod list \<Rightarrow> (string, child) gomap \<Rightarrow> string \<times> child \<Rightarrow> denial option"
where
  "update_child dependent pods old entry = (case entry of (newChildName, newChild) \<Rightarrow>
     let oldChild = (case gget old newChildName of None \<Rightarrow> zero_child | Some c \<Rightarrow> c)
     in if \<not> EqualExceptChangable newChild oldChild then Some NotReloadable
        else (case
            (if geq_nil (IpPools newChild) (IpPools oldChild) then None
             else first_error (\<lambda>ps. first_error (ip_in_use ps) (deleted_ips newChild oldChild)) (gvals dependent)) of
          Some e \<Rightarrow> Some e
        | None \<Rightarrow>
            if LocalIPs newChild = LocalIPs oldChild then None
            else first_error (local_ip_in_use pods)
              (filter (\<lambda>ip. \<not> list_contains (elems (LocalIPs newChild)) ip) (elems (LocalIPs oldChild)))))"

definition validateIPSecConnectionUpdate ::
  "ipsec_conn \<Rightarrow> ipsec_conn \<Rightarrow> k8s_pod list \<Rightarrow> (denial, unit) outcome"
where
  "validateIPSecConnectionUpdate new old pods =
     (let newChildren = Children (Spec new); oldChildren = Children (Spec old);
          dependent = dependent_pods new old pods;
          blocked = (if length newChildren \<noteq> length oldChildren
             then first_error (deletion_blocked dependent) (isChildDeleted newChildren oldChildren) else None);
          kept = without_added newChildren oldChildren
      in (case blocked of
            Some e \<Rightarrow> Err e
          | None \<Rightarrow> (case first_error (update_child dependent pods oldChildren) kept of
              Some e \<Rightarrow> Err e
            | None \<Rightarrow> validateIPSecConnectionUnique (new\<lparr>Spec := (Spec new)\<lparr>Children := kept\<rparr>\<rparr>))))"

section \<open>The handler\<close>

datatype admission_action = creationAction | deletionAction | updateAction | unknownAction

record review =
  OldObject :: raw_object
  NewObject :: raw_object

definition getAction :: "review \<Rightarrow> admission_action" where
  "getAction req =
     (if OldObject req = NoObject \<and> NewObject req \<noteq> NoObject then creationAction
      else if OldObject req \<noteq> NoObject \<and> NewObject req = NoObject then deletionAction
      else if OldObject req \<noteq> NoObject \<and> NewObject req \<noteq> NoObject then updateAction
      else unknownAction)"

text \<open>
  \<open>ServeHTTP\<close>. A request that cannot be parsed is \<open>None\<close>: \<open>writeResponseDenied\<close> then reads the
  UID of a nil review.
\<close>

definition ValidatingWebhook_ServeHTTP ::
  "api \<Rightarrow> (nsn \<Rightarrow> (api_error, charon_group) outcome) \<Rightarrow> review option \<Rightarrow> (denial, unit) outcome"
where
  "ValidatingWebhook_ServeHTTP a get_group request = (case request of
      None \<Rightarrow> Panic
    | Some req \<Rightarrow> (case ListPods a of
        Err e \<Rightarrow> Err (ListPodsFailed e)
      | Panic \<Rightarrow> Panic
      | Ok pods \<Rightarrow> (case getAction req of
          creationAction \<Rightarrow> (case ListConns a of
              Err e \<Rightarrow> Err (ListConnsFailed e)
            | Panic \<Rightarrow> Panic
            | Ok conns \<Rightarrow> (case NewObject req of
                Connection conn \<Rightarrow> (case get_group (CharonGroupRef_Nsn (Group (Spec conn))) of
                    Err e \<Rightarrow> Err (NoCharonGroup (gr_name (Group (Spec conn))) e)
                  | Panic \<Rightarrow> Panic
                  | Ok _ \<Rightarrow> validateIPSecConnectionCreation conn conns pods)
              | _ \<Rightarrow> Err BadNewObject))
        | deletionAction \<Rightarrow> validateIPSecConnectionDeletion (OldObject req) pods
        | updateAction \<Rightarrow> (case OldObject req of
              Connection old \<Rightarrow> (case NewObject req of
                  Connection new \<Rightarrow> validateIPSecConnectionUpdate new old pods
                | _ \<Rightarrow> Err BadNewObject)
            | _ \<Rightarrow> Err BadOldObject)
        | unknownAction \<Rightarrow> Err UnknownAction)))"

text \<open>Two functions that only the tests call.\<close>

definition extractXfrmPods :: "k8s_pod list \<Rightarrow> string \<Rightarrow> k8s_pod list" where
  "extractXfrmPods pods namespaceName =
     filter (\<lambda>p. ghas (Annotations p) AnnotationChildName \<and> p_Namespace p = namespaceName) pods"

definition canDeleteXfrm :: "k8s_pod \<Rightarrow> k8s_pod list \<Rightarrow> bool" where
  "canDeleteXfrm xfrm workers =
     (filter (\<lambda>p. gget (Annotations p) AnnotationChildName = Some (gstr (Annotations xfrm) AnnotationChildName)
        \<and> ghas (Annotations p) AnnotationIpmanName \<and> ghas (Annotations p) AnnotationPoolName) workers = [])"

end
