(* ===== verification/Validate_Props.thy ===== *)
theory Validate_Props
  imports Validate
begin

text \<open>
  What the validating webhook guarantees. The duplicate checks of
  \<open>validateIPSecConnectionUnique\<close> are instances of one interface, \<open>dup_check\<close>: a step that refuses
  a key it has seen and records it otherwise; run over a list it succeeds exactly when no key
  occurs twice.
\<close>

section \<open>Duplicate checks\<close>

locale dup_check =
  fixes step :: "'s \<Rightarrow> 'a \<Rightarrow> ('e, 's) outcome"
    and key :: "'a \<Rightarrow> 'k"
    and seen :: "'s \<Rightarrow> 'k set"
  assumes fresh: "key x \<notin> seen s \<Longrightarrow> \<exists>s'. step s x = Ok s' \<and> seen s' = insert (key x) (seen s)"
    and dup: "key x \<in> seen s \<Longrightarrow> \<exists>e. step s x = Err e"
begin

lemma step_Ok: "step s x = Ok s' \<Longrightarrow> key x \<notin> seen s \<and> seen s' = insert (key x) (seen s)"
  using fresh [of x s] dup [of x s] by auto

lemma run_seen: "foldl_outcome step s xs = Ok s' \<Longrightarrow> seen s' = seen s \<union> key ` set xs"
  by (induction xs arbitrary: s) (auto simp: obind_Ok_iff dest: step_Ok)

lemma run_iff: "(\<exists>s'. foldl_outcome step s xs = Ok s') \<longleftrightarrow> distinct (map key xs) \<and> key ` set xs \<inter> seen s = {}"
proof (induction xs arbitrary: s)
  case (Cons x xs)
  show ?case
  proof (cases "key x \<in> seen s")
    case True
    with dup [of x s] show ?thesis by auto
  next
    case False
    with fresh obtain s' where s': "step s x = Ok s'" "seen s' = insert (key x) (seen s)" by blast
    with Cons.IH [of s'] False show ?thesis by auto
  qed
qed simp

end

definition seen_ips :: "(string, string list) gomap \<Rightarrow> (string \<times> string) set" where
  "seen_ips m = {(ip, n). n \<in> set (case gget m ip of None \<Rightarrow> [] | Some l \<Rightarrow> l)}"

definition pool_ips :: "child \<Rightarrow> string list" where
  "pool_ips c = concat (map (\<lambda>(_, pool). elems pool) (gmap_of (IpPools c)))"

definition named_ips :: "child \<Rightarrow> (string \<times> string) list" where
  "named_ips c = map (\<lambda>ip. (ip, c_Name c)) (pool_ips c)"

interpretation ips: dup_check "unique_ip c" "\<lambda>ip. (ip, c_Name c)" seen_ips for c
proof unfold_locales
  fix ip m
  show "(ip, c_Name c) \<notin> seen_ips m \<Longrightarrow>
      \<exists>m'. unique_ip c m ip = Ok m' \<and> seen_ips m' = insert (ip, c_Name c) (seen_ips m)"
    by (auto simp: unique_ip_def seen_ips_def Let_def gget_put split: option.splits if_splits)
  show "(ip, c_Name c) \<in> seen_ips m \<Longrightarrow> \<exists>e. unique_ip c m ip = Err e"
    by (auto simp: unique_ip_def seen_ips_def Let_def split: option.splits)
qed

lemma unique_pools_flat: "unique_pools c m = foldl_outcome (unique_ip c) m (pool_ips c)"
proof -
  have "foldl_outcome (\<lambda>m (_, pool). foldl_outcome (unique_ip c) m (elems pool)) m pools
      = foldl_outcome (unique_ip c) m (concat (map (\<lambda>(_, pool). elems pool) pools))" for pools
  proof (induction pools arbitrary: m)
    case (Cons p pools)
    then show ?case by (cases p) (simp add: foldl_outcome_append)
  qed simp
  then show ?thesis by (simp add: unique_pools_def pool_ips_def)
qed

lemma unique_child_Ok:
  "(\<exists>st'. unique_child (m, ids) c = Ok st') \<longleftrightarrow>
     distinct (pool_ips c) \<and> set (named_ips c) \<inter> seen_ips m = {} \<and> XfrmIfId c \<notin> set ids"
  using ips.run_iff [of c m "pool_ips c"]
  by (cases "foldl_outcome (unique_ip c) m (pool_ips c)")
    (auto simp: unique_child_def unique_pools_flat named_ips_def distinct_map inj_on_def)

lemma unique_child_state:
  "unique_child (m, ids) c = Ok (m', ids') \<Longrightarrow>
     seen_ips m' = seen_ips m \<union> set (named_ips c) \<and> ids' = XfrmIfId c # ids"
  using ips.run_seen [of c m "pool_ips c" m']
  by (auto simp: unique_child_def unique_pools_flat obind_Ok_iff named_ips_def split: if_splits)

lemma distinct_named_ips: "distinct (named_ips c) \<longleftrightarrow> distinct (pool_ips c)"
  by (simp add: named_ips_def distinct_map inj_on_def)

lemma unique_children:
  "(\<exists>st'. foldl_outcome unique_child (m, ids) cs = Ok st') \<longleftrightarrow>
     distinct (concat (map named_ips cs)) \<and> set (concat (map named_ips cs)) \<inter> seen_ips m = {}
     \<and> distinct (map XfrmIfId cs) \<and> set (map XfrmIfId cs) \<inter> set ids = {}"
proof (induction cs arbitrary: m ids)
  case (Cons c cs)
  show ?case
  proof (cases "unique_child (m, ids) c")
    case (Ok st)
    obtain m' ids' where st: "st = (m', ids')" by (cases st)
    from Ok st have "unique_child (m, ids) c = Ok (m', ids')" by simp
    note state = unique_child_state [OF this]
    from Ok unique_child_Ok [of m ids c] have c: "distinct (named_ips c)" "set (named_ips c) \<inter> seen_ips m = {}"
      "XfrmIfId c \<notin> set ids" by (auto simp: distinct_named_ips)
    have "(\<exists>st'. foldl_outcome unique_child (m, ids) (c # cs) = Ok st') \<longleftrightarrow>
        (\<exists>st'. foldl_outcome unique_child (m', ids') cs = Ok st')" using Ok st by simp
    also have "\<dots> \<longleftrightarrow> distinct (concat (map named_ips (c # cs)))
        \<and> set (concat (map named_ips (c # cs))) \<inter> seen_ips m = {}
        \<and> distinct (map XfrmIfId (c # cs)) \<and> set (map XfrmIfId (c # cs)) \<inter> set ids = {}"
      unfolding Cons.IH using c state by auto
    finally show ?thesis .
  next
    case (Err e)
    then have "\<not> (\<exists>st'. unique_child (m, ids) c = Ok st')" by simp
    with Err show ?thesis unfolding unique_child_Ok by (auto simp: distinct_named_ips)
  next
    case Panic
    then have "\<not> (\<exists>st'. unique_child (m, ids) c = Ok st')" by simp
    with Panic show ?thesis unfolding unique_child_Ok by (auto simp: distinct_named_ips)
  qed
qed simp

lemma unique_iff:
  "validateIPSecConnectionUnique conn = Ok () \<longleftrightarrow>
     distinct (concat (map named_ips (gvals (Children (Spec conn)))))
     \<and> distinct (map XfrmIfId (gvals (Children (Spec conn))))"
  using unique_children [of "[]" "[]" "gvals (Children (Spec conn))"]
  by (auto simp: validateIPSecConnectionUnique_def obind_Ok_iff seen_ips_def)

section \<open>The pods of a connection\<close>

definition dep_of :: "(string, k8s_pod list) gomap \<Rightarrow> string \<Rightarrow> k8s_pod list" where
  "dep_of m cn = (case gget m cn of None \<Rightarrow> [] | Some ps \<Rightarrow> ps)"

definition pod_of_child :: "ipsec_conn \<Rightarrow> ipsec_conn \<Rightarrow> string \<Rightarrow> k8s_pod \<Rightarrow> bool" where
  "pod_of_child new old cn p \<longleftrightarrow> gget (Annotations p) AnnotationIpmanName = Some (cn_Name new)
     \<and> gget (Annotations p) AnnotationChildName = Some cn
     \<and> (ghas (Children (Spec new)) cn \<or> ghas (Children (Spec old)) cn)"

lemma dependent_pods_of: "dep_of (dependent_pods new old pods) cn = filter (pod_of_child new old cn) pods"
proof -
  have step: "dep_of (add_dependent new old m p) cn = dep_of m cn @ (if pod_of_child new old cn p then [p] else [])" for m p
    by (auto simp: dep_of_def add_dependent_def pod_of_child_def gget_put ghas_iff split: option.splits)
  have "dep_of (foldl (add_dependent new old) m pods) cn = dep_of m cn @ filter (pod_of_child new old cn) pods" for m
    by (induction pods arbitrary: m) (simp_all add: step)
  then show ?thesis by (simp add: dependent_pods_def dep_of_def)
qed

lemma dep_in_vals: "p \<in> set (dep_of m cn) \<Longrightarrow> \<exists>ps \<in> set (gvals m). p \<in> set ps"
proof -
  assume p: "p \<in> set (dep_of m cn)"
  then obtain ps where ps: "gget m cn = Some ps" "p \<in> set ps" by (cases "gget m cn") (simp_all add: dep_of_def)
  then have "(cn, ps) \<in> set m" by (simp add: gget_def map_of_SomeD)
  with ps(2) show ?thesis by force
qed

section \<open>Accepted updates\<close>

lemma update_Ok:
  "validateIPSecConnectionUpdate new old pods = Ok () \<Longrightarrow>
     first_error (update_child (dependent_pods new old pods) pods (Children (Spec old)))
       (without_added (Children (Spec new)) (Children (Spec old))) = None
     \<and> (length (Children (Spec new)) \<noteq> length (Children (Spec old)) \<longrightarrow>
          first_error (deletion_blocked (dependent_pods new old pods))
            (isChildDeleted (Children (Spec new)) (Children (Spec old))) = None)
     \<and> validateIPSecConnectionUnique (new\<lparr>Spec := (Spec new)\<lparr>Children :=
          without_added (Children (Spec new)) (Children (Spec old))\<rparr>\<rparr>) = Ok ()"
  by (auto simp: validateIPSecConnectionUpdate_def Let_def split: option.splits if_splits)

lemma update_child_None:
  assumes "update_child dependent pods oldChildren (k, nc) = None" and "gget oldChildren k = Some oc"
  shows "EqualExceptChangable nc oc"
    and "\<not> geq_nil (IpPools nc) (IpPools oc) \<Longrightarrow> ps \<in> set (gvals dependent) \<Longrightarrow> p \<in> set ps \<Longrightarrow>
      gstr (Annotations p) AnnotationVxlanIP \<notin> set (deleted_ips nc oc)"
    and "ip \<in> set (elems (LocalIPs oc)) \<Longrightarrow> ip \<notin> set (elems (LocalIPs nc)) \<Longrightarrow> local_ip_in_use pods ip = None"
  using assms
  by (auto simp: update_child_def Let_def first_error_None_iff ip_in_use_def find_None_iff
      split: if_splits option.splits)

lemma update_child_accepts:
  assumes "gget oldChildren k = Some oc" "EqualExceptChangable nc oc"
    and "first_error (\<lambda>ps. first_error (ip_in_use ps) (deleted_ips nc oc)) (gvals dependent) = None"
    and "first_error (local_ip_in_use pods)
      (filter (\<lambda>ip. \<not> list_contains (elems (LocalIPs nc)) ip) (elems (LocalIPs oc))) = None"
  shows "update_child dependent pods oldChildren (k, nc) = None"
  using assms by (simp add: update_child_def)

lemma kept_child:
  assumes "gok new" "gget new k = Some nc" and "\<forall>a \<in> set (isChildAdded new old). c_Name a \<noteq> c_Name nc"
  shows "(k, nc) \<in> set (without_added new old)"
  using assms by (auto simp: without_added_def gdelete_func_def gget_Some_iff Let_def list_ex_iff)

lemma deleted_ips_I:
  assumes "(pn, l) \<in> set (gmap_of (IpPools oc))" "ip \<in> set (elems l)"
    and "ip \<notin> set (case gget (gmap_of (IpPools nc)) pn of None \<Rightarrow> [] | Some l \<Rightarrow> elems l)"
  shows "ip \<in> set (deleted_ips nc oc)"
  using assms(2,3) by (auto simp: deleted_ips_def intro!: bexI [OF _ assms(1)])

lemma not_deleted:
  assumes "gok (gmap_of (IpPools nc))" "gok (gmap_of (IpPools oc))"
    and "(\<not> geq_nil (IpPools nc) (IpPools oc) \<Longrightarrow> ip \<notin> set (deleted_ips nc oc))"
    and pool: "gget (gmap_of (IpPools oc)) pn = Some l" "ip \<in> set (elems l)"
  shows "\<exists>l'. gget (gmap_of (IpPools nc)) pn = Some l' \<and> ip \<in> set (elems l')"
proof (cases "geq_nil (IpPools nc) (IpPools oc)")
  case True
  then have "gget (gmap_of (IpPools nc)) pn = gget (gmap_of (IpPools oc)) pn"
    using assms(1,2) by (auto simp: geq_nil_def geq_iff split: option.splits)
  with pool show ?thesis by auto
next
  case False
  have "(pn, l) \<in> set (gmap_of (IpPools oc))" using pool(1) assms(2) by (simp add: gget_Some_iff)
  from deleted_ips_I [OF this pool(2), of nc] assms(3) [OF False]
  have "ip \<in> set (case gget (gmap_of (IpPools nc)) pn of None \<Rightarrow> [] | Some l \<Rightarrow> elems l)" by blast
  then show ?thesis by (cases "gget (gmap_of (IpPools nc)) pn") simp_all
qed

lemma subnets_unused:
  assumes "local_ip_in_use pods ip = None" "ParseCIDR ip = Some (a, subnet)" "p \<in> set pods"
    and "gget (Annotations p) AnnotationVxlanIP = Some v"
  shows "\<exists>b n. ParseCIDR v = Some (b, n) \<and> \<not> net_contains subnet b"
  using assms by (force simp: local_ip_in_use_def subnet_in_use_def first_error_None_iff split: option.splits if_splits)

section \<open>Samples\<close>

definition shrink_old :: ipsec_conn where
  "shrink_old = two_children\<lparr>Spec := (Spec two_children)\<lparr>Children := [(''a'', zero_child\<lparr>c_Name := ''a'',
     LocalIPs := Some [''10.0.0.0/24'', ''10.1.0.0/24''], IpPools := Some [(''p'', Some [''10.0.0.1/32'', ''10.0.0.2/32''])]\<rparr>)]\<rparr>\<rparr>"

definition shrink_new :: ipsec_conn where
  "shrink_new = two_children\<lparr>Spec := (Spec two_children)\<lparr>Children := [(''a'', zero_child\<lparr>c_Name := ''a'',
     LocalIPs := Some [''10.0.0.0/24''], IpPools := Some [(''p'', Some [''10.0.0.1/32''])]\<rparr>)]\<rparr>\<rparr>"

definition shrink_pod :: k8s_pod where
  "shrink_pod = zero_pod\<lparr>Annotations := [(AnnotationIpmanName, cn_Name two_children),
     (AnnotationChildName, ''a''), (AnnotationVxlanIP, ''10.0.0.1/32'')]\<rparr>"

definition renamed_child :: ipsec_conn where
  "renamed_child = shrink_old\<lparr>Spec := (Spec shrink_old)\<lparr>Children := [(''b'', zero_child\<lparr>c_Name := ''b''\<rparr>)]\<rparr>\<rparr>"

lemma shrink_subnet: "local_ip_in_use [shrink_pod] ''10.1.0.0/24'' = None"
proof -
  have v: "gget (Annotations shrink_pod) AnnotationVxlanIP = Some ''10.0.0.1/32''"
    by (simp add: shrink_pod_def annotation_key_defs)
  let ?m = "cidr_mask 24 4"
  have n: "ParseCIDR ''10.1.0.0/24'' = Some (As16 (V4 [10, 1, 0, 0]),
      \<lparr>net_IP = ip_mask (As16 (V4 [10, 1, 0, 0])) ?m, net_Mask = ?m\<rparr>)"
    by (simp add: eval_cidr del: cidr_mask.simps)
  obtain m where b: "ParseCIDR ''10.0.0.1/32'' = Some (As16 (V4 [10, 0, 0, 1]), m)"
    by (simp add: eval_cidr)
  have "\<not> net_contains \<lparr>net_IP = ip_mask (As16 (V4 [10, 1, 0, 0])) ?m, net_Mask = ?m\<rparr> (As16 (V4 [10, 0, 0, 1]))"
    by (subst contains_v4) (simp_all add: cidr_mask_v4 and_bytes_def)
  with v n b show ?thesis by (simp add: local_ip_in_use_def subnet_in_use_def)
qed

lemma shrink_accepted: "validateIPSecConnectionUpdate shrink_new shrink_old [shrink_pod] = Ok ()"
proof -
  have none: "isChildAdded (Children (Spec shrink_new)) (Children (Spec shrink_old)) = []"
    by (simp add: isChildAdded_def shrink_new_def shrink_old_def ghas_def)
  have len: "length (Children (Spec shrink_new)) = length (Children (Spec shrink_old))"
    by (simp add: shrink_new_def shrink_old_def)
  obtain nc where nc: "Children (Spec shrink_new) = [(''a'', nc)]" by (simp add: shrink_new_def)
  obtain oc where oc: "Children (Spec shrink_old) = [(''a'', oc)]" by (simp add: shrink_old_def)
  let ?dep = "dependent_pods shrink_new shrink_old [shrink_pod]"
  have d: "deleted_ips nc oc = [''10.0.0.2/32'']" and e: "EqualExceptChangable nc oc"
    and l: "filter (\<lambda>ip. \<not> list_contains (elems (LocalIPs nc)) ip) (elems (LocalIPs oc)) = [''10.1.0.0/24'']"
    using nc oc by (auto simp: shrink_new_def shrink_old_def deleted_ips_def EqualExceptChangable_iff geq_nil_def zero_child_def)
  have "ip_in_use ps ''10.0.0.2/32'' = None" if "ps \<in> set (gvals ?dep)" for ps
    using that by (auto simp: dependent_pods_def add_dependent_def shrink_pod_def annotation_key_defs gput_def
        ip_in_use_def gstr_def split: option.splits if_splits)
  then have "first_error (\<lambda>ps. first_error (ip_in_use ps) (deleted_ips nc oc)) (gvals ?dep) = None"
    unfolding d by (simp add: first_error_None_iff)
  moreover have "first_error (local_ip_in_use [shrink_pod])
      (filter (\<lambda>ip. \<not> list_contains (elems (LocalIPs nc)) ip) (elems (LocalIPs oc))) = None"
    unfolding l by (simp add: shrink_subnet)
  ultimately have "update_child ?dep [shrink_pod] [(''a'', oc)] (''a'', nc) = None"
    using e by (intro update_child_accepts) simp_all
  then show ?thesis
    by (simp add: validateIPSecConnectionUpdate_def len Let_def without_added_def none gdelete_func_def nc oc)
      (use nc in \<open>auto simp: unique_iff shrink_new_def named_ips_def pool_ips_def\<close>)
qed

section \<open>Properties\<close>

text \<open>
  C27. \<open>validateIPSecConnectionUnique\<close> accepts a connection exactly when no child name has the same
  address twice, over all its pools, and no two children have the same xfrm interface id. Two
  children may share an address.
\<close>

theorem validateUnique_iff:
  "validateIPSecConnectionUnique conn = Ok () \<longleftrightarrow>
     distinct (concat (map named_ips (gvals (Children (Spec conn)))))
     \<and> distinct (map XfrmIfId (gvals (Children (Spec conn))))"
  by (rule unique_iff)

text \<open>
  C25. What an accepted update leaves to the pods of the connection: a child that stays (under its
  key, and not under the name of a newly added one) changes in nothing but its pools and local
  addresses; an address that a pod of the connection uses stays in its pool; a local subnet is
  removed only when no pod's address lies in it; and when the number of children changes, no
  child with pods disappears.
\<close>

theorem update_keeps_used:
  assumes "validateIPSecConnectionUpdate new old pods = Ok ()"
    and "spec_ok (Spec new)" "spec_ok (Spec old)"
    and "gget (Children (Spec new)) k = Some nc" "gget (Children (Spec old)) k = Some oc"
    and "\<forall>a \<in> set (isChildAdded (Children (Spec new)) (Children (Spec old))). c_Name a \<noteq> c_Name nc"
  shows "EqualExceptChangable nc oc
    \<and> (\<forall>p \<in> set pods. \<forall>cn pn l. pod_of_child new old cn p \<and> gget (gmap_of (IpPools oc)) pn = Some l
        \<and> gstr (Annotations p) AnnotationVxlanIP \<in> set (elems l) \<longrightarrow>
        (\<exists>l'. gget (gmap_of (IpPools nc)) pn = Some l' \<and> gstr (Annotations p) AnnotationVxlanIP \<in> set (elems l')))
    \<and> (\<forall>ip \<in> set (elems (LocalIPs oc)) - set (elems (LocalIPs nc)). \<forall>a subnet p v. ParseCIDR ip = Some (a, subnet)
        \<and> p \<in> set pods \<and> gget (Annotations p) AnnotationVxlanIP = Some v \<longrightarrow>
        (\<exists>b n. ParseCIDR v = Some (b, n) \<and> \<not> net_contains subnet b))
    \<and> (length (Children (Spec new)) \<noteq> length (Children (Spec old)) \<longrightarrow>
        (\<forall>c \<in> set (isChildDeleted (Children (Spec new)) (Children (Spec old))).
          \<forall>p \<in> set pods. \<not> pod_of_child new old (c_Name c) p))"
proof -
  note ok = update_Ok [OF assms(1)]
  have g: "gok (Children (Spec new))" "gok (gmap_of (IpPools nc))" "gok (gmap_of (IpPools oc))"
    using assms(2-5) by (auto simp: spec_ok_def child_ok_def gget_Some_iff)
  from ok kept_child [OF g(1) assms(4,6)]
  have none: "update_child (dependent_pods new old pods) pods (Children (Spec old)) (k, nc) = None"
    by (simp add: first_error_None_iff)
  note u = update_child_None [OF none assms(5)]
  have dep: "\<exists>ps \<in> set (gvals (dependent_pods new old pods)). p \<in> set ps"
    if "p \<in> set pods" "pod_of_child new old cn p" for p cn
    using that by (intro dep_in_vals [where cn = cn]) (simp add: dependent_pods_of)
  have used: "\<exists>l'. gget (gmap_of (IpPools nc)) pn = Some l' \<and> gstr (Annotations p) AnnotationVxlanIP \<in> set (elems l')"
    if p: "p \<in> set pods" "pod_of_child new old cn p" and l: "gget (gmap_of (IpPools oc)) pn = Some l"
      "gstr (Annotations p) AnnotationVxlanIP \<in> set (elems l)" for p cn pn l
    using dep [OF p] by (intro not_deleted [OF g(2,3) _ l]) (use u(2) in blast)
  have del: "\<not> pod_of_child new old (c_Name c) p"
    if n: "length (Children (Spec new)) \<noteq> length (Children (Spec old))"
      and c: "c \<in> set (isChildDeleted (Children (Spec new)) (Children (Spec old)))" and p: "p \<in> set pods" for c p
  proof
    assume "pod_of_child new old (c_Name c) p"
    then have "p \<in> set (dep_of (dependent_pods new old pods) (c_Name c))"
      using p by (simp add: dependent_pods_of)
    moreover have "deletion_blocked (dependent_pods new old pods) c = None"
      using ok n c by (simp add: first_error_None_iff)
    ultimately show False by (auto simp: deletion_blocked_def dep_of_def split: option.splits if_splits)
  qed
  have sub: "\<exists>b n. ParseCIDR v = Some (b, n) \<and> \<not> net_contains subnet b"
    if "ip \<in> set (elems (LocalIPs oc)) - set (elems (LocalIPs nc))" "ParseCIDR ip = Some (a, subnet)"
      "p \<in> set pods" "gget (Annotations p) AnnotationVxlanIP = Some v" for ip a subnet p v
    using that by (intro subnets_unused [OF u(3)]) simp_all
  show ?thesis using u(1) used del sub by blast
qed

theorem update_keeps_used_witness:
  "\<exists>l' c. gget (Children (Spec shrink_new)) ''a'' = Some c \<and> gget (gmap_of (IpPools c)) ''p'' = Some l'
     \<and> ''10.0.0.1/32'' \<in> set (elems l')"
proof -
  have ok: "spec_ok (Spec shrink_new)" "spec_ok (Spec shrink_old)" by code_simp+
  obtain nc where nc: "gget (Children (Spec shrink_new)) ''a'' = Some nc" by (simp add: shrink_new_def)
  obtain oc where oc: "gget (Children (Spec shrink_old)) ''a'' = Some oc" by (simp add: shrink_old_def)
  have none: "\<forall>a \<in> set (isChildAdded (Children (Spec shrink_new)) (Children (Spec shrink_old))). c_Name a \<noteq> c_Name nc"
    by (simp add: isChildAdded_def shrink_new_def shrink_old_def ghas_def)
  have pod: "pod_of_child shrink_new shrink_old ''a'' shrink_pod"
    "gstr (Annotations shrink_pod) AnnotationVxlanIP = ''10.0.0.1/32''" by code_simp+
  have pool: "gget (gmap_of (IpPools oc)) ''p'' = Some (Some [''10.0.0.1/32'', ''10.0.0.2/32''])"
    using oc by (auto simp: shrink_old_def)
  from update_keeps_used [OF shrink_accepted ok nc oc none] pod pool nc show ?thesis by auto
qed

text \<open>
  C29. The deletion check is skipped when the number of children stays the same: an update that
  replaces every child of a connection by a child under a new key is accepted, whatever pods use
  the old children, and the new children are not checked for duplicates either.
\<close>

theorem replaced_children_unchecked:
  assumes "length (Children (Spec new)) = length (Children (Spec old))"
    and "\<forall>k. ghas (Children (Spec new)) k \<longrightarrow> \<not> ghas (Children (Spec old)) k"
  shows "validateIPSecConnectionUpdate new old pods = Ok ()"
proof -
  have "\<not> ghas (Children (Spec old)) k" if "(k, c) \<in> set (Children (Spec new))" for k c
    using that assms(2) by (force simp: ghas_iff)
  then have "without_added (Children (Spec new)) (Children (Spec old)) = []"
    by (force simp: without_added_def gdelete_func_def isChildAdded_def Let_def list_ex_iff filter_empty_conv)
  then show ?thesis
    using assms(1) by (simp add: validateIPSecConnectionUpdate_def Let_def unique_iff)
qed

theorem replaced_children_unchecked_witness:
  "validateIPSecConnectionUpdate renamed_child shrink_old [shrink_pod] = Ok ()
   \<and> pod_of_child renamed_child shrink_old ''a'' shrink_pod"
proof -
  have "length (Children (Spec renamed_child)) = length (Children (Spec shrink_old))"
    "\<forall>k. ghas (Children (Spec renamed_child)) k \<longrightarrow> \<not> ghas (Children (Spec shrink_old)) k"
    by (simp_all add: renamed_child_def shrink_old_def ghas_def)
  from replaced_children_unchecked [OF this] show ?thesis
    by (intro conjI) (simp, code_simp)
qed

text \<open>
  A connection is deleted only when no pod is annotated with its name and the key of one of
  its children; and with a readable object nothing else stops it.
\<close>

theorem validateDeletion_iff:
  "validateIPSecConnectionDeletion old pods = Ok () \<longleftrightarrow>
     (\<exists>conn. old = Connection conn \<and> (\<forall>p \<in> set pods. \<forall>cn.
        \<not> (gget (Annotations p) AnnotationChildName = Some cn
          \<and> gget (Annotations p) AnnotationIpmanName = Some (cn_Name conn) \<and> ghas (Children (Spec conn)) cn)))"
proof -
  have "(case first_error f ps of Some e \<Rightarrow> Err e | None \<Rightarrow> Ok ()) = Ok () \<longleftrightarrow> (\<forall>p \<in> set ps. f p = None)"
    for f :: "k8s_pod \<Rightarrow> denial option" and ps
    by (simp add: first_error_None_iff [symmetric] split: option.split)
  moreover have "uses_connection conn p = None \<longleftrightarrow> (\<forall>cn. \<not> (gget (Annotations p) AnnotationChildName = Some cn
      \<and> gget (Annotations p) AnnotationIpmanName = Some (cn_Name conn) \<and> ghas (Children (Spec conn)) cn))" for conn p
    by (auto simp: uses_connection_def split: option.splits)
  ultimately show ?thesis
    by (cases old) (simp_all add: validateIPSecConnectionDeletion_def)
qed

theorem validateDeletion_iff_witness:
  "validateIPSecConnectionDeletion (Connection shrink_old) [] = Ok ()
   \<and> validateIPSecConnectionDeletion (Connection shrink_old) [shrink_pod] \<noteq> Ok ()"
proof -
  have "gget (Annotations shrink_pod) AnnotationChildName = Some ''a''"
    "gget (Annotations shrink_pod) AnnotationIpmanName = Some (cn_Name shrink_old)" "ghas (Children (Spec shrink_old)) ''a''"
    by code_simp+
  then show ?thesis unfolding validateDeletion_iff by auto
qed

text \<open>
  What \<open>validateIPSecConnectionCreation\<close> accepts: a name that no connection and no pod's
  annotation has yet, only addresses with one slash, and no duplicates.
\<close>

theorem validateCreation_iff:
  "validateIPSecConnectionCreation conn other pods = Ok () \<longleftrightarrow>
     (\<forall>obj \<in> set other. sp_Name (Spec obj) \<noteq> sp_Name (Spec conn))
     \<and> (\<forall>p \<in> set pods. gstr (Annotations p) AnnotationIpmanName \<noteq> sp_Name (Spec conn))
     \<and> (\<forall>c \<in> set (gvals (Children (Spec conn))).
          \<forall>ip \<in> set (elems (LocalIPs c)) \<union> set (elems (RemoteIPs c)) \<union> set (pool_ips c). slash_count ip = 1)
     \<and> validateIPSecConnectionUnique conn = Ok ()"
proof -
  have chain: "(case first_error f xs of Some e \<Rightarrow> Err e | None \<Rightarrow> r) = Ok () \<longleftrightarrow> (\<forall>x \<in> set xs. f x = None) \<and> r = Ok ()"
    for f :: "'a \<Rightarrow> denial option" and xs and r :: "(denial, unit) outcome"
    by (simp add: first_error_None_iff [symmetric] split: option.split)
  have opt: "(case first_error f xs of Some e \<Rightarrow> Some e | None \<Rightarrow> r) = None \<longleftrightarrow> (\<forall>x \<in> set xs. f x = None) \<and> r = None"
    for f :: "string \<Rightarrow> denial option" and xs and r
    by (simp add: first_error_None_iff [symmetric] split: option.split)
  have child: "bad_child c = None \<longleftrightarrow>
      (\<forall>ip \<in> set (elems (LocalIPs c)) \<union> set (elems (RemoteIPs c)) \<union> set (pool_ips c). slash_count ip = 1)" for c
    by (auto simp: bad_child_def opt first_error_None_iff pool_ips_def split: prod.splits if_splits)
  show ?thesis
    by (auto simp: validateIPSecConnectionCreation_def chain child)
qed

theorem validateCreation_iff_witness:
  "validateIPSecConnectionCreation shrink_old [] [] = Ok ()
   \<and> validateIPSecConnectionCreation shrink_old [shrink_old] [] \<noteq> Ok ()"
  unfolding validateCreation_iff unique_iff
  by (simp add: shrink_old_def pool_ips_def named_ips_def slash_count_def count_char_def zero_child_def)

end
