(* ===== verification/Alloc.thy ===== *)
theory Alloc
  imports Mutate_Props Validate_Props "HOL-Library.Multiset"
begin

text \<open>
  The addresses of one connection under the three parties that touch them: the mutating webhook
  takes an address off a pool, the pod it was meant for appears (or does not), and the controller
  computes the free addresses anew from the pods it sees. The steps are the operations of the
  other theories; each reads and writes the status in one go, as the API server refuses a status
  update that is based on an old version. The property is that no address is handed out twice.

  A pod that was admitted may appear until the deadline of its pending entry; the list of pods that
  a status update reads is the current one. The specification of the connection does not change.
\<close>

section \<open>States and steps\<close>

record admission =
  ad_IP :: string
  ad_Child :: string
  ad_Until :: int

record alloc_state =
  al_Conn :: ipsec_conn
  al_Pods :: "k8s_pod list"
  al_Admitted :: "admission list"
  al_Now :: int

abbreviation vxlan_of :: "k8s_pod \<Rightarrow> string" where
  "vxlan_of p \<equiv> gstr (Annotations p) AnnotationVxlanIP"

abbreviation child_of :: "k8s_pod \<Rightarrow> string" where
  "child_of p \<equiv> gstr (Annotations p) AnnotationChildName"

inductive alloc_step :: "envs \<Rightarrow> alloc_state \<Rightarrow> alloc_state \<Rightarrow> bool" for env where
  admit: "clock_ok clk \<Longrightarrow> instant clk = al_Now s
    \<Longrightarrow> allocate (format_layout clk) cn pn (al_Conn s) = Ok (c, ip, gw, conn')
    \<Longrightarrow> alloc_step env s (s\<lparr>al_Conn := conn', al_Admitted := \<lparr>ad_IP = ip, ad_Child = cn,
          ad_Until = deadline (instant (clk\<lparr>wc_nano := 0\<rparr>))\<rparr> # al_Admitted s\<rparr>)"
| appear: "a \<in> set (al_Admitted s) \<Longrightarrow> al_Now s \<le> ad_Until a
    \<Longrightarrow> vxlan_of p = ad_IP a \<Longrightarrow> child_of p = ad_Child a
    \<Longrightarrow> alloc_step env s (s\<lparr>al_Pods := p # al_Pods s, al_Admitted := remove1 a (al_Admitted s)\<rparr>)"
| refuse: "alloc_step env s (s\<lparr>al_Admitted := remove1 a (al_Admitted s)\<rparr>)"
| foreign: "child_of p \<notin> set (gkeys (Children (Spec (al_Conn s))))
    \<Longrightarrow> alloc_step env s (s\<lparr>al_Pods := p # al_Pods s\<rparr>)"
| gone: "alloc_step env s (s\<lparr>al_Pods := remove1 p (al_Pods s)\<rparr>)"
| tick: "0 \<le> d \<Longrightarrow> alloc_step env s (s\<lparr>al_Now := al_Now s + d\<rparr>)"
| refresh: "ListPods a = Ok (al_Pods s)
    \<Longrightarrow> updateIPSecConnectionStatus env a (al_Now s) (al_Conn s) = (conn', rq, None)
    \<Longrightarrow> alloc_step env s (s\<lparr>al_Conn := conn'\<rparr>)"
| other_status: "Spec conn' = Spec (al_Conn s) \<Longrightarrow> FreeIPs (Status conn') = FreeIPs (Status (al_Conn s))
    \<Longrightarrow> PendingIPs (Status conn') = PendingIPs (Status (al_Conn s))
    \<Longrightarrow> alloc_step env s (s\<lparr>al_Conn := conn'\<rparr>)"

text \<open>The addresses in use or promised.\<close>

definition promised :: "alloc_state \<Rightarrow> string list" where
  "promised s = map ad_IP (filter (\<lambda>a. al_Now s \<le> ad_Until a) (al_Admitted s))"

definition in_use :: "alloc_state \<Rightarrow> string list" where
  "in_use s = map vxlan_of (pods_with_annotation (al_Conn s) (al_Pods s))"

definition live_ips :: "alloc_state \<Rightarrow> string list" where
  "live_ips s = promised s @ in_use s"

text \<open>A specification whose pools share no address, with the children under their names.\<close>

definition pools_apart :: "ipsec_spec \<Rightarrow> bool" where
  "pools_apart sp \<longleftrightarrow> spec_ok sp \<and> (\<forall>(k, c) \<in> set (Children sp). c_Name c = k)
     \<and> (\<forall>(k, c) \<in> set (Children sp). \<forall>(p, l) \<in> set (gmap_of (IpPools c)). distinct (elems l)
        \<and> (\<forall>(k', c') \<in> set (Children sp). \<forall>(p', l') \<in> set (gmap_of (IpPools c')).
             (k, p) \<noteq> (k', p') \<longrightarrow> set (elems l) \<inter> set (elems l') = {}))"

definition alloc_init :: "alloc_state \<Rightarrow> bool" where
  "alloc_init s \<longleftrightarrow> pools_apart (Spec (al_Conn s)) \<and> FreeIPs (Status (al_Conn s)) = None
     \<and> PendingIPs (Status (al_Conn s)) = None \<and> al_Admitted s = []
     \<and> pods_with_annotation (al_Conn s) (al_Pods s) = []"

section \<open>The invariant\<close>

definition in_pool :: "ipsec_spec \<Rightarrow> string \<Rightarrow> string \<Rightarrow> string \<Rightarrow> bool" where
  "in_pool sp cn pn ip \<longleftrightarrow> (\<exists>c l. (cn, c) \<in> set (Children sp) \<and> (pn, l) \<in> set (gmap_of (IpPools c)) \<and> ip \<in> set (elems l))"

definition free_inv :: "ipsec_conn \<Rightarrow> bool" where
  "free_inv conn \<longleftrightarrow> gok (gmap_of (FreeIPs (Status conn))) \<and> gok (gmap_of (PendingIPs (Status conn)))
     \<and> (\<forall>cn pn l. free_of (Status conn) cn pn = Some l \<longrightarrow> distinct l \<and> (\<forall>ip \<in> set l. in_pool (Spec conn) cn pn ip))"

definition pending_inv :: "alloc_state \<Rightarrow> bool" where
  "pending_inv s \<longleftrightarrow> (\<forall>a \<in> set (al_Admitted s). al_Now s \<le> ad_Until a \<longrightarrow>
     (\<exists>ts t. gget (gmap_of (PendingIPs (Status (al_Conn s)))) (ad_IP a) = Some ts
        \<and> parse_layout ts = Some t \<and> deadline t = ad_Until a))"

definition alloc_inv :: "alloc_state \<Rightarrow> bool" where
  "alloc_inv s \<longleftrightarrow> pools_apart (Spec (al_Conn s)) \<and> free_inv (al_Conn s) \<and> pending_inv s
     \<and> distinct (live_ips s)
     \<and> (\<forall>cn pn l. free_of (Status (al_Conn s)) cn pn = Some l \<longrightarrow> set l \<inter> set (live_ips s) = {})
     \<and> (\<forall>a \<in> set (al_Admitted s). ad_Child a \<in> set (gkeys (Children (Spec (al_Conn s)))))"

lemma pools_apartD:
  assumes "pools_apart sp" "(k, c) \<in> set (Children sp)" "(p, l) \<in> set (gmap_of (IpPools c))"
  shows "distinct (elems l)" "c_Name c = k"
    and "(k', c') \<in> set (Children sp) \<Longrightarrow> (p', l') \<in> set (gmap_of (IpPools c')) \<Longrightarrow> (k, p) \<noteq> (k', p')
      \<Longrightarrow> set (elems l) \<inter> set (elems l') = {}"
proof -
  note a = assms(1) [unfolded pools_apart_def case_prod_unfold, THEN conjunct2]
  from bspec [OF conjunct1 [OF a] assms(2)] show "c_Name c = k" by simp
  from bspec [OF bspec [OF conjunct2 [OF a] assms(2)], of "(p, l)"] assms(3)
  show "distinct (elems l)" "(k', c') \<in> set (Children sp) \<Longrightarrow> (p', l') \<in> set (gmap_of (IpPools c')) \<Longrightarrow> (k, p) \<noteq> (k', p')
      \<Longrightarrow> set (elems l) \<inter> set (elems l') = {}" by force+
qed

lemma in_pool_unique:
  assumes "pools_apart sp" "in_pool sp cn pn ip" "in_pool sp cn' pn' ip"
  shows "cn = cn' \<and> pn = pn'"
proof (rule ccontr)
  assume ne: "\<not> (cn = cn' \<and> pn = pn')"
  from assms(2,3) obtain c l c' l' where
    "(cn, c) \<in> set (Children sp)" "(pn, l) \<in> set (gmap_of (IpPools c))" "ip \<in> set (elems l)"
    "(cn', c') \<in> set (Children sp)" "(pn', l') \<in> set (gmap_of (IpPools c'))" "ip \<in> set (elems l')"
    unfolding in_pool_def by (elim exE conjE) (rule that)
  with pools_apartD(3) [OF assms(1), of cn c pn l cn' c' pn' l'] ne show False by auto
qed

lemma live_keeps:
  assumes "al_Now s' = al_Now s" "al_Admitted s' = al_Admitted s" "al_Pods s' = al_Pods s"
    and "Spec (al_Conn s') = Spec (al_Conn s)"
  shows "live_ips s' = live_ips s"
  using assms by (simp add: live_ips_def promised_def in_use_def pods_with_annotation_def)

lemma mset_remove1_admitted:
  "a \<in> set as \<Longrightarrow> P a \<Longrightarrow> mset (map f (filter P as)) = add_mset (f a) (mset (map f (filter P (remove1 a as))))"
  by (induction as) auto

lemma filter_remove1_subset:
  "mset (map f (filter P (remove1 a as))) \<subseteq># mset (map f (filter P as))"
  by (induction as) (auto simp: subset_mset.add_increasing2 intro: subset_mset.order_trans)

lemma filter_weaken_subset:
  "(\<And>x. P x \<Longrightarrow> Q x) \<Longrightarrow> mset (map f (filter P xs)) \<subseteq># mset (map f (filter Q xs))"
  by (induction xs) (auto simp: subset_mset.add_increasing2 intro: subset_mset.order_trans)

lemma distinct_mset_sub: "mset xs \<subseteq># mset ys \<Longrightarrow> distinct ys \<Longrightarrow> distinct xs"
proof -
  assume "mset xs \<subseteq># mset ys" and d: "distinct ys"
  then obtain C where "mset ys = mset xs + C" by (auto simp: mset_subset_eq_exists_conv)
  moreover obtain zs where "mset zs = C" using ex_mset by blast
  ultimately have "mset ys = mset (xs @ zs)" by simp
  from mset_eq_imp_distinct_iff [OF this] d show "distinct xs" by simp
qed

text \<open>A step that only drops live addresses and leaves the connection alone.\<close>

lemma alloc_inv_fewer:
  assumes inv: "alloc_inv s" and c: "al_Conn s' = al_Conn s"
    and sub: "mset (live_ips s') \<subseteq># mset (live_ips s)"
    and adm: "set (al_Admitted s') \<subseteq> set (al_Admitted s)" and now: "al_Now s \<le> al_Now s'"
  shows "alloc_inv s'"
proof -
  have set: "set (live_ips s') \<subseteq> set (live_ips s)" using set_mset_mono [OF sub] by simp
  have "distinct (live_ips s')" using inv sub by (auto simp: alloc_inv_def intro: distinct_mset_sub)
  moreover have "pending_inv s'"
    unfolding pending_inv_def
  proof (intro ballI impI)
    fix a
    assume a: "a \<in> set (al_Admitted s')" "al_Now s' \<le> ad_Until a"
    with adm now have "a \<in> set (al_Admitted s)" "al_Now s \<le> ad_Until a" by auto
    with inv show "\<exists>ts t. gget (gmap_of (PendingIPs (Status (al_Conn s')))) (ad_IP a) = Some ts
        \<and> parse_layout ts = Some t \<and> deadline t = ad_Until a"
      unfolding alloc_inv_def pending_inv_def c by blast
  qed
  moreover have "set l \<inter> set (live_ips s') = {}" if "free_of (Status (al_Conn s)) cn pn = Some l" for cn pn l
    using inv set that unfolding alloc_inv_def by blast
  ultimately show ?thesis using inv adm c unfolding alloc_inv_def by auto
qed

text \<open>The webhook's step.\<close>

lemma live_admit:
  assumes c: "Spec conn' = Spec (al_Conn s)"
    and s': "s' = s\<lparr>al_Conn := conn', al_Admitted := \<lparr>ad_IP = ip, ad_Child = cn, ad_Until = t\<rparr> # al_Admitted s\<rparr>"
  shows "set (live_ips s') \<subseteq> insert ip (set (live_ips s))"
    and "ip \<notin> set (live_ips s) \<Longrightarrow> distinct (live_ips s) \<Longrightarrow> distinct (live_ips s')"
  using c by (auto simp: s' live_ips_def promised_def in_use_def pods_with_annotation_def)

lemma alloc_inv_admit:
  assumes inv: "alloc_inv s" and clk: "clock_ok clk"
    and a: "allocate (format_layout clk) cn pn (al_Conn s) = Ok (c, ip, gw, conn')"
    and s': "s' = s\<lparr>al_Conn := conn', al_Admitted := \<lparr>ad_IP = ip, ad_Child = cn,
      ad_Until = deadline (instant (clk\<lparr>wc_nano := 0\<rparr>))\<rparr> # al_Admitted s\<rparr>"
  shows "alloc_inv s'"
proof -
  let ?conn = "al_Conn s" and ?ts = "format_layout clk"
  note inv' = inv [unfolded alloc_inv_def free_inv_def]
  from allocate_Ok(3) [OF a] obtain rest where f: "free_of (Status ?conn) cn pn = Some (ip # rest)"
    and conn': "conn' = take_ip cn pn rest ip ?ts ?conn" by blast
  have sp: "Spec conn' = Spec ?conn" by (simp add: conn')
  from f inv' have new: "ip \<notin> set (live_ips s)" "ip \<notin> set rest" "distinct rest" "in_pool (Spec ?conn) cn pn ip"
    "\<forall>i \<in> set rest. in_pool (Spec ?conn) cn pn i" "set rest \<inter> set (live_ips s) = {}" by fastforce+
  have key: "cn \<in> set (gkeys (Children (Spec ?conn)))"
    using new(4) by (force simp: in_pool_def)
  have free: "distinct l \<and> (\<forall>i \<in> set l. in_pool (Spec ?conn) cn' pn' i) \<and> set l \<inter> set (live_ips s') = {}"
    if l: "free_of (Status conn') cn' pn' = Some l" for cn' pn' l
  proof (cases "cn' = cn \<and> pn' = pn")
    case True
    with l have "l = rest" by (simp add: conn' free_of_take_ip)
    with True new live_admit(1) [OF sp s'] show ?thesis by auto
  next
    case False
    with l have l': "free_of (Status ?conn) cn' pn' = Some l" by (auto simp: conn' free_of_take_ip split: if_splits)
    with inv' have old: "distinct l" "\<forall>i \<in> set l. in_pool (Spec ?conn) cn' pn' i" "set l \<inter> set (live_ips s) = {}" by blast+
    have "ip \<notin> set l"
      using old(2) in_pool_unique [of "Spec ?conn" cn pn ip cn' pn'] new(4) False inv' by blast
    with old live_admit(1) [OF sp s'] show ?thesis by blast
  qed
  have gok: "gok (gmap_of (FreeIPs (Status conn')))" "gok (gmap_of (PendingIPs (Status conn')))"
    using inv' by (auto simp: conn' take_ip_def Let_def)
  have pend: "pending_inv s'"
    unfolding pending_inv_def
  proof (intro ballI impI)
    fix b
    assume b: "b \<in> set (al_Admitted s')" "al_Now s' \<le> ad_Until b"
    show "\<exists>ts t. gget (gmap_of (PendingIPs (Status (al_Conn s')))) (ad_IP b) = Some ts
        \<and> parse_layout ts = Some t \<and> deadline t = ad_Until b"
    proof (cases "b \<in> set (al_Admitted s)")
      case True
      with b(2) have "ad_IP b \<in> set (live_ips s)" by (auto simp: s' live_ips_def promised_def)
      with new(1) have "ad_IP b \<noteq> ip" by auto
      moreover have "al_Now s \<le> ad_Until b" using b(2) by (simp add: s')
      ultimately show ?thesis
        using True inv' unfolding pending_inv_def by (simp add: s' conn' pending_take_ip)
    next
      case False
      with b(1) have "ad_IP b = ip" "ad_Until b = deadline (instant (clk\<lparr>wc_nano := 0\<rparr>))" by (auto simp: s')
      then show ?thesis by (simp add: s' conn' pending_take_ip parse_format [OF clk])
    qed
  qed
  have "distinct (live_ips s')" using live_admit(2) [OF sp s' new(1)] inv' by blast
  with free gok pend inv' key show ?thesis
    unfolding alloc_inv_def free_inv_def by (simp add: s' sp)
qed

text \<open>The controller's step.\<close>

lemma gok_remove_taken: "gok (remove_taken pend used free) = gok free"
  by (simp add: gok_def remove_taken_def comp_def case_prod_unfold)

lemma gok_fill_children: "gok free \<Longrightarrow> gok (foldl fill_child free cs)"
proof (induction cs arbitrary: free)
  case (Cons c cs)
  obtain k v where "c = (k, v)" by (cases c)
  with Cons show ?case by (auto simp: fill_child_def Let_def intro: gok_put)
qed simp

lemma refresh_gok:
  assumes "ListPods a = Ok ps" "updateIPSecConnectionStatus env a now conn = (conn', rq, err)"
    and "gok (gmap_of (FreeIPs (Status conn)))" "gok (gmap_of (PendingIPs (Status conn)))"
  shows "gok (gmap_of (FreeIPs (Status conn')))" "gok (gmap_of (PendingIPs (Status conn')))"
proof -
  note st = status_step [OF assms(1,2)]
  show "gok (gmap_of (FreeIPs (Status conn')))"
    using assms(3) by (simp add: st(2) gok_remove_taken gok_fill_children gok_delete_func)
  show "gok (gmap_of (PendingIPs (Status conn')))"
    using assms(4) by (cases "PendingIPs (Status conn)") (simp_all add: st(1) gok_delete_func)
qed

lemma refresh_no_child:
  assumes "ListPods a = Ok ps" "updateIPSecConnectionStatus env a now conn = (conn', rq, err)"
    and "spec_ok (Spec conn)" "gok (gmap_of (FreeIPs (Status conn)))" "gget (Children (Spec conn)) c = None"
  shows "free_of (Status conn') c p = None"
proof -
  have "gok (Children (Spec conn))" using assms(3) by (simp add: spec_ok_def)
  with assms(4,5) show ?thesis
    by (simp add: free_of_def status_step(2) [OF assms(1,2)] gget_remove_taken gget_fill_children
        gget_delete_func ghas_def split: option.split)
qed

lemma refresh_free:
  assumes inv: "free_inv conn" and apart: "pools_apart (Spec conn)"
    and r: "ListPods a = Ok ps" "updateIPSecConnectionStatus env a now conn = (conn', rq, err)"
    and l: "free_of (Status conn') cn pn = Some l"
  shows "distinct l \<and> (\<forall>ip \<in> set l. in_pool (Spec conn) cn pn ip
    \<and> ip \<notin> fst ` set (gmap_of (PendingIPs (Status conn'))) \<and> ip \<notin> used_ips conn ps)"
proof -
  have ok: "spec_ok (Spec conn)" "gok (gmap_of (FreeIPs (Status conn)))"
    using inv apart by (simp_all add: free_inv_def pools_apart_def)
  from l refresh_no_child [OF r ok] obtain ch where ch: "gget (Children (Spec conn)) cn = Some ch"
    by (cases "gget (Children (Spec conn)) cn") auto
  then have ch_in: "(cn, ch) \<in> set (Children (Spec conn))" by (simp add: gget_def map_of_SomeD)
  note fa = free_after [OF r ok ch, of pn]
  let ?base = "case gget (gmap_of (IpPools ch)) pn of Some ips \<Rightarrow> Some (elems ips) | None \<Rightarrow> free_of (Status conn) cn pn"
  from l fa obtain base where base: "?base = Some base" by (cases ?base) simp_all
  have "distinct base \<and> (\<forall>ip \<in> set base. in_pool (Spec conn) cn pn ip)"
  proof (cases "gget (gmap_of (IpPools ch)) pn")
    case None
    with base inv show ?thesis by (simp add: free_inv_def)
  next
    case (Some ips)
    then have "(pn, ips) \<in> set (gmap_of (IpPools ch))" by (simp add: gget_def map_of_SomeD)
    with Some base pools_apartD(1) [OF apart ch_in this] ch_in show ?thesis by (auto simp: in_pool_def)
  qed
  moreover have "l = filter (\<lambda>ip. ip \<notin> fst ` set (gmap_of (PendingIPs (Status conn'))) \<and> ip \<notin> used_ips conn ps) base"
    using l fa base by simp
  ultimately show ?thesis by simp
qed

lemma used_in_use: "set (in_use s) = used_ips (al_Conn s) (al_Pods s)"
  by (simp add: in_use_def used_ips_def)

lemma alloc_inv_refresh:
  assumes inv: "alloc_inv s" and r: "ListPods a = Ok (al_Pods s)"
    "updateIPSecConnectionStatus env a (al_Now s) (al_Conn s) = (conn', rq, err)"
    and s': "s' = s\<lparr>al_Conn := conn'\<rparr>"
  shows "alloc_inv s'"
proof -
  let ?conn = "al_Conn s"
  note i = inv [unfolded alloc_inv_def]
  have sp: "Spec conn' = Spec ?conn" by (rule status_step(3) [OF r])
  have live: "live_ips s' = live_ips s" by (rule live_keeps) (simp_all add: s' sp)
  have gok: "gok (gmap_of (FreeIPs (Status ?conn)))" "gok (gmap_of (PendingIPs (Status ?conn)))"
    using i by (simp_all add: free_inv_def)
  have pend: "gget (gmap_of (PendingIPs (Status conn'))) (ad_IP b) = Some ts \<and> parse_layout ts = Some t \<and> deadline t = ad_Until b"
    if b: "b \<in> set (al_Admitted s)" "al_Now s \<le> ad_Until b"
      and ts: "gget (gmap_of (PendingIPs (Status ?conn))) (ad_IP b) = Some ts" "parse_layout ts = Some t" "deadline t = ad_Until b" for b ts t
  proof -
    have "ad_IP b \<in> set (promised s)" using b by (auto simp: promised_def)
    then have "ad_IP b \<notin> used_ips ?conn (al_Pods s)" using i by (auto simp: live_ips_def used_in_use [symmetric])
    moreover have "al_Now s \<le> t + 35 * second_ns"
      using b(2) ts(3) by (simp add: deadline_def ReconcilerPendingIPsTimeoutSeconds_def)
    ultimately show ?thesis using ts by (simp add: pending_ips [OF r gok(2)])
  qed
  have pending: "pending_inv s'"
    using i pend unfolding pending_inv_def s' by simp blast
  have free: "set l \<inter> set (live_ips s) = {}" if l: "free_of (Status conn') cn pn = Some l" for cn pn l
  proof -
    have "ip \<in> fst ` set (gmap_of (PendingIPs (Status conn')))" if "ip \<in> set (promised s)" for ip
    proof -
      from that obtain b where b: "b \<in> set (al_Admitted s)" "al_Now s \<le> ad_Until b" "ad_IP b = ip"
        by (auto simp: promised_def)
      with i obtain ts t where "gget (gmap_of (PendingIPs (Status ?conn))) (ad_IP b) = Some ts"
        "parse_layout ts = Some t" "deadline t = ad_Until b" unfolding pending_inv_def by blast
      with pend [OF b(1,2) this] b(3) have "gget (gmap_of (PendingIPs (Status conn'))) ip = Some ts" by simp
      then have "(ip, ts) \<in> set (gmap_of (PendingIPs (Status conn')))" by (simp add: gget_def map_of_SomeD)
      then show ?thesis by force
    qed
    then have sub: "set (promised s) \<subseteq> fst ` set (gmap_of (PendingIPs (Status conn')))" by (rule subsetI)
    have out: "\<forall>ip \<in> set l. ip \<notin> fst ` set (gmap_of (PendingIPs (Status conn'))) \<and> ip \<notin> used_ips ?conn (al_Pods s)"
      using refresh_free [OF _ _ r l] i by simp
    show ?thesis
    proof (rule ccontr)
      assume "set l \<inter> set (live_ips s) \<noteq> {}"
      then obtain ip where "ip \<in> set l" "ip \<in> set (promised s) \<or> ip \<in> used_ips ?conn (al_Pods s)"
        by (auto simp: live_ips_def used_in_use)
      with bspec [OF out, of ip] subsetD [OF sub, of ip] show False by simp
    qed
  qed
  have "distinct l \<and> (\<forall>ip \<in> set l. in_pool (Spec conn') cn pn ip)" if "free_of (Status conn') cn pn = Some l" for cn pn l
    using refresh_free [OF _ _ r that] i unfolding sp by blast
  then have "free_inv conn'"
    using refresh_gok [OF r gok] unfolding free_inv_def by blast
  with i free pending live show ?thesis
    unfolding alloc_inv_def by (simp add: s' sp)
qed

section \<open>Reachable states\<close>

lemma alloc_inv_init: "alloc_init s \<Longrightarrow> alloc_inv s"
  by (auto simp: alloc_init_def alloc_inv_def free_inv_def pending_inv_def free_of_def live_ips_def promised_def
      in_use_def)

lemma alloc_inv_step: "alloc_step env s s' \<Longrightarrow> alloc_inv s \<Longrightarrow> alloc_inv s'"
proof (induction rule: alloc_step.induct)
  case (admit clk s cn pn c ip gw conn')
  from alloc_inv_admit [OF admit.prems admit.hyps(1,3) refl] show ?case .
next
  case (appear a s p)
  have child: "child_of p \<in> set (gkeys (Children (Spec (al_Conn s))))"
    using appear unfolding alloc_inv_def by simp
  let ?s' = "s\<lparr>al_Pods := p # al_Pods s, al_Admitted := remove1 a (al_Admitted s)\<rparr>"
  have "mset (promised s) = add_mset (ad_IP a) (mset (promised ?s'))"
    using mset_remove1_admitted [OF appear.hyps(1), of "\<lambda>a. al_Now s \<le> ad_Until a"] appear.hyps(2)
    by (simp add: promised_def)
  moreover have "in_use ?s' = ad_IP a # in_use s"
    using child appear.hyps(3) by (simp add: in_use_def pods_with_annotation_def)
  ultimately have "mset (live_ips ?s') = mset (live_ips s)" by (simp add: live_ips_def)
  then show ?case
    by (intro alloc_inv_fewer [OF appear.prems]) (simp_all add: set_remove1_subset)
next
  case (refuse s a)
  have "mset (promised (s\<lparr>al_Admitted := remove1 a (al_Admitted s)\<rparr>)) \<subseteq># mset (promised s)"
    using filter_remove1_subset [of ad_IP "\<lambda>b. al_Now s \<le> ad_Until b" a "al_Admitted s"] by (simp add: promised_def)
  then show ?case
    by (intro alloc_inv_fewer [OF refuse.prems]) (simp_all add: live_ips_def in_use_def set_remove1_subset)
next
  case (foreign p s)
  have "live_ips (s\<lparr>al_Pods := p # al_Pods s\<rparr>) = live_ips s"
    using foreign.hyps by (simp add: live_ips_def promised_def in_use_def pods_with_annotation_def)
  then show ?case by (intro alloc_inv_fewer [OF foreign.prems]) simp_all
next
  case (gone s p)
  have "mset (in_use (s\<lparr>al_Pods := remove1 p (al_Pods s)\<rparr>)) \<subseteq># mset (in_use s)"
    using filter_remove1_subset [of vxlan_of "\<lambda>q. child_of q \<in> set (gkeys (Children (Spec (al_Conn s))))" p "al_Pods s"]
    by (simp add: in_use_def pods_with_annotation_def)
  then show ?case
    by (intro alloc_inv_fewer [OF gone.prems]) (auto simp: live_ips_def promised_def)
next
  case (tick d s)
  have "mset (promised (s\<lparr>al_Now := al_Now s + d\<rparr>)) \<subseteq># mset (promised s)"
    using tick.hyps unfolding promised_def by (simp del: mset_map mset_filter) (rule filter_weaken_subset, simp)
  then show ?case
    using tick.hyps by (intro alloc_inv_fewer [OF tick.prems]) (auto simp: live_ips_def in_use_def)
next
  case (refresh a s conn' rq)
  from alloc_inv_refresh [OF refresh.prems refresh.hyps refl] show ?case .
next
  case (other_status conn' s)
  have "live_ips (s\<lparr>al_Conn := conn'\<rparr>) = live_ips s" by (rule live_keeps) (simp_all add: other_status.hyps)
  with other_status show ?case
    by (simp add: alloc_inv_def free_inv_def pending_inv_def free_of_def)
qed

lemma alloc_inv_reachable: "(alloc_step env)\<^sup>*\<^sup>* s s' \<Longrightarrow> alloc_inv s \<Longrightarrow> alloc_inv s'"
  by (induction rule: rtranclp_induct) (auto intro: alloc_inv_step)

section \<open>A run\<close>

text \<open>Two children with one address each; after a status update a pod of each child is admitted.\<close>

definition two_pools :: "string \<Rightarrow> string \<Rightarrow> ipsec_conn" where
  "two_pools x y = two_children\<lparr>
     Spec := (Spec two_children)\<lparr>Children := [(''a'', zero_child\<lparr>c_Name := ''a'', IpPools := Some [(''p'', Some [x])]\<rparr>),
       (''b'', zero_child\<lparr>c_Name := ''b'', XfrmIfId := 1, IpPools := Some [(''p'', Some [y])]\<rparr>)]\<rparr>,
     Status := zero_status\<lparr>XfrmGatewayIPs := Some [(''a'', ''10.9.0.1''), (''b'', ''10.9.0.2'')]\<rparr>\<rparr>"

definition alloc_start :: "string \<Rightarrow> string \<Rightarrow> alloc_state" where
  "alloc_start x y = \<lparr>al_Conn = two_pools x y, al_Pods = [], al_Admitted = [], al_Now = instant noon\<rparr>"

lemma two_pools_refresh:
  "updateIPSecConnectionStatus sample_envs quiet_api now (two_pools x y)
     = ((two_pools x y)\<lparr>Status := (Status (two_pools x y))\<lparr>FreeIPs := Some [(''a'', [(''p'', [x])]), (''b'', [(''p'', [y])])]\<rparr>\<rparr>, None, None)"
  by (simp add: updateIPSecConnectionStatus_def quiet_api_def two_pools_def zero_status_def Let_def fill_child_def
      remove_taken_def gput_def gdelete_func_def pods_with_annotation_def requeue_in_def)

lemma allocate_I:
  assumes "find (\<lambda>c. c_Name c = cn) (gvals (Children (Spec conn))) = Some c"
    and "free_of (Status conn) (c_Name c) pn = Some (ip # rest)"
    and "gget (gmap_of (XfrmGatewayIPs (Status conn))) (c_Name c) = Some gw" "gw \<noteq> []"
  shows "allocate ts cn pn conn = Ok (c, ip, gw, take_ip (c_Name c) pn rest ip ts conn)"
  using assms by (simp add: allocate_def)

lemma two_pools_run: "\<exists>s. (alloc_step sample_envs)\<^sup>*\<^sup>* (alloc_start x y) s \<and> live_ips s = [y, x]"
proof -
  let ?s0 = "alloc_start x y" and ?ts = "format_layout noon"
  let ?c1 = "(two_pools x y)\<lparr>Status := (Status (two_pools x y))\<lparr>FreeIPs := Some [(''a'', [(''p'', [x])]), (''b'', [(''p'', [y])])]\<rparr>\<rparr>"
  let ?c2 = "take_ip ''a'' ''p'' [] x ?ts ?c1" and ?c3 = "take_ip ''b'' ''p'' [] y ?ts (take_ip ''a'' ''p'' [] x ?ts ?c1)"
  let ?until = "deadline (instant (noon\<lparr>wc_nano := 0\<rparr>))"
  let ?ax = "\<lparr>ad_IP = x, ad_Child = ''a'', ad_Until = ?until\<rparr>" and ?ay = "\<lparr>ad_IP = y, ad_Child = ''b'', ad_Until = ?until\<rparr>"
  have lp: "ListPods quiet_api = Ok []" by (simp add: quiet_api_def)
  have 1: "alloc_step sample_envs ?s0 (?s0\<lparr>al_Conn := ?c1\<rparr>)"
    by (rule alloc_step.refresh [of quiet_api]) (simp_all add: alloc_start_def two_pools_refresh lp)
  obtain ca ga where "allocate ?ts ''a'' ''p'' ?c1 = Ok (ca, x, ga, ?c2)"
    using allocate_I [of "''a''" ?c1 "zero_child\<lparr>c_Name := ''a'', IpPools := Some [(''p'', Some [x])]\<rparr>" "''p''" x "[]" "''10.9.0.1''" ?ts]
    by (simp add: two_pools_def free_of_def)
  then have 2: "alloc_step sample_envs (?s0\<lparr>al_Conn := ?c1\<rparr>) (?s0\<lparr>al_Conn := ?c2, al_Admitted := [?ax]\<rparr>)"
    using alloc_step.admit [OF noon_ok, of "?s0\<lparr>al_Conn := ?c1\<rparr>" "''a''" "''p''" ca x ga ?c2 sample_envs]
    by (simp add: alloc_start_def)
  obtain cb gb where "allocate ?ts ''b'' ''p'' ?c2 = Ok (cb, y, gb, ?c3)"
    using allocate_I [of "''b''" ?c2 "zero_child\<lparr>c_Name := ''b'', XfrmIfId := 1, IpPools := Some [(''p'', Some [y])]\<rparr>" "''p''" y "[]" "''10.9.0.2''" ?ts]
    by (simp add: free_of_take_ip) (simp add: two_pools_def free_of_def)
  then have 3: "alloc_step sample_envs (?s0\<lparr>al_Conn := ?c2, al_Admitted := [?ax]\<rparr>) (?s0\<lparr>al_Conn := ?c3, al_Admitted := [?ay, ?ax]\<rparr>)"
    using alloc_step.admit [OF noon_ok, of "?s0\<lparr>al_Conn := ?c2, al_Admitted := [?ax]\<rparr>" "''b''" "''p''" cb y gb ?c3 sample_envs]
    by (simp add: alloc_start_def)
  have "instant noon \<le> ?until"
    by (simp add: deadline_def instant_def instant_of_def noon_def second_ns_def ReconcilerPendingIPsTimeoutSeconds_def)
  then have "live_ips (?s0\<lparr>al_Conn := ?c3, al_Admitted := [?ay, ?ax]\<rparr>) = [y, x]"
    by (simp add: live_ips_def promised_def in_use_def alloc_start_def pods_with_annotation_def)
  with 1 2 3 show ?thesis by (meson rtranclp.rtrancl_into_rtrancl rtranclp.rtrancl_refl)
qed

section \<open>Properties\<close>

text \<open>
  C1. No address is handed out twice: in every state that the webhook, the controller, the pods and
  the clock can reach from a connection without allocations, the addresses of the pods that may
  still appear and of the pods that exist are all different, and none of them is free in any
  pool. It takes pools that share no address, not even across children.
\<close>

theorem no_address_twice:
  assumes "alloc_init s" and "(alloc_step env)\<^sup>*\<^sup>* s s'"
  shows "distinct (live_ips s') \<and> (\<forall>cn pn l. free_of (Status (al_Conn s')) cn pn = Some l \<longrightarrow> set l \<inter> set (live_ips s') = {})"
proof -
  have "alloc_inv s'" by (rule alloc_inv_reachable [OF assms(2) alloc_inv_init [OF assms(1)]])
  then show ?thesis unfolding alloc_inv_def by blast
qed

theorem no_address_twice_witness:
  "\<exists>s. (alloc_step sample_envs)\<^sup>*\<^sup>* (alloc_start ''10.0.0.1/24'' ''10.0.1.1/24'') s
     \<and> live_ips s = [''10.0.1.1/24'', ''10.0.0.1/24''] \<and> distinct (live_ips s)"
proof -
  have init: "alloc_init (alloc_start ''10.0.0.1/24'' ''10.0.1.1/24'')"
    by (simp add: alloc_init_def alloc_start_def two_pools_def zero_status_def pools_apart_def spec_ok_def child_ok_def
        gok_def zero_child_def two_children_def pods_with_annotation_def)
  obtain s where s: "(alloc_step sample_envs)\<^sup>*\<^sup>* (alloc_start ''10.0.0.1/24'' ''10.0.1.1/24'') s"
    "live_ips s = [''10.0.1.1/24'', ''10.0.0.1/24'']" using two_pools_run by blast
  from no_address_twice [OF init s(1)] s show ?thesis by blast
qed

text \<open>
  C3. The webhook for connections does not ensure that: whatever the address, a connection in which
  two children have it in their pools passes \<open>validateIPSecConnectionUnique\<close>, and a status update
  and two admissions later two pods have been given that same address.
\<close>

theorem shared_address_given_twice:
  "\<exists>s s'. validateIPSecConnectionUnique (al_Conn s) = Ok () \<and> al_Admitted s = [] \<and> al_Pods s = []
     \<and> (alloc_step sample_envs)\<^sup>*\<^sup>* s s' \<and> live_ips s' = [ip, ip]"
proof -
  obtain s where s: "(alloc_step sample_envs)\<^sup>*\<^sup>* (alloc_start ip ip) s" "live_ips s = [ip, ip]"
    using two_pools_run by blast
  have "validateIPSecConnectionUnique (al_Conn (alloc_start ip ip)) = Ok ()"
    by (simp add: unique_iff alloc_start_def two_pools_def named_ips_def pool_ips_def zero_child_def)
  with s show ?thesis
    by (intro exI [of _ "alloc_start ip ip"] exI [of _ s]) (simp add: alloc_start_def)
qed

end
