(* ===== verification/Swan.thy ===== *)
theory Swan
  imports Prelude
begin

text \<open>
  The output of \<open>swanctl --raw\<close> as \<open>pkg/swanparse/parse.go\<close> represents it, the visitor of
  \<open>pkg/swanparse/visitor.go\<close> that collects connections and children, the visitor of
  \<open>cmd/restctl/visitor.go\<close> that finds what is configured but not established, and \<open>checkStatus\<close>
  of \<open>cmd/restctl/main.go\<close>. The parser is generated by the library \<open>participle\<close> from the tags of
  the types; \<open>Swan_Syntax\<close> states the grammar. Of the two alternatives of an entity exactly one is set.
\<close>

section \<open>Syntax trees\<close>

datatype swan_value = VSingle string | VArray "swan_value list"

datatype entity = EOption string swan_value | EBlock string "entity list"

record swan_conn =
  sc_Name :: string
  sc_Body :: "entity list"

record swan_entry =
  se_Command :: string
  se_Name :: string
  se_Conn :: "swan_conn list"

type_synonym swan_ast = "swan_entry list"

definition ast_conns :: "swan_ast \<Rightarrow> swan_conn list" where
  "ast_conns ast = concat (map se_Conn ast)"

section \<open>The collector of connections and children\<close>

type_synonym children_map = "(string, (string, bool) gomap) gomap"

definition note_child :: "string \<Rightarrow> string \<Rightarrow> children_map \<Rightarrow> children_map" where
  "note_child conn childName m =
     gput conn (gput childName True (case gget m conn of None \<Rightarrow> [] | Some cs \<Rightarrow> cs)) m"

text \<open>The first option \<open>name\<close> of a child SA that has a single value.\<close>

fun child_name_of :: "entity list \<Rightarrow> string option" where
  "child_name_of [] = None"
| "child_name_of (EOption k (VSingle v) # es) = (if k = ''name'' then Some v else child_name_of es)"
| "child_name_of (_ # es) = child_name_of es"

fun note_sa :: "string \<Rightarrow> children_map \<Rightarrow> entity \<Rightarrow> children_map" where
  "note_sa conn m (EBlock _ body) =
     (case child_name_of body of Some n \<Rightarrow> note_child conn n m | None \<Rightarrow> m)"
| "note_sa conn m (EOption _ _) = m"

fun note_listed :: "string \<Rightarrow> children_map \<Rightarrow> entity \<Rightarrow> children_map" where
  "note_listed conn m (EBlock n _) = note_child conn n m"
| "note_listed conn m (EOption _ _) = m"

definition collect_here :: "string \<Rightarrow> string \<Rightarrow> entity list \<Rightarrow> children_map \<Rightarrow> children_map" where
  "collect_here conn name body m =
     (if name = ''child-sas'' then foldl (note_sa conn) m body
      else if name = ''children'' then foldl (note_listed conn) m body
      else m)"

fun collect_entity :: "string \<Rightarrow> entity \<Rightarrow> children_map \<Rightarrow> children_map"
  and collect_entities :: "string \<Rightarrow> entity list \<Rightarrow> children_map \<Rightarrow> children_map"
where
  "collect_entity conn (EOption _ _) m = m"
| "collect_entity conn (EBlock name body) m = collect_entities conn body (collect_here conn name body m)"
| "collect_entities conn [] m = m"
| "collect_entities conn (e # es) m = collect_entities conn es (collect_entity conn e m)"

definition collect_conn :: "children_map \<Rightarrow> swan_conn \<Rightarrow> children_map" where
  "collect_conn m c =
     (let m = (if ghas m (sc_Name c) then m else gput (sc_Name c) [] m)
      in collect_entities (sc_Name c) (sc_Body c) m)"

definition collect_ast :: "swan_ast \<Rightarrow> children_map" where
  "collect_ast ast = foldl collect_conn [] (ast_conns ast)"

section \<open>The visitor that finds what is missing\<close>

record missing =
  MissingConns :: "(string, bool) gomap"
  MissingChildren :: "(string, string list) gomap"

fun note_missing :: "children_map \<Rightarrow> string \<Rightarrow> missing \<Rightarrow> entity \<Rightarrow> missing" where
  "note_missing sas conn st (EBlock childName _) =
     (let exists = (case gget sas conn of None \<Rightarrow> False | Some cs \<Rightarrow> gget cs childName = Some True)
      in if exists then st
         else st\<lparr>MissingChildren := gput conn ((case gget (MissingChildren st) conn of
             None \<Rightarrow> [] | Some l \<Rightarrow> l) @ [childName]) (MissingChildren st)\<rparr>)"
| "note_missing sas conn st (EOption _ _) = st"

definition missing_here :: "children_map \<Rightarrow> string \<Rightarrow> string \<Rightarrow> entity list \<Rightarrow> missing \<Rightarrow> missing" where
  "missing_here sas conn name body st =
     (if name = ''children'' then foldl (note_missing sas conn) st body else st)"

fun missing_entity :: "children_map \<Rightarrow> string \<Rightarrow> entity \<Rightarrow> missing \<Rightarrow> missing"
  and missing_entities :: "children_map \<Rightarrow> string \<Rightarrow> entity list \<Rightarrow> missing \<Rightarrow> missing"
where
  "missing_entity sas conn (EOption _ _) st = st"
| "missing_entity sas conn (EBlock name body) st =
     missing_entities sas conn body (missing_here sas conn name body st)"
| "missing_entities sas conn [] st = st"
| "missing_entities sas conn (e # es) st = missing_entities sas conn es (missing_entity sas conn e st)"

definition missing_conn :: "children_map \<Rightarrow> missing \<Rightarrow> swan_conn \<Rightarrow> missing" where
  "missing_conn sas st c =
     (let st = (if ghas sas (sc_Name c) then st
                else st\<lparr>MissingConns := gput (sc_Name c) True (MissingConns st)\<rparr>)
      in missing_entities sas (sc_Name c) (sc_Body c) st)"

definition find_missing :: "swan_ast \<Rightarrow> swan_ast \<Rightarrow> missing" where
  "find_missing conns sas =
     foldl (missing_conn (collect_ast sas)) \<lparr>MissingConns = [], MissingChildren = []\<rparr> (ast_conns conns)"

section \<open>checkStatus\<close>

record failure_info =
  fi_Connection :: string
  fi_Child :: string

definition checkStatus :: "swan_ast \<Rightarrow> swan_ast \<Rightarrow> failure_info list" where
  "checkStatus conns sas =
     (let v = find_missing conns sas;
          missingConns = gkeys (MissingConns v);
          children = gdelete_func (\<lambda>k _. list_contains missingConns k) (MissingChildren v)
      in if length (MissingConns v) > 0 \<or> length (MissingChildren v) > 0
         then concat (map (\<lambda>(k, cs). map (\<lambda>c. \<lparr>fi_Connection = k, fi_Child = c\<rparr>) cs) children)
           @ map (\<lambda>c. \<lparr>fi_Connection = c, fi_Child = []\<rparr>) missingConns
         else [])"

section \<open>What the visitors find\<close>

text \<open>The blocks at any depth.\<close>

fun inner_blocks :: "entity \<Rightarrow> (string \<times> entity list) list" where
  "inner_blocks (EOption _ _) = []"
| "inner_blocks (EBlock name body) = (name, body) # concat (map inner_blocks body)"

definition blocks_of :: "entity list \<Rightarrow> (string \<times> entity list) set" where
  "blocks_of body = (\<Union>e \<in> set body. set (inner_blocks e))"

fun sa_names :: "string \<times> entity list \<Rightarrow> string set" where
  "sa_names (name, body) =
     (if name = ''child-sas'' then {n. \<exists>k b. EBlock k b \<in> set body \<and> child_name_of b = Some n}
      else if name = ''children'' then {n. \<exists>b. EBlock n b \<in> set body} else {})"

fun listed_names :: "string \<times> entity list \<Rightarrow> string set" where
  "listed_names (name, body) = (if name = ''children'' then {n. \<exists>b. EBlock n b \<in> set body} else {})"

definition sa_children :: "swan_ast \<Rightarrow> string \<Rightarrow> string set" where
  "sa_children ast conn = (\<Union>c \<in> {c \<in> set (ast_conns ast). sc_Name c = conn}. \<Union>b \<in> blocks_of (sc_Body c). sa_names b)"

definition listed_children :: "swan_ast \<Rightarrow> string \<Rightarrow> string set" where
  "listed_children ast conn =
     (\<Union>c \<in> {c \<in> set (ast_conns ast). sc_Name c = conn}. \<Union>b \<in> blocks_of (sc_Body c). listed_names b)"

lemma blocks_of_simps [simp]:
  "blocks_of [] = {}" "blocks_of (e # es) = set (inner_blocks e) \<union> blocks_of es"
  by (auto simp: blocks_of_def)

lemma inner_blocks_block [simp]: "set (inner_blocks (EBlock name body)) = insert (name, body) (blocks_of body)"
  by (auto simp: blocks_of_def)

declare inner_blocks.simps(2) [simp del]

text \<open>The children recorded for a connection, and those for all.\<close>

definition recorded :: "children_map \<Rightarrow> (string \<times> string) set" where
  "recorded m = {(conn, n). \<exists>cs. gget m conn = Some cs \<and> gget cs n = Some True}"

lemma recorded_note [simp]: "recorded (note_child conn n m) = insert (conn, n) (recorded m)"
  by (auto simp: recorded_def note_child_def gget_put split: option.splits if_splits)

lemma keys_note [simp]: "ghas (note_child conn n m) k \<longleftrightarrow> k = conn \<or> ghas m k"
  by (simp add: note_child_def ghas_def gget_put)

lemma recorded_sa: "recorded (foldl (note_sa conn) m body)
    = recorded m \<union> {conn} \<times> {n. \<exists>k b. EBlock k b \<in> set body \<and> child_name_of b = Some n}"
proof (induction body arbitrary: m)
  case (Cons e es)
  show ?case by (cases e) (auto simp: Cons.IH split: option.splits)
qed simp

lemma recorded_listed: "recorded (foldl (note_listed conn) m body)
    = recorded m \<union> {conn} \<times> {n. \<exists>b. EBlock n b \<in> set body}"
proof (induction body arbitrary: m)
  case (Cons e es)
  show ?case by (cases e) (auto simp: Cons.IH)
qed simp

lemma recorded_here: "recorded (collect_here conn name body m) = recorded m \<union> {conn} \<times> sa_names (name, body)"
  by (simp add: collect_here_def recorded_sa recorded_listed)

lemma recorded_collect:
  "recorded (collect_entity conn e m) = recorded m \<union> {conn} \<times> (\<Union>b \<in> set (inner_blocks e). sa_names b)"
  "recorded (collect_entities conn es m) = recorded m \<union> {conn} \<times> (\<Union>b \<in> blocks_of es. sa_names b)"
  by (induction conn e m and conn es m rule: collect_entity_collect_entities.induct)
    (simp_all add: recorded_here Un_assoc Sigma_Un_distrib2 del: sa_names.simps)

lemma keys_fold:
  "ghas m conn \<Longrightarrow> ghas (foldl (note_sa conn) m body) k = ghas m k"
  "ghas m conn \<Longrightarrow> ghas (foldl (note_listed conn) m body) k = ghas m k"
proof -
  have step: "ghas (note_sa conn m e) k' = ghas m k'" "ghas (note_listed conn m e) k' = ghas m k'"
    if "ghas m conn" for m e k'
    using that by (cases e; auto split: option.splits)+
  show "ghas m conn \<Longrightarrow> ghas (foldl (note_sa conn) m body) k = ghas m k"
    by (induction body arbitrary: m) (simp_all add: step)
  show "ghas m conn \<Longrightarrow> ghas (foldl (note_listed conn) m body) k = ghas m k"
    by (induction body arbitrary: m) (simp_all add: step)
qed

lemma keys_collect:
  "ghas m conn \<Longrightarrow> ghas (collect_entity conn e m) k = ghas m k"
  "ghas m conn \<Longrightarrow> ghas (collect_entities conn es m) k = ghas m k"
  by (induction conn e m and conn es m arbitrary: k and k rule: collect_entity_collect_entities.induct)
    (auto simp: collect_here_def keys_fold)

lemma collect_conn_step:
  "ghas (collect_conn m c) k \<longleftrightarrow> k = sc_Name c \<or> ghas m k"
  "recorded (collect_conn m c) = recorded m \<union> {sc_Name c} \<times> (\<Union>b \<in> blocks_of (sc_Body c). sa_names b)"
proof -
  have r: "recorded (gput (sc_Name c) [] m) = recorded m" if "\<not> ghas m (sc_Name c)"
    using that by (auto simp: recorded_def gget_put ghas_def split: if_splits)
  have h: "ghas (gput (sc_Name c) [] m) k' \<longleftrightarrow> k' = sc_Name c \<or> ghas m k'" for k'
    by (simp add: ghas_def gget_put)
  show "ghas (collect_conn m c) k \<longleftrightarrow> k = sc_Name c \<or> ghas m k"
    by (auto simp: collect_conn_def Let_def keys_collect h)
  show "recorded (collect_conn m c) = recorded m \<union> {sc_Name c} \<times> (\<Union>b \<in> blocks_of (sc_Body c). sa_names b)"
    by (simp add: collect_conn_def Let_def recorded_collect r)
qed

lemma collect_ast_found:
  "ghas (collect_ast ast) k \<longleftrightarrow> k \<in> sc_Name ` set (ast_conns ast)"
  "(k, n) \<in> recorded (collect_ast ast) \<longleftrightarrow> n \<in> sa_children ast k"
proof -
  have "ghas (foldl collect_conn m cs) k \<longleftrightarrow> k \<in> sc_Name ` set cs \<or> ghas m k" for m cs
    by (induction cs arbitrary: m) (auto simp: collect_conn_step)
  then show "ghas (collect_ast ast) k \<longleftrightarrow> k \<in> sc_Name ` set (ast_conns ast)"
    by (simp add: collect_ast_def ghas_def)
  have "(k, n) \<in> recorded (foldl collect_conn m cs) \<longleftrightarrow>
      (\<exists>c \<in> set cs. sc_Name c = k \<and> n \<in> (\<Union>b \<in> blocks_of (sc_Body c). sa_names b)) \<or> (k, n) \<in> recorded m" for m cs
    by (induction cs arbitrary: m) (auto simp: collect_conn_step)
  then show "(k, n) \<in> recorded (collect_ast ast) \<longleftrightarrow> n \<in> sa_children ast k"
    by (auto simp: collect_ast_def sa_children_def recorded_def)
qed

end
