(* ===== verification/Swan_Props.thy ===== *)
theory Swan_Props
  imports Swan
begin

text \<open>
  \<open>checkStatus\<close> against its specification: which connections and children are configured and not
  established.
\<close>

definition missed :: "missing \<Rightarrow> (string \<times> string) set" where
  "missed st = {(conn, c). \<exists>l. gget (MissingChildren st) conn = Some l \<and> c \<in> set l}"

definition missing_ok :: "missing \<Rightarrow> bool" where
  "missing_ok st \<longleftrightarrow> gok (MissingChildren st) \<and> gok (MissingConns st)"

lemma note_missing_step:
  "missed (note_missing sas conn st (EBlock n b)) = missed st \<union> ({(conn, n)} - recorded sas)"
  "MissingConns (note_missing sas conn st e) = MissingConns st"
  "missing_ok st \<Longrightarrow> missing_ok (note_missing sas conn st e)"
proof -
  show "missed (note_missing sas conn st (EBlock n b)) = missed st \<union> ({(conn, n)} - recorded sas)"
    by (auto simp: missed_def recorded_def Let_def gget_put split: option.splits if_splits)
  show "MissingConns (note_missing sas conn st e) = MissingConns st"
    by (cases e) (simp_all add: Let_def)
  show "missing_ok st \<Longrightarrow> missing_ok (note_missing sas conn st e)"
    by (cases e) (auto simp: missing_ok_def Let_def intro: gok_put)
qed

lemma note_missing_fold:
  "missed (foldl (note_missing sas conn) st body) = missed st \<union> ({conn} \<times> {n. \<exists>b. EBlock n b \<in> set body} - recorded sas)"
  "MissingConns (foldl (note_missing sas conn) st body) = MissingConns st"
  "missing_ok st \<Longrightarrow> missing_ok (foldl (note_missing sas conn) st body)"
proof (induction body arbitrary: st)
  case (Cons e es)
  { case 1 show ?case
    proof (cases e)
      case (EBlock n b)
      with Cons.IH(1) [of "note_missing sas conn st e"] show ?thesis by (auto simp: note_missing_step(1) simp del: note_missing.simps)
    next
      case (EOption k v)
      with Cons.IH(1) [of st] show ?thesis by auto
    qed }
  { case 2 show ?case by (simp add: Cons.IH(2) note_missing_step(2)) }
  { case 3 then show ?case by (simp add: Cons.IH(3) note_missing_step(3)) }
qed simp_all

lemma missing_here_step:
  "missed (missing_here sas conn name body st) = missed st \<union> ({conn} \<times> listed_names (name, body) - recorded sas)"
  "MissingConns (missing_here sas conn name body st) = MissingConns st"
  "missing_ok st \<Longrightarrow> missing_ok (missing_here sas conn name body st)"
  by (simp_all add: missing_here_def note_missing_fold)

lemma missing_entity_step:
  "missed (missing_entity sas conn e st) = missed st \<union> ({conn} \<times> (\<Union>b \<in> set (inner_blocks e). listed_names b) - recorded sas)"
  "missed (missing_entities sas conn es st) = missed st \<union> ({conn} \<times> (\<Union>b \<in> blocks_of es. listed_names b) - recorded sas)"
  by (induction sas conn e st and sas conn es st rule: missing_entity_missing_entities.induct)
    (simp_all add: missing_here_step Un_assoc Sigma_Un_distrib2 Un_Diff del: listed_names.simps)

lemma missing_entity_keeps:
  "MissingConns (missing_entity sas conn e st) = MissingConns st"
  "MissingConns (missing_entities sas conn es st) = MissingConns st"
  by (induction sas conn e st and sas conn es st rule: missing_entity_missing_entities.induct)
    (simp_all add: missing_here_step)

lemma missing_entity_ok:
  "missing_ok st \<Longrightarrow> missing_ok (missing_entity sas conn e st)"
  "missing_ok st \<Longrightarrow> missing_ok (missing_entities sas conn es st)"
  by (induction sas conn e st and sas conn es st rule: missing_entity_missing_entities.induct)
    (simp_all add: missing_here_step)

lemma missing_conn_step:
  "missed (missing_conn sas st c) = missed st \<union> ({sc_Name c} \<times> (\<Union>b \<in> blocks_of (sc_Body c). listed_names b) - recorded sas)"
  "ghas (MissingConns (missing_conn sas st c)) k \<longleftrightarrow> ghas (MissingConns st) k \<or> (k = sc_Name c \<and> \<not> ghas sas k)"
  "missing_ok st \<Longrightarrow> missing_ok (missing_conn sas st c)"
proof -
  have m: "missed (st\<lparr>MissingConns := x\<rparr>) = missed st" for x by (simp add: missed_def)
  show "missed (missing_conn sas st c) = missed st \<union> ({sc_Name c} \<times> (\<Union>b \<in> blocks_of (sc_Body c). listed_names b) - recorded sas)"
    by (simp add: missing_conn_def Let_def missing_entity_step m)
  show "ghas (MissingConns (missing_conn sas st c)) k \<longleftrightarrow> ghas (MissingConns st) k \<or> (k = sc_Name c \<and> \<not> ghas sas k)"
    by (auto simp: missing_conn_def Let_def missing_entity_keeps ghas_def gget_put)
  show "missing_ok st \<Longrightarrow> missing_ok (missing_conn sas st c)"
    by (auto simp: missing_conn_def Let_def missing_ok_def intro!: missing_entity_ok(2) [unfolded missing_ok_def, THEN conjunct1]
        missing_entity_ok(2) [unfolded missing_ok_def, THEN conjunct2] gok_put)
qed

lemma find_missing_found:
  "(k, n) \<in> missed (find_missing conns sas) \<longleftrightarrow> n \<in> listed_children conns k \<and> n \<notin> sa_children sas k"
  "ghas (MissingConns (find_missing conns sas)) k \<longleftrightarrow>
     k \<in> sc_Name ` set (ast_conns conns) \<and> k \<notin> sc_Name ` set (ast_conns sas)"
  "missing_ok (find_missing conns sas)"
proof -
  let ?m = "collect_ast sas"
  have "(k, n) \<in> missed (foldl (missing_conn ?m) st cs) \<longleftrightarrow> (k, n) \<in> missed st
      \<or> (\<exists>c \<in> set cs. sc_Name c = k \<and> n \<in> (\<Union>b \<in> blocks_of (sc_Body c). listed_names b)) \<and> (k, n) \<notin> recorded ?m" for st cs
    by (induction cs arbitrary: st) (auto simp: missing_conn_step(1) simp del: listed_names.simps)
  then show "(k, n) \<in> missed (find_missing conns sas) \<longleftrightarrow> n \<in> listed_children conns k \<and> n \<notin> sa_children sas k"
    by (auto simp: find_missing_def listed_children_def missed_def collect_ast_found simp del: listed_names.simps)
  have "ghas (MissingConns (foldl (missing_conn ?m) st cs)) k \<longleftrightarrow> ghas (MissingConns st) k
      \<or> (k \<in> sc_Name ` set cs \<and> \<not> ghas ?m k)" for st cs
    by (induction cs arbitrary: st) (auto simp: missing_conn_step(2))
  then show "ghas (MissingConns (find_missing conns sas)) k \<longleftrightarrow>
     k \<in> sc_Name ` set (ast_conns conns) \<and> k \<notin> sc_Name ` set (ast_conns sas)"
    by (simp add: find_missing_def collect_ast_found) (simp add: ghas_def)
  have "missing_ok st \<Longrightarrow> missing_ok (foldl (missing_conn ?m) st cs)" for st cs
    by (induction cs arbitrary: st) (simp_all add: missing_conn_step(3))
  then show "missing_ok (find_missing conns sas)" by (simp add: find_missing_def missing_ok_def)
qed

lemma checkStatus_set:
  "set (checkStatus conns sas) =
     {\<lparr>fi_Connection = k, fi_Child = c\<rparr> | k c. k \<in> sc_Name ` set (ast_conns sas) \<and> c \<in> listed_children conns k \<and> c \<notin> sa_children sas k}
     \<union> {\<lparr>fi_Connection = k, fi_Child = []\<rparr> | k. k \<in> sc_Name ` set (ast_conns conns) \<and> k \<notin> sc_Name ` set (ast_conns sas)}"
proof -
  let ?v = "find_missing conns sas"
  let ?kept = "gdelete_func (\<lambda>k _. list_contains (gkeys (MissingConns ?v)) k) (MissingChildren ?v)"
  note f = find_missing_found(1,2)
  have ok: "gok (MissingChildren ?v)" using find_missing_found(3) [of conns sas] by (simp add: missing_ok_def)
  have in_sas: "k \<in> sc_Name ` set (ast_conns conns)" if "c \<in> listed_children conns k" for k c
    using that by (auto simp: listed_children_def)
  have kept: "(\<exists>l. (k, l) \<in> set ?kept \<and> c \<in> set l) \<longleftrightarrow>
      k \<in> sc_Name ` set (ast_conns sas) \<and> c \<in> listed_children conns k \<and> c \<notin> sa_children sas k" for k c
  proof -
    have "(\<exists>l. (k, l) \<in> set ?kept \<and> c \<in> set l) \<longleftrightarrow> (\<exists>l. gget ?kept k = Some l \<and> c \<in> set l)"
      using gget_Some_iff [OF gok_delete_func [OF ok]] by blast
    also have "\<dots> \<longleftrightarrow> (k, c) \<in> missed ?v \<and> \<not> ghas (MissingConns ?v) k"
      by (auto simp: gget_delete_func [OF ok] missed_def ghas_iff split: option.splits)
    also have "\<dots> \<longleftrightarrow> k \<in> sc_Name ` set (ast_conns sas) \<and> c \<in> listed_children conns k \<and> c \<notin> sa_children sas k"
      using f(1) [of k c conns sas] f(2) [of conns sas k] in_sas [of c k] by blast
    finally show ?thesis .
  qed
  have all: "set (checkStatus conns sas) = {\<lparr>fi_Connection = k, fi_Child = c\<rparr> | k c. \<exists>l. (k, l) \<in> set ?kept \<and> c \<in> set l}
      \<union> {\<lparr>fi_Connection = k, fi_Child = []\<rparr> | k. ghas (MissingConns ?v) k}"
  proof (cases "length (MissingConns ?v) > 0 \<or> length (MissingChildren ?v) > 0")
    case True
    then show ?thesis by (auto simp: checkStatus_def Let_def ghas_iff image_iff) 
  next
    case False
    then show ?thesis by (simp add: checkStatus_def Let_def ghas_def gdelete_func_def)
  qed
  show ?thesis unfolding all kept f(2) ..
qed

text \<open>
  C31. \<open>checkStatus\<close> reports exactly what is configured and not established: a connection for which
  there is no security association at all (and then none of its children), and a child that is
  listed under an established connection and is not among that connection's child associations.
\<close>

theorem checkStatus_iff:
  "\<lparr>fi_Connection = k, fi_Child = c\<rparr> \<in> set (checkStatus conns sas) \<longleftrightarrow>
     (k \<in> sc_Name ` set (ast_conns sas) \<and> c \<in> listed_children conns k \<and> c \<notin> sa_children sas k)
     \<or> (c = [] \<and> k \<in> sc_Name ` set (ast_conns conns) \<and> k \<notin> sc_Name ` set (ast_conns sas))"
  by (simp add: checkStatus_set)

end
