(* ===== verification/Restctl.thy ===== *)
theory Restctl
  imports Server Swan_Props
begin

text \<open>
  The server in the restctl pod, \<open>cmd/restctl/main.go\<close>: the translation of a connection into the
  configuration of the IKE daemon, the handlers that load configurations and restart connections,
  and the loop that writes failures to the status. The VICI client, the \<open>swanctl\<close> program with the
  parser of its output, the file system and its watcher are outside the repository: parameters.
\<close>

section \<open>Durations\<close>

definition int64 :: "int \<Rightarrow> int" where
  "int64 x = sint (word_of_int x :: 64 word)"

definition getExtra :: "(string, string) gomap \<Rightarrow> string \<Rightarrow> string \<Rightarrow> string" where
  "getExtra e k d = (case gget e k of Some v \<Rightarrow> v | None \<Rightarrow> d)"

definition normalizeTime :: "string \<Rightarrow> (num_error, int) outcome" where
  "normalizeTime time =
     (if time = [] then Panic
      else if last time = CHR ''m'' then
        (case parse_int 64 (butlast time) of (n, None) \<Rightarrow> Ok (int64 (n * 60)) | (_, Some e) \<Rightarrow> Err e)
      else if last time = CHR ''h'' then
        (case parse_int 64 (butlast time) of (n, None) \<Rightarrow> Ok (int64 (int64 (n * 60) * 60)) | (_, Some e) \<Rightarrow> Err e)
      else (case parse_int 64 (trim_right (\<lambda>c. c = CHR ''s'') time) of (n, None) \<Rightarrow> Ok n | (_, Some e) \<Rightarrow> Err e))"

section \<open>The configuration of the daemon\<close>

record auth_config =
  au_ID :: string
  au_Auth :: string

record child_sa_config =
  LocalTS :: "string slice"
  RemoteTS :: "string slice"
  InInterfaceID :: int
  OutInterfaceID :: int
  cs_Mode :: string
  StartAction :: string
  EspProposals :: "string list"
  cs_RekeyTime :: string
  RandPackets :: string
  Updown :: string
  Hostaccess :: string
  Policies :: string
  SetMarkIn :: string
  SetMarkOut :: string
  DpdAction :: string
  cs_CloseAction :: string
  cs_Extra :: "(string, string) gomap"

record ike_config =
  LocalAddrs :: "string list"
  RemoteAddrs :: "string list"
  Version :: string
  LocalAuths :: auth_config
  RemoteAuths :: auth_config
  Proposals :: "string list"
  RekeyTime :: int
  ReauthTime :: int
  LocalPort :: string
  RemotePort :: string
  Pull :: string
  Dscp :: string
  Encap :: string
  Mobike :: string
  DpdDelay :: string
  DpdTimeout :: string
  Fragmentation :: string
  Childless :: string
  SendCertreq :: string
  SendCert :: string
  PpkId :: string
  PpkRequired :: string
  Keyingtries :: string
  Unique :: string
  OverTime :: string
  RandTime :: string
  Mediation :: string
  MediatedBy :: string
  MediationPeer :: string
  CloseAction :: string
  Pools :: "string list"
  ic_Children :: "(string, child_sa_config) gomap"

datatype translate_error = BadVersion num_error | BadRekeyTime num_error | BadReauthTime num_error

definition handled_child_keys :: "string list" where
  "handled_child_keys = [''mode'', ''start_action'', ''esp_proposals'', ''rekey_time'', ''rand_packets'',
     ''updown'', ''hostaccess'', ''policies'', ''set_mark_in'', ''set_mark_out'', ''dpd_action'', ''close_action'']"

definition translate_child :: "child \<Rightarrow> child_sa_config" where
  "translate_child v =
     (let e = gmap_of (c_Extra v)
      in \<lparr>LocalTS = LocalIPs v, RemoteTS = RemoteIPs v, InInterfaceID = XfrmIfId v, OutInterfaceID = XfrmIfId v,
          cs_Mode = getExtra e ''mode'' ''tunnel'',
          StartAction = gstr e ''start_action'',
          EspProposals = (case gget e ''esp_proposals'' of Some p \<Rightarrow> [p] | None \<Rightarrow> []),
          cs_RekeyTime = gstr e ''rekey_time'', RandPackets = gstr e ''rand_packets'', Updown = gstr e ''updown'',
          Hostaccess = gstr e ''hostaccess'', Policies = gstr e ''policies'', SetMarkIn = gstr e ''set_mark_in'',
          SetMarkOut = gstr e ''set_mark_out'', DpdAction = gstr e ''dpd_action'', cs_CloseAction = gstr e ''close_action'',
          cs_Extra = foldl (\<lambda>m (k, x). if list_contains handled_child_keys k then m else gput k x m) [] e\<rparr>)"

definition time_option :: "(num_error \<Rightarrow> translate_error) \<Rightarrow> (string, string) gomap \<Rightarrow> string \<Rightarrow> (translate_error, int) outcome" where
  "time_option err e k = (case gget e k of None \<Rightarrow> Ok 14400 | Some v \<Rightarrow> map_err err (normalizeTime v))"

definition translate :: "ipsec_spec \<Rightarrow> (translate_error, ike_config) outcome" where
  "translate ipsec =
     (let e = sp_Extra ipsec
      in (case parse_int 64 (getExtra e ''version'' ''2'') of
            (_, Some er) \<Rightarrow> Err (BadVersion er)
          | (version, None) \<Rightarrow>
              obind (time_option BadRekeyTime e ''rekey_time'') (\<lambda>rekey.
              obind (time_option BadReauthTime e ''reauth_time'') (\<lambda>reauth.
              Ok \<lparr>LocalAddrs = [LocalAddr ipsec], RemoteAddrs = [RemoteAddr ipsec], Version = show_int version,
                  LocalAuths = \<lparr>au_ID = LocalId ipsec, au_Auth = ''psk''\<rparr>,
                  RemoteAuths = \<lparr>au_ID = RemoteId ipsec, au_Auth = ''psk''\<rparr>,
                  Proposals = (if gstr e ''proposals'' \<noteq> [] then [gstr e ''proposals''] else [''aes256-sha256-ecp256'']),
                  RekeyTime = rekey, ReauthTime = reauth,
                  LocalPort = gstr e ''local_port'', RemotePort = gstr e ''remote_port'', Pull = gstr e ''pull'',
                  Dscp = gstr e ''dscp'', Encap = gstr e ''encap'', Mobike = gstr e ''mobike'',
                  DpdDelay = gstr e ''dpd_delay'', DpdTimeout = gstr e ''dpd_timeout'',
                  Fragmentation = gstr e ''fragmentation'', Childless = gstr e ''childless'',
                  SendCertreq = gstr e ''send_certreq'', SendCert = gstr e ''send_cert'', PpkId = gstr e ''ppk_id'',
                  PpkRequired = gstr e ''ppk_required'', Keyingtries = gstr e ''keyingtries'', Unique = gstr e ''unique'',
                  OverTime = gstr e ''over_time'', RandTime = gstr e ''rand_time'', Mediation = gstr e ''mediation'',
                  MediatedBy = gstr e ''mediated_by'', MediationPeer = gstr e ''mediation_peer'',
                  CloseAction = gstr e ''close_action'',
                  Pools = (if gstr e ''pools'' \<noteq> [] then split_on (CHR '','') (gstr e ''pools'') else []),
                  ic_Children = foldl (\<lambda>m (k, v). gput k (translate_child v) m) [] (Children ipsec)\<rparr>))))"

section \<open>Loading configurations\<close>

record shared_key =
  sk_Typ :: string
  sk_Data :: string
  sk_Owners :: "string list"

record 'w vici =
  vc_new :: "'w \<Rightarrow> bool \<times> 'w"
  vc_list :: "'w \<Rightarrow> (string list list \<times> bool) \<times> 'w"
  vc_unload :: "string \<Rightarrow> 'w \<Rightarrow> bool \<times> 'w"
  vc_load_shared :: "shared_key \<Rightarrow> 'w \<Rightarrow> bool \<times> 'w"
  vc_load_conns :: "(string, ike_config) gomap \<Rightarrow> 'w \<Rightarrow> bool \<times> 'w"

datatype reload_err = BadReloadJson | NilConfigs | BadConfig string translate_error | CouldntCheck

record reload_reply =
  FailedConns :: "string list"
  FailedSecrets :: "string list"
  Errs :: "reload_err list"

text \<open>The counter of the retry loop is never incremented.\<close>

partial_function (option) connect_vici :: "'w vici \<Rightarrow> 'w \<Rightarrow> 'w option" where
  "connect_vici vc w = (case vc_new vc w of (ok, w) \<Rightarrow> if ok then Some w else connect_vici vc w)"

definition wanted_names :: "conn_data list \<Rightarrow> string list" where
  "wanted_names configs = replicate (length configs * 2) []
     @ concat (map (\<lambda>c. [cn_Name (cd_IPSecConnection c), sp_Name (Spec (cd_IPSecConnection c))]) configs)"

text \<open>The innermost loop runs once per configuration, so no configuration means no unloading.\<close>

definition unload_conns :: "'w vici \<Rightarrow> conn_data list \<Rightarrow> string list list \<Rightarrow> 'w \<Rightarrow> 'w" where
  "unload_conns vc configs loaded w =
     foldl (\<lambda>w name. if list_contains (wanted_names configs) name then w
         else (((\<lambda>w. snd (vc_unload vc name w)) ^^ length configs) w)) w (concat loaded)"

record to_load =
  tl_Conns :: "(string, ike_config) gomap"
  tl_Secrets :: "(string, string \<times> string) gomap"
  tl_Errs :: "reload_err list"

definition add_config :: "to_load \<Rightarrow> conn_data \<Rightarrow> (unit, to_load) outcome" where
  "add_config st c =
     (let spec = Spec (cd_IPSecConnection c); name = sp_Name spec
      in (case translate spec of
            Ok cfg \<Rightarrow> Ok (st\<lparr>tl_Conns := gput name cfg (tl_Conns st),
              tl_Secrets := gput name (cd_Secret c, RemoteAddr spec) (tl_Secrets st)\<rparr>)
          | Err e \<Rightarrow> Ok (st\<lparr>tl_Errs := tl_Errs st @ [BadConfig name e]\<rparr>)
          | Panic \<Rightarrow> Panic))"

fun load_secrets :: "'w vici \<Rightarrow> (string \<times> string \<times> string) list \<Rightarrow> 'w \<Rightarrow> string list \<times> 'w" where
  "load_secrets vc [] w = ([], w)"
| "load_secrets vc ((k, secret, owner) # ss) w =
     (case vc_load_shared vc \<lparr>sk_Typ = ''IKE'', sk_Data = trim_space secret, sk_Owners = [owner]\<rparr> w of
        (ok, w) \<Rightarrow> (case load_secrets vc ss w of (failed, w) \<Rightarrow> ((if ok then failed else k # failed), w)))"

definition failed_conns ::
  "'w vici \<Rightarrow> (string, ike_config) gomap \<Rightarrow> bool \<Rightarrow> 'w \<Rightarrow> (string list \<times> reload_err list) \<times> 'w"
where
  "failed_conns vc conns loaded_ok w =
     (if loaded_ok then (([], []), w)
      else (case vc_list vc w of ((names, ok), w) \<Rightarrow>
        if \<not> ok then (([], [CouldntCheck]), w)
        else ((filter (\<lambda>n. \<not> list_contains (concat names) n) (gkeys conns), []), w)))"

definition reload_data :: "'w vici \<Rightarrow> conn_data list \<Rightarrow> 'w \<Rightarrow> (unit, int \<times> reload_reply) outcome \<times> 'w" where
  "reload_data vc configs w =
     (case vc_list vc w of ((loaded, _), w) \<Rightarrow>
        let w = unload_conns vc configs loaded w
        in (case foldl_outcome add_config \<lparr>tl_Conns = [], tl_Secrets = [], tl_Errs = []\<rparr> configs of
              Ok st \<Rightarrow>
                (case load_secrets vc (tl_Secrets st) w of (badSecrets, w) \<Rightarrow>
                   let conns = foldl (\<lambda>m k. gdel k m) (tl_Conns st) badSecrets
                   in (case vc_load_conns vc conns w of (ok, w) \<Rightarrow>
                        (case failed_conns vc conns ok w of ((badConns, listErrs), w) \<Rightarrow>
                           let errs = tl_Errs st @ listErrs
                           in (Ok (if badConns \<noteq> [] \<or> badSecrets \<noteq> [] \<or> errs \<noteq> [] then 400 else 200,
                               \<lparr>FailedConns = badConns, FailedSecrets = badSecrets, Errs = errs\<rparr>), w))))
            | Err u \<Rightarrow> (Err u, w)
            | Panic \<Rightarrow> (Panic, w)))"

definition bad_reload :: "reload_err list \<Rightarrow> int \<times> reload_reply option" where
  "bad_reload es = (400, Some \<lparr>FailedConns = [], FailedSecrets = [], Errs = es\<rparr>)"

text \<open>An unreadable body is answered, with a plain text, before the client is created.\<close>

definition reloadConfig ::
  "'w vici \<Rightarrow> conn_data list option body \<Rightarrow> ('w, unit, int \<times> reload_reply option) io"
where
  "reloadConfig vc b w = (case b of
      Unreadable \<Rightarrow> Some (Ok (400, None), w)
    | _ \<Rightarrow> (case connect_vici vc w of
          None \<Rightarrow> None
        | Some w \<Rightarrow> (case b of
            Parsed (Some configs) \<Rightarrow> Some (case reload_data vc configs w of
                (Ok (status, reply), w) \<Rightarrow> (Ok (status, Some reply), w)
              | (Err u, w) \<Rightarrow> (Err u, w)
              | (Panic, w) \<Rightarrow> (Panic, w))
          | Parsed None \<Rightarrow> Some (Ok (bad_reload [NilConfigs]), w)
          | _ \<Rightarrow> Some (Ok (bad_reload [BadReloadJson]), w))))"

section \<open>Restarting\<close>

record 'w swan =
  sw_run :: "string list \<Rightarrow> 'w \<Rightarrow> string option \<times> 'w"
  sw_parse :: "string \<Rightarrow> swan_ast option"

definition swanctl_list :: "'w swan \<Rightarrow> string \<Rightarrow> 'w \<Rightarrow> swan_ast option \<times> 'w" where
  "swanctl_list sw what w = (case sw_run sw [what, ''--raw''] w of
      (None, w) \<Rightarrow> (None, w)
    | (Some out, w) \<Rightarrow> (sw_parse sw out, w))"

definition listFailedConnections :: "'w swan \<Rightarrow> 'w \<Rightarrow> failure_info list option \<times> 'w" where
  "listFailedConnections sw w =
     (case swanctl_list sw ''--list-conns'' w of
        (None, w) \<Rightarrow> (None, w)
      | (Some conns, w) \<Rightarrow> (case swanctl_list sw ''--list-sas'' w of
          (None, w) \<Rightarrow> (None, w)
        | (Some sas, w) \<Rightarrow> (Some (checkStatus conns sas), w)))"

definition getConfigs :: "'w swan \<Rightarrow> 'w \<Rightarrow> string list option \<times> 'w" where
  "getConfigs sw w =
     (case swanctl_list sw ''--list-conns'' w of
        (None, w) \<Rightarrow> (None, w)
      | (Some conns, w) \<Rightarrow> (case swanctl_list sw ''--list-sas'' w of
          (None, w) \<Rightarrow> (None, w)
        | (Some sas, w) \<Rightarrow> (Some (gkeys (collect_ast sas)), w)))"

definition ok_reply :: "int \<times> string" where "ok_reply = (200, ''OK'')"
definition failed_reply :: "int \<times> string" where "failed_reply = (500, ''Action failed'')"
definition bad_request :: "int \<times> string" where "bad_request = (400, ''Bad Request'')"

definition restart_if ::
  "'w swan \<Rightarrow> (failure_info \<Rightarrow> bool) \<Rightarrow> string list \<Rightarrow> 'w \<Rightarrow> (int \<times> string) \<times> 'w"
where
  "restart_if sw failed args w =
     (case listFailedConnections sw w of
        (None, w) \<Rightarrow> (failed_reply, w)
      | (Some failures, w) \<Rightarrow>
          if \<not> list_ex failed failures then (ok_reply, w)
          else (case sw_run sw args w of (None, w) \<Rightarrow> (failed_reply, w) | (Some _, w) \<Rightarrow> (ok_reply, w)))"

definition RestartConnection :: "'w swan \<Rightarrow> string body \<Rightarrow> 'w \<Rightarrow> (int \<times> string) \<times> 'w" where
  "RestartConnection sw b w = (case b of
      Parsed name \<Rightarrow> restart_if sw (\<lambda>f. fi_Connection f = name \<and> fi_Child f = [])
        [''--initiate'', ''--ike'', name, ''--timeout'', ''3''] w
    | _ \<Rightarrow> (bad_request, w))"

definition RestartConnectionChild :: "'w swan \<Rightarrow> (string \<times> string) body \<Rightarrow> 'w \<Rightarrow> (int \<times> string) \<times> 'w" where
  "RestartConnectionChild sw b w = (case b of
      Parsed (name, childName) \<Rightarrow>
        restart_if sw (\<lambda>f. fi_Connection f = name \<and> (fi_Child f = childName \<or> fi_Child f = []))
          [''--initiate'', ''--child'', childName, ''--ike'', name, ''--timeout'', ''3''] w
    | _ \<Rightarrow> (bad_request, w))"

section \<open>Writing failures to the status\<close>

definition downgraded :: "failure_info \<Rightarrow> ipsec_status \<Rightarrow> ipsec_status" where
  "downgraded fi st =
     (if fi_Child fi = [] then st\<lparr>State := ''Down''\<rparr>
      else st\<lparr>State := ''Degraded'', ChildrenState := Some (gput (fi_Child fi) ''Down'' (gmap_of (ChildrenState st)))\<rparr>)"

text \<open>One turn of the loop; a failed request is logged and the failure forgotten.\<close>

definition downgradeConnectionStatus :: "'w server \<Rightarrow> failure_info \<Rightarrow> 'w \<Rightarrow> 'w" where
  "downgradeConnectionStatus sv fi w = (case sv_get_conn sv (fi_Connection fi) w of
      (Ok conn, w) \<Rightarrow> snd (sv_update_status sv (conn\<lparr>Status := downgraded fi (Status conn)\<rparr>) w)
    | (_, w) \<Rightarrow> w)"

text \<open>One turn of \<open>monitorConnections\<close>: the failures go to the other loop in order.\<close>

definition monitor_turn :: "'w swan \<Rightarrow> 'w \<Rightarrow> failure_info list \<times> 'w" where
  "monitor_turn sw w = (case listFailedConnections sw w of (None, w) \<Rightarrow> ([], w) | (Some fs, w) \<Rightarrow> (fs, w))"

section \<open>Waiting for the socket\<close>

definition trim_suffix_slash :: "string \<Rightarrow> string" where
  "trim_suffix_slash s = (if s \<noteq> [] \<and> last s = CHR ''/'' then butlast s else s)"

definition fileExists :: "(string \<Rightarrow> string list option) \<Rightarrow> string \<Rightarrow> bool option" where
  "fileExists read_dir path =
     (let p = split_on (CHR ''/'') (trim_suffix_slash path);
          fileName = last p; dirPath = butlast p
      in map_option (\<lambda>ents. list_contains ents fileName) (read_dir (go_join ''/'' dirPath)))"

text \<open>The events are those from the moment the directory is watched; \<open>None\<close> is waiting on.\<close>

record watch_event =
  we_Name :: string
  we_Create :: bool

definition waitForViciSock ::
  "(string \<Rightarrow> string list option) \<Rightarrow> (string \<Rightarrow> bool) \<Rightarrow> watch_event list \<Rightarrow> string \<Rightarrow> (unit, unit) outcome option"
where
  "waitForViciSock read_dir watch events socketsDir =
     (let dir = (if has_suffix socketsDir ''/'' then socketsDir else socketsDir @ ''/'');
          path = dir @ ''charon.vici''
      in (case fileExists read_dir path of
            None \<Rightarrow> Some (Err ())
          | Some True \<Rightarrow> Some (Ok ())
          | Some False \<Rightarrow>
              if \<not> watch dir then Some (Err ())
              else if list_ex (\<lambda>e. we_Name e = path \<and> we_Create e) events then Some (Ok ()) else None))"

end
