(* ===== verification/Restctl_Props.thy ===== *)
theory Restctl_Props
  imports Restctl Exec_Store
begin

text \<open>
  What the restctl server does with durations, configurations and failures, and how the failures it
  writes to the status come back to it as requests of the controller.
\<close>

section \<open>Durations\<close>

lemma int64_id: "- (2 ^ 63) \<le> x \<Longrightarrow> x < 2 ^ 63 \<Longrightarrow> int64 x = x"
  unfolding int64_def by (simp add: sint_sbintrunc' signed_take_bit_int_eq_self)

lemma show_nat_last:
  assumes "char_digit c = None"
  shows "last (show_nat n) \<noteq> c"
proof -
  have "last (show_nat n) \<in> set (show_nat n)" by simp
  then obtain d where "d < 10" "last (show_nat n) = digit_char d" using show_nat_digits by fastforce
  then show ?thesis using char_digit_digit_char [of d] assms by (metis option.distinct(1))
qed

lemma unit_no_digit [simp]:
  "char_digit (CHR ''m'') = None" "char_digit (CHR ''h'') = None" "char_digit (CHR ''s'') = None"
  by (simp_all add: char_digit_def)

lemma trim_right_last: "xs \<noteq> [] \<Longrightarrow> \<not> p (last xs) \<Longrightarrow> trim_right p xs = xs"
  by (cases xs rule: rev_cases) (simp_all add: trim_right_def)

lemma trim_right_snoc: "p c \<Longrightarrow> trim_right p (xs @ [c]) = trim_right p xs"
  by (simp add: trim_right_def)

lemma trim_right_digits: "trim_right (\<lambda>c. c = CHR ''s'') (show_nat n) = show_nat n"
  by (intro trim_right_last) (simp_all add: show_nat_last)

lemma parse_show_nat: "n < 2 ^ 63 \<Longrightarrow> parse_int 64 (show_nat n) = (int n, None)"
  using parse_int_show [of 64 "int n"] by (simp add: show_int_def)

lemma normalize_reads:
  assumes "n * 3600 < 2 ^ 63"
  shows "normalizeTime (show_nat n) = Ok (int n)" "normalizeTime (show_nat n @ ''s'') = Ok (int n)"
    "normalizeTime (show_nat n @ ''m'') = Ok (int n * 60)" "normalizeTime (show_nat n @ ''h'') = Ok (int n * 3600)"
proof -
  have i: "int n * 3600 < 2 ^ 63" using assms by (metis of_nat_less_iff of_nat_mult of_nat_numeral of_nat_power)
  have p: "parse_int 64 (show_nat n) = (int n, None)" using assms by (intro parse_show_nat) simp
  have b: "int64 (int n * 60) = int n * 60" using i by (intro int64_id) simp_all
  have b': "int64 (int n * 60 * 60) = int n * 60 * 60" using i by (intro int64_id) simp_all
  show "normalizeTime (show_nat n) = Ok (int n)" "normalizeTime (show_nat n @ ''s'') = Ok (int n)"
    "normalizeTime (show_nat n @ ''m'') = Ok (int n * 60)" "normalizeTime (show_nat n @ ''h'') = Ok (int n * 3600)"
    using b b' by (simp_all add: normalizeTime_def trim_right_digits trim_right_snoc p show_nat_last)
qed

text \<open>
  C35. Durations are read as their number of seconds: a number that is small enough for 64 bits is
  read alone or with the unit \<open>s\<close> as itself, with \<open>m\<close> as minutes and with \<open>h\<close> as hours.
\<close>

theorem normalizeTime_reads:
  assumes "n * 3600 < 2 ^ 63" "(u, k) \<in> {([], 1), (''s'', 1), (''m'', 60), (''h'', 3600)}"
  shows "normalizeTime (show_nat n @ u) = Ok (int n * k)"
  using assms(2) normalize_reads [OF assms(1)] by auto

theorem normalizeTime_reads_witness: "normalizeTime (show_nat 4 @ ''h'') = Ok 14400"
  using normalizeTime_reads [of 4 "''h''" 3600] by simp

section \<open>Translating a connection\<close>

text \<open>The value of an option of a child in the configuration of the daemon.\<close>

definition child_option :: "child_sa_config \<Rightarrow> string \<Rightarrow> string" where
  "child_option sa k =
     (if k = ''mode'' then cs_Mode sa else if k = ''start_action'' then StartAction sa
      else if k = ''esp_proposals'' then concat (EspProposals sa) else if k = ''rekey_time'' then cs_RekeyTime sa
      else if k = ''rand_packets'' then RandPackets sa else if k = ''updown'' then Updown sa
      else if k = ''hostaccess'' then Hostaccess sa else if k = ''policies'' then Policies sa
      else if k = ''set_mark_in'' then SetMarkIn sa else if k = ''set_mark_out'' then SetMarkOut sa
      else if k = ''dpd_action'' then DpdAction sa else if k = ''close_action'' then cs_CloseAction sa
      else gstr (cs_Extra sa) k)"

lemma extra_fold:
  "gok e \<Longrightarrow> gget (foldl (\<lambda>m (k, x). if k \<in> set ks then m else gput k x m) m e) k =
     (if k \<in> set ks then gget m k else case gget e k of Some x \<Rightarrow> Some x | None \<Rightarrow> gget m k)"
proof (induction e arbitrary: m)
  case (Cons kx e)
  obtain a x where kx: "kx = (a, x)" by (cases kx)
  with Cons.prems have "gok e" "gget e a = None" by (simp_all add: gok_def gget_None_iff)
  with Cons.IH [of "if a \<in> set ks then m else gput a x m"] kx show ?case
    by (auto simp: gget_put split: option.splits)
qed simp

lemma child_option_kept:
  assumes "gok (gmap_of (c_Extra v))" "gget (gmap_of (c_Extra v)) k = Some x"
  shows "child_option (translate_child v) k = x"
proof -
  have "gget (cs_Extra (translate_child v)) k = Some x" if "k \<notin> set handled_child_keys"
    using that assms by (simp add: translate_child_def Let_def extra_fold)
  then have "k \<notin> set handled_child_keys \<Longrightarrow> gstr (cs_Extra (translate_child v)) k = x"
    by (simp add: gstr_def)
  then show ?thesis
  proof (cases "k \<in> set handled_child_keys")
    case True
    then show ?thesis using assms(2) unfolding handled_child_keys_def list.set insert_iff empty_iff
      by (elim disjE) (simp_all add: child_option_def translate_child_def Let_def getExtra_def gstr_def)
  qed (simp add: child_option_def handled_child_keys_def)
qed

lemma translate_children_map:
  "gok m \<Longrightarrow> gget (foldl (\<lambda>m (k, v). gput k (f v) m) m0 m) k = (case gget m k of Some v \<Rightarrow> Some (f v) | None \<Rightarrow> gget m0 k)"
proof (induction m arbitrary: m0)
  case (Cons kv m)
  obtain a v where kv: "kv = (a, v)" by (cases kv)
  with Cons.prems have "gok m" "gget m a = None" by (simp_all add: gok_def gget_None_iff)
  with Cons.IH kv show ?case by (auto simp: gget_put split: option.splits)
qed simp

lemma translate_Ok_children:
  "translate ipsec = Ok cfg \<Longrightarrow> ic_Children cfg = foldl (\<lambda>m (k, v). gput k (translate_child v) m) [] (Children ipsec)"
  by (auto simp: translate_def Let_def obind_Ok_iff split: prod.splits option.splits)

text \<open>
  C34. No child and none of its options is lost on the way to the daemon: a translated connection
  has a child configuration under exactly the names of the children of the specification, with
  their traffic selectors and with the interface id for both directions, and the value of each
  extra option of the child, under its own field or in the remaining options.
\<close>

theorem translate_keeps_children:
  assumes "translate ipsec = Ok cfg" "gok (Children ipsec)"
  shows "(ghas (ic_Children cfg) n \<longleftrightarrow> ghas (Children ipsec) n) \<and>
    (gget (Children ipsec) n = Some v \<and> gok (gmap_of (c_Extra v)) \<longrightarrow>
      (\<exists>sa. gget (ic_Children cfg) n = Some sa \<and> LocalTS sa = LocalIPs v \<and> RemoteTS sa = RemoteIPs v
        \<and> InInterfaceID sa = XfrmIfId v \<and> OutInterfaceID sa = XfrmIfId v
        \<and> (\<forall>k x. gget (gmap_of (c_Extra v)) k = Some x \<longrightarrow> child_option sa k = x)))"
proof -
  have g: "gget (ic_Children cfg) n = map_option translate_child (gget (Children ipsec) n)"
    unfolding translate_Ok_children [OF assms(1)] translate_children_map [OF assms(2)]
    by (cases "gget (Children ipsec) n") simp_all
  then show ?thesis
    using child_option_kept [of v] by (simp add: ghas_def) (simp add: translate_child_def Let_def)
qed

definition sample_child :: child where
  "sample_child = zero_child\<lparr>c_Name := ''a'', XfrmIfId := 7, c_Extra := Some [(''mode'', ''transport''), (''inactivity'', ''30s'')]\<rparr>"

definition sample_spec :: ipsec_spec where
  "sample_spec = (Spec (sample_conn ''c''))\<lparr>Children := [(''a'', sample_child)], sp_Extra := []\<rparr>"

lemma sample_spec_Ok: "\<exists>cfg. translate sample_spec = Ok cfg"
proof -
  have "parse_int 64 ''2'' = (2, None)"
    by (simp add: parse_int_def parse_uint_def char_digit_def Let_def)
  then show ?thesis by (simp add: translate_def sample_spec_def time_option_def getExtra_def Let_def)
qed

theorem translate_keeps_children_witness:
  "\<exists>cfg sa. translate sample_spec = Ok cfg \<and> gget (ic_Children cfg) ''a'' = Some sa
     \<and> InInterfaceID sa = 7 \<and> child_option sa ''mode'' = ''transport'' \<and> child_option sa ''inactivity'' = ''30s''"
proof -
  obtain cfg where t: "translate sample_spec = Ok cfg" using sample_spec_Ok by blast
  have c: "gget (Children sample_spec) ''a'' = Some sample_child" "gok (Children sample_spec)"
    "gok (gmap_of (c_Extra sample_child))"
    "gget (gmap_of (c_Extra sample_child)) ''mode'' = Some ''transport''"
    "gget (gmap_of (c_Extra sample_child)) ''inactivity'' = Some ''30s''" "XfrmIfId sample_child = 7"
    by (simp_all add: sample_spec_def sample_child_def gok_def)
  from translate_keeps_children [OF t c(2), of "''a''" sample_child] t c show ?thesis by auto
qed

section \<open>Loading\<close>

lemma connect_vici_returns: "connect_vici vc w = Some w' \<Longrightarrow> \<exists>v. fst (vc_new vc v)"
  by (rule connect_vici.raw_induct [where P = "\<lambda>vc w y. \<exists>v. fst (vc_new vc v)"])
    (auto split: prod.splits if_splits, metis fst_conv)

definition conn_name :: "conn_data \<Rightarrow> string" where
  "conn_name c = sp_Name (Spec (cd_IPSecConnection c))"

definition conn_config :: "conn_data \<Rightarrow> (translate_error, ike_config) outcome" where
  "conn_config c = translate (Spec (cd_IPSecConnection c))"

definition conn_secret :: "conn_data \<Rightarrow> string \<times> string" where
  "conn_secret c = (cd_Secret c, RemoteAddr (Spec (cd_IPSecConnection c)))"

lemma add_config_step:
  assumes "add_config st c = Ok st'"
  shows "tl_Conns st' = (case conn_config c of Ok cfg \<Rightarrow> gput (conn_name c) cfg (tl_Conns st) | _ \<Rightarrow> tl_Conns st)"
    "tl_Secrets st' = (if is_Ok (conn_config c)
       then gput (conn_name c) (conn_secret c) (tl_Secrets st) else tl_Secrets st)"
    "tl_Errs st' = [] \<longleftrightarrow> tl_Errs st = [] \<and> is_Ok (conn_config c)"
  using assms by (auto simp: add_config_def conn_config_def conn_name_def conn_secret_def Let_def split: outcome.splits)

lemma add_configs:
  assumes "foldl_outcome add_config st cs = Ok st'" "distinct (map conn_name cs)"
    "\<forall>c \<in> set cs. gget (tl_Conns st) (conn_name c) = None \<and> gget (tl_Secrets st) (conn_name c) = None"
  shows "(\<forall>n cfg. gget (tl_Conns st') n = Some cfg \<longleftrightarrow>
      gget (tl_Conns st) n = Some cfg \<or> (\<exists>c \<in> set cs. conn_name c = n \<and> conn_config c = Ok cfg))
    \<and> (\<forall>n v. gget (tl_Secrets st') n = Some v \<longleftrightarrow> gget (tl_Secrets st) n = Some v
      \<or> (\<exists>c \<in> set cs. conn_name c = n \<and> is_Ok (conn_config c) \<and> v = conn_secret c))
    \<and> (tl_Errs st' = [] \<longleftrightarrow> tl_Errs st = [] \<and> (\<forall>c \<in> set cs. is_Ok (conn_config c)))"
  using assms
proof (induction cs arbitrary: st)
  case (Cons d cs)
  then obtain st1 where st1: "add_config st d = Ok st1" "foldl_outcome add_config st1 cs = Ok st'"
    by (auto simp: obind_Ok_iff)
  note s = add_config_step [OF st1(1)]
  have fresh: "\<forall>c \<in> set cs. gget (tl_Conns st1) (conn_name c) = None \<and> gget (tl_Secrets st1) (conn_name c) = None"
  proof
    fix c assume "c \<in> set cs"
    with Cons.prems(2) have "conn_name c \<noteq> conn_name d" by (metis distinct.simps(2) image_eqI list.simps(9) set_map)
    with Cons.prems(3) \<open>c \<in> set cs\<close> show "gget (tl_Conns st1) (conn_name c) = None \<and> gget (tl_Secrets st1) (conn_name c) = None"
      by (simp add: s(1,2) gget_put split: outcome.split)
  qed
  have d: "gget (tl_Conns st) (conn_name d) = None" "gget (tl_Secrets st) (conn_name d) = None"
    using Cons.prems(3) by simp_all
  have "distinct (map conn_name cs)" using Cons.prems(2) by simp
  note IH = Cons.IH [OF st1(2) this fresh]
  have conns: "gget (tl_Conns st1) n = Some cfg \<longleftrightarrow>
      gget (tl_Conns st) n = Some cfg \<or> (conn_name d = n \<and> conn_config d = Ok cfg)" for n cfg
    using d(1) by (cases "conn_config d") (auto simp: s(1) gget_put)
  have secrets: "gget (tl_Secrets st1) n = Some v \<longleftrightarrow>
      gget (tl_Secrets st) n = Some v \<or> (conn_name d = n \<and> is_Ok (conn_config d) \<and> v = conn_secret d)" for n v
    using d(2) by (auto simp: s(2) gget_put)
  show ?case using IH unfolding conns secrets s(3) by simp
qed simp

lemma load_secrets_all:
  "load_secrets vc ss w = ([], w') \<Longrightarrow> (k, secret, owner) \<in> set ss \<Longrightarrow>
     \<exists>v v'. vc_load_shared vc \<lparr>sk_Typ = ''IKE'', sk_Data = trim_space secret, sk_Owners = [owner]\<rparr> v = (True, v')"
  by (induction vc ss w arbitrary: w' rule: load_secrets.induct)
    (auto split: prod.splits if_splits)

lemma reload_data_success:
  assumes "reload_data vc configs w = (Ok (200, reply), w')"
  obtains w1 st w2 w3 ok where
    "foldl_outcome add_config \<lparr>tl_Conns = [], tl_Secrets = [], tl_Errs = []\<rparr> configs = Ok st" "tl_Errs st = []"
    "load_secrets vc (tl_Secrets st) w1 = ([], w2)" "vc_load_conns vc (tl_Conns st) w2 = (ok, w3)"
    "failed_conns vc (tl_Conns st) ok w3 = (([], []), w')"
  using assms unfolding reload_data_def Let_def
  by (auto split: prod.splits outcome.splits if_splits)

lemma failed_conns_none:
  "failed_conns vc conns ok w = (([], []), w') \<Longrightarrow>
     ok \<or> (\<exists>names. vc_list vc w = ((names, True), w') \<and> (\<forall>n. ghas conns n \<longrightarrow> n \<in> set (concat names)))"
  by (auto simp: failed_conns_def ghas_iff filter_empty_conv split: if_splits prod.splits)

text \<open>
  C32. A request to load configurations is answered with 200 only when it was carried out: for
  distinct names, every connection was translated, its secret was accepted by the daemon, the map
  handed to \<open>LoadConns\<close> holds exactly the translated configurations under their names, and when
  \<open>LoadConns\<close> failed the daemon nevertheless lists them all.
\<close>

theorem reload_ok_loads_all:
  assumes "reloadConfig vc (Parsed (Some configs)) w = Some (Ok (200, reply), w')"
    "distinct (map conn_name configs)"
  shows "\<exists>cfgs w1 ok w2. vc_load_conns vc cfgs w1 = (ok, w2)
    \<and> (\<forall>n cfg. gget cfgs n = Some cfg \<longleftrightarrow> (\<exists>c \<in> set configs. conn_name c = n \<and> conn_config c = Ok cfg))
    \<and> (\<forall>c \<in> set configs. is_Ok (conn_config c)
        \<and> (\<exists>v v'. vc_load_shared vc \<lparr>sk_Typ = ''IKE'', sk_Data = trim_space (cd_Secret c),
             sk_Owners = [RemoteAddr (Spec (cd_IPSecConnection c))]\<rparr> v = (True, v')))
    \<and> (ok \<or> (\<exists>names. vc_list vc w2 = ((names, True), w')
        \<and> (\<forall>c \<in> set configs. conn_name c \<in> set (concat names))))"
proof -
  obtain r w0 where "reload_data vc configs w0 = (Ok (200, r), w')"
    using assms(1) by (auto simp: reloadConfig_def split: option.splits prod.splits outcome.splits)
  then obtain w1 st w2 w3 ok where
    st: "foldl_outcome add_config \<lparr>tl_Conns = [], tl_Secrets = [], tl_Errs = []\<rparr> configs = Ok st" "tl_Errs st = []"
    and sec: "load_secrets vc (tl_Secrets st) w1 = ([], w2)"
    and l: "vc_load_conns vc (tl_Conns st) w2 = (ok, w3)"
    and f: "failed_conns vc (tl_Conns st) ok w3 = (([], []), w')" by (rule reload_data_success)
  have a: "\<And>n cfg. gget (tl_Conns st) n = Some cfg \<longleftrightarrow> (\<exists>c \<in> set configs. conn_name c = n \<and> conn_config c = Ok cfg)"
    "\<And>n v. gget (tl_Secrets st) n = Some v \<longleftrightarrow> (\<exists>c \<in> set configs. conn_name c = n \<and> is_Ok (conn_config c) \<and> v = conn_secret c)"
    "\<forall>c \<in> set configs. is_Ok (conn_config c)"
    using add_configs [OF st(1) assms(2)] st(2) by (simp_all del: split_paired_All)
  have "ghas (tl_Conns st) (conn_name c)" if "c \<in> set configs" for c
  proof -
    obtain cfg where "conn_config c = Ok cfg" using a(3) \<open>c \<in> set configs\<close> by (cases "conn_config c") auto
    with that have "gget (tl_Conns st) (conn_name c) = Some cfg" unfolding a(1) by blast
    then show ?thesis by (simp add: ghas_def)
  qed
  moreover have "\<exists>v v'. vc_load_shared vc \<lparr>sk_Typ = ''IKE'', sk_Data = trim_space (cd_Secret c),
      sk_Owners = [RemoteAddr (Spec (cd_IPSecConnection c))]\<rparr> v = (True, v')" if c: "c \<in> set configs" for c
  proof -
    have "gget (tl_Secrets st) (conn_name c) = Some (conn_secret c)" using a(2,3) c by blast
    then have "(conn_name c, conn_secret c) \<in> set (tl_Secrets st)" unfolding gget_def by (rule map_of_SomeD)
    then show ?thesis using load_secrets_all [OF sec] by (simp add: conn_secret_def)
  qed
  ultimately show ?thesis using l a failed_conns_none [OF f] by blast
qed

definition sample_vici :: "bool vici" where
  "sample_vici = \<lparr>vc_new = (\<lambda>w. (True, w)), vc_list = (\<lambda>w. (([[''old'']], True), w)), vc_unload = (\<lambda>_ w. (True, w)),
     vc_load_shared = (\<lambda>_ w. (True, w)), vc_load_conns = (\<lambda>_ w. (True, True))\<rparr>"

definition sample_conn_data :: conn_data where
  "sample_conn_data = \<lparr>cd_Secret = ''psk'', cd_IPSecConnection = (sample_conn ''c'')\<lparr>Spec := sample_spec\<rparr>\<rparr>"

theorem reload_ok_loads_all_witness:
  "\<exists>reply w1 ok w2 cfgs. reloadConfig sample_vici (Parsed (Some [sample_conn_data])) False = Some (Ok (200, reply), True)
     \<and> vc_load_conns sample_vici cfgs w1 = (ok, w2) \<and> ghas cfgs ''c''"
proof -
  obtain cfg where t: "conn_config sample_conn_data = Ok cfg"
    using sample_spec_Ok by (auto simp: conn_config_def sample_conn_data_def)
  have n: "conn_name sample_conn_data = ''c''" by (simp add: conn_name_def sample_conn_data_def sample_spec_def sample_conn_def)
  have "add_config st sample_conn_data = Ok (st\<lparr>tl_Conns := gput ''c'' cfg (tl_Conns st),
      tl_Secrets := gput ''c'' (conn_secret sample_conn_data) (tl_Secrets st)\<rparr>)" for st
    using t n by (simp add: add_config_def Let_def conn_config_def conn_name_def conn_secret_def)
  then have "\<exists>r. reload_data sample_vici [sample_conn_data] False = (Ok (200, r), True)"
    by (simp add: reload_data_def sample_vici_def Let_def failed_conns_def gput_def conn_secret_def)
  moreover have "connect_vici sample_vici False = Some False"
    by (subst connect_vici.simps) (simp add: sample_vici_def)
  ultimately obtain r where r: "reloadConfig sample_vici (Parsed (Some [sample_conn_data])) False = Some (Ok (200, Some r), True)"
    by (auto simp: reloadConfig_def)
  from reload_ok_loads_all [OF r] obtain cfgs w1 ok w2 where "vc_load_conns sample_vici cfgs w1 = (ok, w2)"
    "\<forall>n cfg. gget cfgs n = Some cfg \<longleftrightarrow> (\<exists>c \<in> set [sample_conn_data]. conn_name c = n \<and> conn_config c = Ok cfg)" by auto
  with r t n show ?thesis by (metis ghas_def list.set_intros(1) option.distinct(1))
qed

text \<open>
  The loop that waits for the daemon never gives up: when no VICI client can be created, a
  request to load configurations, once its body is read, is never answered.
\<close>

theorem reload_never_returns:
  assumes "\<forall>v. \<not> fst (vc_new vc v)" "b \<noteq> Unreadable"
  shows "reloadConfig vc b w = None"
proof -
  have "connect_vici vc w = None" using connect_vici_returns [of vc w] assms(1) by (cases "connect_vici vc w") auto
  with assms(2) show ?thesis by (cases b) (simp_all add: reloadConfig_def)
qed

definition dead_vici :: "unit vici" where
  "dead_vici = \<lparr>vc_new = (\<lambda>w. (False, w)), vc_list = (\<lambda>w. (([], False), w)), vc_unload = (\<lambda>_ w. (False, w)),
     vc_load_shared = (\<lambda>_ w. (False, w)), vc_load_conns = (\<lambda>_ w. (False, w))\<rparr>"

theorem reload_never_returns_witness: "reloadConfig dead_vici (Parsed (Some [])) () = None"
  using reload_never_returns [of dead_vici "Parsed (Some [])" "()"] by (simp add: dead_vici_def)

section \<open>From a failure to a restart\<close>

text \<open>The response to a request, as the client sees it: the encoder ends the JSON text with a newline.\<close>

definition encoded_reply :: "int \<times> string \<Rightarrow> http_reply" where
  "encoded_reply r = (case r of (status, s) \<Rightarrow>
     \<lparr>StatusCode = status, Body = Some (print_json (JStr s) @ [CHR 0x0A])\<rparr>)"

lemma encoded_failed_reply:
  "encoded_reply failed_reply = \<lparr>StatusCode = 500, Body = Some (print_json (JStr ''Action failed'') @ [CHR 0x0A])\<rparr>"
  "print_json (JStr s) @ t \<noteq> ''Action failed''"
  by (simp_all add: encoded_reply_def failed_reply_def print_str_def quote_def)

lemma restart_failure_status:
  assumes "sv_post sv (pod_url ip '':61410/child-restart'') (RestartConnectionChildRequest n ch) w
      = (Ok (encoded_reply failed_reply), w1)"
    and "sv_get_conn sv n w1 = (Ok c, w2)"
  shows "Do_RestartChild sv n ch ip w = Some (Err (HttpStatus ''Error restarting a connection'' 500), w2)"
proof -
  have p: "bnd (send_post sv what (pod_url ip '':61410/child-restart'') (RestartConnectionChildRequest n ch)) g w
      = g (encoded_reply failed_reply) w1" for what and g :: "_ \<Rightarrow> ('a, act_error, unit) io"
    unfolding send_post_def by (rule bnd_call(1)) (rule assms(1))
  have g: "bnd (call f (sv_get_conn sv n)) g w1 = g c w2" for f and g :: "_ \<Rightarrow> ('a, act_error, unit) io"
    by (rule bnd_call(1)) (rule assms(2))
  show ?thesis
    unfolding Do_RestartChild_def p by (simp add: encoded_failed_reply read_body_def g del: print_json.simps)
qed

text \<open>
  C36. A failed restart is not recognised: when the restctl server answers a request to restart a
  child with its failure, the action that sent the request ends with an ordinary status error and
  not with the \<open>ConnectionRestartError\<close> that it has for this case, because the server writes the
  message as JSON and the action compares it with the plain text.
\<close>

theorem restart_failure_not_recognised:
  assumes "fst (RestartConnectionChild sw b x) = failed_reply"
    and "sv_post sv (pod_url ip '':61410/child-restart'') (RestartConnectionChildRequest n ch) w
      = (Ok (encoded_reply (fst (RestartConnectionChild sw b x))), w1)"
    and "sv_get_conn sv n w1 = (Ok c, w2)"
  shows "Do_RestartChild sv n ch ip w = Some (Err (HttpStatus ''Error restarting a connection'' 500), w2)"
  using restart_failure_status [OF assms(2) [unfolded assms(1)] assms(3)] .

definition failing_swan :: "unit swan" where
  "failing_swan = \<lparr>sw_run = (\<lambda>_ w. (None, w)), sw_parse = (\<lambda>_. None)\<rparr>"

definition restctl_server :: "store server" where
  "restctl_server = map_server\<lparr>sv_post := (\<lambda>url req w. (case req of
       RestartConnectionChildRequest n ch \<Rightarrow> Ok (encoded_reply (fst (RestartConnectionChild failing_swan (Parsed (n, ch)) ())))
     | _ \<Rightarrow> Ok \<lparr>StatusCode = 200, Body = Some []\<rparr>, w))\<rparr>"

theorem restart_failure_not_recognised_witness:
  "Do_RestartChild restctl_server ''c'' ''a'' ''10.0.0.1'' sample_store
     = Some (Err (HttpStatus ''Error restarting a connection'' 500), sample_store)"
proof (rule restart_failure_not_recognised)
  show "fst (RestartConnectionChild failing_swan (Parsed (''c'', ''a'')) ()) = failed_reply"
    by (simp add: RestartConnectionChild_def restart_if_def listFailedConnections_def swanctl_list_def failing_swan_def)
  show "sv_post restctl_server (pod_url ''10.0.0.1'' '':61410/child-restart'') (RestartConnectionChildRequest ''c'' ''a'') sample_store
      = (Ok (encoded_reply (fst (RestartConnectionChild failing_swan (Parsed (''c'', ''a'')) ()))), sample_store)"
    by (simp add: restctl_server_def)
  show "sv_get_conn restctl_server ''c'' sample_store = (Ok (sample_conn ''c''), sample_store)"
    by (simp add: restctl_server_def map_server_def lookup_or_def sample_store_def)
qed

lemma downgrade_found:
  assumes "kube_store conn_key (sv_get_conn sv) (sv_update_status sv) obj"
    and "obj n w = Some c" "cn_Name c = n"
  shows "obj n (downgradeConnectionStatus sv \<lparr>fi_Connection = n, fi_Child = ch\<rparr> w)
     = Some (c\<lparr>Status := downgraded \<lparr>fi_Connection = n, fi_Child = ch\<rparr> (Status c)\<rparr>)"
proof -
  let ?c = "c\<lparr>Status := downgraded \<lparr>fi_Connection = n, fi_Child = ch\<rparr> (Status c)\<rparr>"
  have k: "conn_key ?c = n" using assms(3) by (simp add: conn_key_def)
  obtain w' where "sv_update_status sv ?c w = (Ok (), w')" "\<forall>k. obj k w' = (if k = conn_key ?c then Some ?c else obj k w)"
    using kube_store.update [OF assms(1), of ?c w c] assms(2) k by auto
  then show ?thesis using k
    by (simp add: downgradeConnectionStatus_def kube_store.get_Some [OF assms(1,2)])
qed

lemma down_restarts:
  assumes "getIPSec cur n = Some s" "is_Name d = n" "is_ChildrenState d = Some m" "is_Name s = n"
    and "is_State s = st" "if ch = [] then st = ''Down'' \<and> m \<noteq> []
      else st = ''Degraded'' \<and> ch \<in> set (gkeys m) \<and> gget (gmap_of (is_ChildrenState s)) ch = Some ''Down''"
  shows "\<exists>ch'. RestartChildConnectionAction n ch' ip \<in> set (diff_ipsec cur ip d) \<and> (ch = [] \<or> ch' = ch)"
proof (cases "ch = []")
  case True
  then have "firstChildName (is_ChildrenState d) \<noteq> None" using assms(3,6) by (simp add: firstChildName_None)
  then obtain f where "firstChildName (is_ChildrenState d) = Some f" by blast
  then have "RestartChildConnectionAction n f ip \<in> set (diff_ipsec cur ip d)"
    using True assms by (simp add: diff_ipsec_def)
  then show ?thesis using True by blast
next
  case False
  then have "RestartChildConnectionAction n ch ip \<in> set (diff_child ip d s ch)"
    using assms by (simp add: diff_child_def)
  then have "RestartChildConnectionAction n ch ip \<in> set (diff_ipsec cur ip d)"
    using False assms by (auto simp: diff_ipsec_def)
  then show ?thesis by blast
qed

lemma listed_in_both:
  assumes "\<forall>k \<in> set cs. cn_Name k = n \<longrightarrow> k = c" "n \<in> cn_Name ` set cs" "trim_space n \<noteq> []"
    "ListConns a = Ok cs" "GetClusterIPSecs a = Ok cur"
  shows "\<exists>d \<in> set (FindIPSecs (createIPSecs cs) (Group (Spec c))). is_Name d = n \<and> is_ChildrenState d = Some (up_children c)"
    and "getIPSec (FindIPSecs cur (Group (Spec c))) n = Some
      \<lparr>is_Name = n, is_State = State (Status c), is_ChildrenState = ChildrenState (Status c), is_Group = Group (Spec c)\<rparr>"
proof -
  have c: "c \<in> set cs" "cn_Name c = n" using assms(1,2) by auto
  then show "\<exists>d \<in> set (FindIPSecs (createIPSecs cs) (Group (Spec c))). is_Name d = n \<and> is_ChildrenState d = Some (up_children c)"
    using assms(3) by (force simp: FindIPSecs_eq createIPSecs_def)
  let ?f = "\<lambda>c. \<lparr>is_Name = cn_Name c, is_State = State (Status c), is_ChildrenState = ChildrenState (Status c), is_Group = Group (Spec c)\<rparr>"
  have cur: "cur = map ?f (filter (\<lambda>c. trim_space (cn_Name c) \<noteq> []) cs)"
    using assms(4,5) by (simp add: GetClusterIPSecs_def)
  then have "?f c \<in> set (FindIPSecs cur (Group (Spec c)))"
    unfolding FindIPSecs_eq using c assms(3) by (simp, intro image_eqI [where x = c]) simp_all
  then obtain s where s: "getIPSec (FindIPSecs cur (Group (Spec c))) n = Some s"
    using c(2) by (cases "getIPSec (FindIPSecs cur (Group (Spec c))) n") (auto simp: getIPSec_def find_None_iff)
  then have "s \<in> set cur" "is_Name s = n" using getIPSec_Some [OF s] by (simp_all add: FindIPSecs_eq)
  then have "s = ?f c" unfolding cur using assms(1) by auto
  with s c(2) show "getIPSec (FindIPSecs cur (Group (Spec c))) n = Some
      \<lparr>is_Name = n, is_State = State (Status c), is_ChildrenState = ChildrenState (Status c), is_Group = Group (Spec c)\<rparr>"
    by simp
qed

lemma up_children_status [simp]: "up_children (c\<lparr>Status := st\<rparr>) = up_children c"
  by (simp add: up_children_def)

lemma up_children_Nil: "up_children c = [] \<longleftrightarrow> Children (Spec c) = []"
  using gkeys_up_children [of c] by auto

text \<open>
  C33. A failure that the restctl server reports leads to a restart: when a configured connection
  with children, or one of its children, is reported as not established, and the status update
  succeeds, the next comparison of the states asks to restart a child of that connection, and the
  reported child when there is one.
\<close>

theorem reported_failure_restarted:
  assumes "kube_store conn_key (sv_get_conn sv) (sv_update_status sv) obj"
    and "obj n w = Some c" "cn_Name c = n" "trim_space n \<noteq> []"
    and "if ch = [] then Children (Spec c) \<noteq> [] else ghas (Children (Spec c)) ch"
    and "\<forall>k \<in> set cs. obj (cn_Name k) (downgradeConnectionStatus sv \<lparr>fi_Connection = n, fi_Child = ch\<rparr> w) = Some k"
    and "n \<in> cn_Name ` set cs" "ListConns a = Ok cs" "GetClusterIPSecs a = Ok cur"
  shows "\<exists>ch'. RestartChildConnectionAction n ch' ip \<in> set (diffIPSecs
      (FindIPSecs (createIPSecs cs) (Group (Spec c))) (FindIPSecs cur (Group (Spec c))) ip)
    \<and> (ch = [] \<or> ch' = ch)"
proof -
  let ?c = "c\<lparr>Status := downgraded \<lparr>fi_Connection = n, fi_Child = ch\<rparr> (Status c)\<rparr>"
  let ?gr = "Group (Spec ?c)"
  have one: "\<forall>k \<in> set cs. cn_Name k = n \<longrightarrow> k = ?c"
    using assms(6) downgrade_found [OF assms(1,2,3), of ch] by auto
  note both = listed_in_both [OF one assms(7,4,8,9)]
  from both(1) obtain d where d: "d \<in> set (FindIPSecs (createIPSecs cs) ?gr)" "is_Name d = n"
    "is_ChildrenState d = Some (up_children ?c)" by blast
  have "\<exists>ch'. RestartChildConnectionAction n ch' ip \<in> set (diff_ipsec (FindIPSecs cur ?gr) ip d) \<and> (ch = [] \<or> ch' = ch)"
    using assms(5)
    by (intro down_restarts [OF both(2) d(2,3)])
      (auto simp: downgraded_def up_children_Nil ghas_iff gget_put gkeys_up_children [unfolded set_map])
  moreover have "n \<noteq> []" using assms(4) by auto
  then have "set (diff_ipsec (FindIPSecs cur ?gr) ip d)
      \<subseteq> set (diffIPSecs (FindIPSecs (createIPSecs cs) ?gr) (FindIPSecs cur ?gr) ip)"
    using d both(2) by (auto simp: diffIPSecs_def Let_def in_both_iff)
  ultimately show ?thesis by auto
qed

definition down_conn :: "string \<Rightarrow> ipsec_conn" where
  "down_conn ch = (sample_conn ''c'')\<lparr>Status := downgraded \<lparr>fi_Connection = ''c'', fi_Child = ch\<rparr> (Status (sample_conn ''c''))\<rparr>"

theorem reported_failure_restarted_witness:
  "\<exists>cur. GetClusterIPSecs (sample_api [down_conn ''a'']) = Ok cur
    \<and> RestartChildConnectionAction ''c'' ''a'' ''10.0.0.1'' \<in> set (diffIPSecs
      (FindIPSecs (createIPSecs [down_conn ''a'']) (Group (Spec (sample_conn ''c''))))
      (FindIPSecs cur (Group (Spec (sample_conn ''c'')))) ''10.0.0.1'')"
proof -
  obtain cur where cur: "GetClusterIPSecs (sample_api [down_conn ''a'']) = Ok cur"
    by (simp add: GetClusterIPSecs_def sample_api_def)
  have c: "gget (st_Conns sample_store) ''c'' = Some (sample_conn ''c'')" "cn_Name (sample_conn ''c'') = ''c''"
    by (simp_all add: sample_store_def sample_conn_def)
  have t: "trim_space ''c'' \<noteq> []" by (simp add: trim_space_def is_space_def trim_right_def)
  have "\<forall>k \<in> set [down_conn ''a'']. gget (st_Conns (downgradeConnectionStatus map_server
      \<lparr>fi_Connection = ''c'', fi_Child = ''a''\<rparr> sample_store)) (cn_Name k) = Some k"
    using downgrade_found [OF map_conns.kube_store_axioms c, of "''a''"] c by (simp add: down_conn_def)
  moreover have "ghas (Children (Spec (sample_conn ''c''))) ''a''" by (simp add: sample_conn_def ghas_def)
  ultimately show ?thesis
    using reported_failure_restarted [OF map_conns.kube_store_axioms c t, of "''a''" "[down_conn ''a'']"
        "sample_api [down_conn ''a'']" cur "''10.0.0.1''"] cur c
    by (auto simp: sample_api_def down_conn_def)
qed

end
