(* ===== verification/Restctl_Run.thy ===== *)
theory Restctl_Run
  imports Restctl_Props
begin

text \<open>
  restctl as a running program (\<open>main\<close> of \<open>cmd/restctl/main.go\<close>): its start, and the two loops that run side by
  side from then on. \<open>monitorConnections\<close> lists the failures of the daemon and sends them, one by one, into a channel with
  room for ten; \<open>downgradeConnectionStatus\<close> takes them out and writes them to the status of their connections.
\<close>

section \<open>States and steps\<close>

text \<open>
  The daemon and the API server, the failures of the current turn that are not sent yet, the channel, and the failure
  that the second loop has received; the last two fields are a history, of the failures listed and of those dealt with.
\<close>

record ('d, 'w) restctl_run =
  Daemon :: 'd
  Cluster :: 'w
  Unsent :: "failure_info list"
  Channel :: "failure_info list"
  Received :: "failure_info option"
  Listed :: "failure_info list"
  Handled :: "failure_info list"

definition channel_room :: nat where
  "channel_room = 10"

text \<open>
  The steps of the two loops, in any order: a turn of the first loop starts when everything is sent, a send waits for
  room in the channel, a receive for something to take. The get and the update of a status are one step. With \<open>others\<close> the
  daemon and the cluster change by themselves.
\<close>

inductive restctl_step :: "'d swan \<Rightarrow> 'w server \<Rightarrow> ('d, 'w) restctl_run \<Rightarrow> ('d, 'w) restctl_run \<Rightarrow> bool" for sw sv where
  turn: "Unsent s = [] \<Longrightarrow> monitor_turn sw (Daemon s) = (fs, d) \<Longrightarrow>
    restctl_step sw sv s (s\<lparr>Daemon := d, Unsent := fs, Listed := Listed s @ fs\<rparr>)"
| send: "Unsent s = f # fs \<Longrightarrow> length (Channel s) < channel_room \<Longrightarrow>
    restctl_step sw sv s (s\<lparr>Unsent := fs, Channel := Channel s @ [f]\<rparr>)"
| receive: "Channel s = f # fs \<Longrightarrow> Received s = None \<Longrightarrow>
    restctl_step sw sv s (s\<lparr>Channel := fs, Received := Some f\<rparr>)"
| downgrade: "Received s = Some f \<Longrightarrow> restctl_step sw sv s
    (s\<lparr>Received := None, Cluster := downgradeConnectionStatus sv f (Cluster s), Handled := Handled s @ [f]\<rparr>)"
| others: "restctl_step sw sv s (s\<lparr>Daemon := d, Cluster := w\<rparr>)"

inductive_cases restctl_stepE: "restctl_step sw sv s s'"

text \<open>
  The start: a failure of the API client or of the wait for the VICI socket panics, one of the listener exits;
  the wait may not return (\<open>None\<close>).
\<close>

definition restctl_main ::
  "bool \<Rightarrow> (string \<Rightarrow> string list option) \<Rightarrow> (string \<Rightarrow> bool) \<Rightarrow> watch_event list \<Rightarrow> (string \<Rightarrow> string) \<Rightarrow> bool
   \<Rightarrow> 'd \<Rightarrow> 'w \<Rightarrow> (unit, ('d, 'w) restctl_run) outcome option"
where
  "restctl_main client_ok read_dir watch events getenv listening d w =
     (if \<not> client_ok then Some Panic
      else (case waitForViciSock read_dir watch events (getenv ''HOST_SOCKETS_PATH'') of
          None \<Rightarrow> None
        | Some (Ok _) \<Rightarrow>
            if listening then Some (Ok \<lparr>Daemon = d, Cluster = w, Unsent = [], Channel = [], Received = None, Listed = [], Handled = []\<rparr>)
            else Some (Err ())
        | Some _ \<Rightarrow> Some Panic))"

section \<open>The order of the failures\<close>

definition underway :: "('d, 'w) restctl_run \<Rightarrow> failure_info list" where
  "underway s = (case Received s of None \<Rightarrow> [] | Some f \<Rightarrow> [f]) @ Channel s @ Unsent s"

definition in_transit :: "('d, 'w) restctl_run \<Rightarrow> bool" where
  "in_transit s \<longleftrightarrow> Listed s = Handled s @ underway s \<and> length (Channel s) \<le> channel_room"

lemma step_in_transit: "restctl_step sw sv s s' \<Longrightarrow> in_transit s \<Longrightarrow> in_transit s'"
  by (auto elim!: restctl_stepE simp: in_transit_def underway_def)

lemma steps_in_transit: "(restctl_step sw sv)\<^sup>*\<^sup>* s s' \<Longrightarrow> in_transit s \<Longrightarrow> in_transit s'"
  by (induction rule: rtranclp_induct) (auto intro: step_in_transit)

lemma start_in_transit: "restctl_main c rd wt es getenv l d w = Some (Ok s) \<Longrightarrow> in_transit s"
  by (auto simp: restctl_main_def in_transit_def underway_def split: if_splits option.splits outcome.splits)

text \<open>
  The two loops alone get everything done: as long as a failure is under way, one of the steps is possible, and none of
  them makes the way to the end longer.
\<close>

definition way :: "('d, 'w) restctl_run \<Rightarrow> nat" where
  "way s = 3 * length (Unsent s) + 2 * length (Channel s) + (case Received s of None \<Rightarrow> 0 | Some _ \<Rightarrow> 1)"

text \<open>The cluster when everything under way has been written.\<close>

definition outlook :: "'w server \<Rightarrow> ('d, 'w) restctl_run \<Rightarrow> 'w" where
  "outlook sv s = foldl (\<lambda>w f. downgradeConnectionStatus sv f w) (Cluster s) (underway s)"

lemma next_step:
  assumes "underway s \<noteq> []" "length (Channel s) \<le> channel_room"
  shows "\<exists>s'. restctl_step sw sv s s' \<and> way s' < way s \<and> Listed s' = Listed s \<and> outlook sv s' = outlook sv s"
proof (cases "Received s")
  case (Some f)
  let ?s = "s\<lparr>Received := None, Cluster := downgradeConnectionStatus sv f (Cluster s), Handled := Handled s @ [f]\<rparr>"
  have "way ?s < way s" "outlook sv ?s = outlook sv s" using Some by (simp_all add: way_def outlook_def underway_def)
  with restctl_step.downgrade [OF Some, of sw sv] show ?thesis by (intro exI [of _ ?s]) simp
next
  case None
  show ?thesis
  proof (cases "Channel s")
    case (Cons f fs)
    let ?s = "s\<lparr>Channel := fs, Received := Some f\<rparr>"
    have "way ?s < way s" "outlook sv ?s = outlook sv s" using Cons None by (simp_all add: way_def outlook_def underway_def)
    with restctl_step.receive [OF Cons None, of sw sv] show ?thesis by (intro exI [of _ ?s]) simp
  next
    case Nil
    with None assms(1) obtain f fs where u: "Unsent s = f # fs" by (cases "Unsent s") (auto simp: underway_def)
    let ?s = "s\<lparr>Unsent := fs, Channel := Channel s @ [f]\<rparr>"
    have "way ?s < way s" "outlook sv ?s = outlook sv s" using Nil None u by (simp_all add: way_def outlook_def underway_def)
    moreover have "length (Channel s) < channel_room" using Nil by (simp add: channel_room_def)
    ultimately show ?thesis using restctl_step.send [OF u, of sw sv] by (intro exI [of _ ?s]) simp
  qed
qed

lemma all_handled:
  "in_transit s \<Longrightarrow> \<exists>s'. (restctl_step sw sv)\<^sup>*\<^sup>* s s' \<and> Listed s' = Listed s \<and> Handled s' = Listed s \<and> Cluster s' = outlook sv s"
proof (induction "way s" arbitrary: s rule: less_induct)
  case less
  show ?case
  proof (cases "underway s = []")
    case True
    with less.prems have "Handled s = Listed s" "Cluster s = outlook sv s" by (simp_all add: in_transit_def outlook_def)
    then show ?thesis by blast
  next
    case False
    with less.prems obtain s1 where s1: "restctl_step sw sv s s1" "way s1 < way s" "Listed s1 = Listed s" "outlook sv s1 = outlook sv s"
      using next_step [of s sw sv] by (auto simp: in_transit_def)
    obtain s' where "(restctl_step sw sv)\<^sup>*\<^sup>* s1 s'" "Listed s' = Listed s1" "Handled s' = Listed s1" "Cluster s' = outlook sv s1"
      using less.hyps [OF s1(2) step_in_transit [OF s1(1) less.prems]] by blast
    with s1 show ?thesis by (metis converse_rtranclp_into_rtranclp)
  qed
qed


text \<open>A daemon with one connection that is configured and not up, and no VICI socket to wait for.\<close>

definition idle_ast :: swan_ast where
  "idle_ast = [\<lparr>se_Command = ''list-conn'', se_Name = ''event'', se_Conn = [\<lparr>sc_Name = ''c'', sc_Body = []\<rparr>]\<rparr>]"

definition idle_swan :: "unit swan" where
  "idle_swan = \<lparr>sw_run = (\<lambda>args w. (Some (hd args), w)), sw_parse = (\<lambda>out. Some (if out = ''--list-conns'' then idle_ast else []))\<rparr>"

lemma idle_turn: "monitor_turn idle_swan () = ([\<lparr>fi_Connection = ''c'', fi_Child = []\<rparr>], ())"
  by code_simp

definition started :: "(unit, store) restctl_run" where
  "started = \<lparr>Daemon = (), Cluster = sample_store, Unsent = [], Channel = [], Received = None, Listed = [], Handled = []\<rparr>"

lemma started_main:
  "restctl_main True (\<lambda>_. Some [''charon.vici'']) (\<lambda>_. True) [] (\<lambda>_. ''/run/'') True () sample_store = Some (Ok started)"
proof -
  have "waitForViciSock (\<lambda>_. Some [''charon.vici'']) (\<lambda>_. True) [] ''/run/'' = Some (Ok ())" by code_simp
  then show ?thesis by (simp add: restctl_main_def started_def)
qed


end
