(* ===== verification/Xfrminion_Props.thy ===== *)
theory Xfrminion_Props
  imports Xfrminion Exec_Store
begin

text \<open>
  The routes in the kernel of the xfrm pod against the routes that the controller records in the
  pod's annotation. The interface \<open>kernel_routes\<close> states what the handlers need of the kernel; the
  kernel over lists, \<open>map_kernel\<close>, provides it.
\<close>

section \<open>A table of routes\<close>

text \<open>
  A route is refused as existing when any link has one to the same network, and removed when it
  is there; the links stay as they are.
\<close>

locale kernel_routes =
  fixes kn :: "'k netlink" and links :: "'k \<Rightarrow> link list" and table :: "'k \<Rightarrow> route set"
  assumes list: "kn_LinkList kn k = (Ok (links k), k)"
    and add: "\<exists>k'. kn_RouteAdd kn r k = (if \<exists>q \<in> table k. rt_Dst q = rt_Dst r then Err FileExists else Ok (), k')
      \<and> links k' = links k \<and> table k' = (if \<exists>q \<in> table k. rt_Dst q = rt_Dst r then table k else insert r (table k))"
    and del: "r \<in> table k \<Longrightarrow> \<exists>k'. kn_RouteDel kn r k = (Ok (), k') \<and> links k' = links k \<and> table k' = table k - {r}"
begin

lemma list_run: "bnd (or_400 (kn_LinkList kn)) g k = g (links k) k"
  unfolding or_400_def by (rule bnd_call(1)) (rule list)

lemma add_run: "\<exists>k'. unless_exists (kn_RouteAdd kn r) k = Some (Ok (), k') \<and> links k' = links k
    \<and> table k' = (if \<exists>q \<in> table k. rt_Dst q = rt_Dst r then table k else insert r (table k))"
  using add [of r k] by (auto simp: unless_exists_def bnd_def attempt_def ret_def)

lemma del_run:
  assumes "r \<in> table k"
  shows "\<exists>k'. or_400 (kn_RouteDel kn r) k = Some (Ok (), k') \<and> links k' = links k \<and> table k' = table k - {r}"
    "\<exists>k'. unless_exists (kn_RouteDel kn r) k = Some (Ok (), k') \<and> links k' = links k \<and> table k' = table k - {r}"
  using del [OF assms] by (auto simp: unless_exists_def or_400_def bnd_def attempt_def call_def ret_def)

lemma parse_run: "ParseCIDR s = Some (b, n) \<Longrightarrow> bnd (parse_dst s) g k = g n k"
  by (simp add: parse_dst_def)

lemma route_runs:
  assumes "last_link ''vxlan'' (links k) = Some v" "last_link ''xfrm'' (links k) = Some x" "ParseCIDR s = Some (b, n)"
  defines "loc \<equiv> \<lparr>rt_LinkIndex = lk_Index v, rt_Dst = Some n\<rparr>" and "rem \<equiv> \<lparr>rt_LinkIndex = lk_Index x, rt_Dst = Some n\<rparr>"
  shows "xfrminion kn (route_request (AddLocalRouteAction s p)) k = unless_exists (kn_RouteAdd kn loc) k"
    "xfrminion kn (route_request (AddRemoteRouteAction s p)) k = unless_exists (kn_RouteAdd kn rem) k"
    "xfrminion kn (route_request (DeleteLocalRouteAction s p)) k = or_400 (kn_RouteDel kn loc) k"
    "xfrminion kn (route_request (DeleteRemoteRouteAction s p)) k = unless_exists (kn_RouteDel kn rem) k"
  using assms(1,2) unfolding loc_def rem_def
  by (simp_all add: xfrminion_def addLocalRoute_def addRemoteRoute_def deleteLocalRoute_def deleteRemoteRoute_def
      read_request_def list_run parse_run [OF assms(3)])

end

section \<open>A kernel over lists\<close>

record kernel =
  ks_Links :: "link list"
  ks_Routes :: "route list"

definition map_kernel :: "kernel netlink" where
  "map_kernel = \<lparr>
     kn_LinkList = (\<lambda>k. (Ok (ks_Links k), k)),
     kn_LinkByName = (\<lambda>n k. (case find (\<lambda>l. lk_Name l = n) (ks_Links k) of
        Some l \<Rightarrow> Ok l | None \<Rightarrow> Err (KernelError ''Link not found''), k)),
     kn_LinkAdd = (\<lambda>v k. (Ok (), k\<lparr>ks_Links := ks_Links k
        @ [\<lparr>lk_Type = ''vxlan'', lk_Name = vx_Name v, lk_Index = int (length (ks_Links k)) + 1\<rparr>]\<rparr>)),
     kn_LinkSetUp = (\<lambda>_ k. (Ok (), k)),
     kn_AddrList = (\<lambda>_ k. (Ok [], k)),
     kn_AddrAdd = (\<lambda>_ _ k. (Ok (), k)),
     kn_RouteList = (\<lambda>l k. (Ok (filter (\<lambda>r. rt_LinkIndex r = lk_Index l) (ks_Routes k)), k)),
     kn_RouteAdd = (\<lambda>r k. if list_ex (\<lambda>q. rt_Dst q = rt_Dst r) (ks_Routes k) then (Err FileExists, k)
        else (Ok (), k\<lparr>ks_Routes := r # ks_Routes k\<rparr>)),
     kn_RouteDel = (\<lambda>r k. if list_contains (ks_Routes k) r
        then (Ok (), k\<lparr>ks_Routes := filter (\<lambda>q. q \<noteq> r) (ks_Routes k)\<rparr>) else (Err (KernelError ''no such process''), k)),
     kn_run = (\<lambda>_ k. (([], True), k))\<rparr>"

interpretation map_kernel: kernel_routes map_kernel ks_Links "\<lambda>k. set (ks_Routes k)"
  by unfold_locales (auto simp: map_kernel_def list_ex_iff)

section \<open>Recorded routes and routes in the kernel\<close>

definition cidr_net :: "string \<Rightarrow> ip_net option" where
  "cidr_net s = map_option snd (ParseCIDR s)"

definition routes_on :: "route set \<Rightarrow> int \<Rightarrow> ip_net option set" where
  "routes_on T i = rt_Dst ` {r \<in> T. rt_LinkIndex r = i}"

text \<open>The links of the pod have exactly the routes to the recorded networks.\<close>

definition in_kernel :: "link list \<Rightarrow> route set \<Rightarrow> int \<Rightarrow> int \<Rightarrow> routes \<Rightarrow> bool" where
  "in_kernel ls T i j rs \<longleftrightarrow> i \<noteq> j \<and> map_option lk_Index (last_link ''vxlan'' ls) = Some i
     \<and> map_option lk_Index (last_link ''xfrm'' ls) = Some j
     \<and> routes_on T i = cidr_net ` set (elems (Local rs)) \<and> routes_on T j = cidr_net ` set (elems (Remote rs))"

text \<open>Networks that no other link has a route to, and that no two of the strings share.\<close>

definition separate :: "route set \<Rightarrow> int \<Rightarrow> int \<Rightarrow> string set \<Rightarrow> string set \<Rightarrow> bool" where
  "separate T i j SL SR \<longleftrightarrow> SL \<inter> SR = {} \<and> inj_on cidr_net (SL \<union> SR) \<and> (\<forall>s \<in> SL \<union> SR. ParseCIDR s \<noteq> None)
     \<and> (\<forall>r \<in> T. rt_Dst r \<in> cidr_net ` (SL \<union> SR) \<longrightarrow> rt_LinkIndex r \<in> {i, j})"

lemma separate_grow:
  assumes "separate T i j SL SR" "\<forall>r \<in> T'. r \<in> T \<or> rt_LinkIndex r \<in> {i, j}"
  shows "separate T' i j SL SR"
proof -
  have "rt_LinkIndex r \<in> {i, j}" if r: "r \<in> T'" "rt_Dst r \<in> cidr_net ` (SL \<union> SR)" for r
  proof (cases "r \<in> T")
    case True
    then show ?thesis using assms(1) r(2) unfolding separate_def by blast
  next
    case False
    then show ?thesis using assms(2) r(1) by blast
  qed
  then show ?thesis using assms(1) unfolding separate_def by simp
qed

text \<open>Route actions with local and remote routes from two sets, that delete only what is recorded.\<close>

fun route_ops :: "string set \<Rightarrow> string set \<Rightarrow> routes \<Rightarrow> action list \<Rightarrow> bool" where
  "route_ops SL SR rs [] = True"
| "route_ops SL SR rs (a # as) \<longleftrightarrow> (case a of
      AddLocalRouteAction s _ \<Rightarrow> s \<in> SL
    | AddRemoteRouteAction s _ \<Rightarrow> s \<in> SR
    | DeleteLocalRouteAction s _ \<Rightarrow> s \<in> set (elems (Local rs))
    | DeleteRemoteRouteAction s _ \<Rightarrow> s \<in> set (elems (Remote rs))
    | _ \<Rightarrow> False) \<and> route_ops SL SR (route_step a rs) as"

lemma routes_on_iff: "d \<in> routes_on T i \<longleftrightarrow> \<lparr>rt_LinkIndex = i, rt_Dst = d\<rparr> \<in> T"
proof
  assume "d \<in> routes_on T i"
  then obtain r where "r \<in> T" "rt_LinkIndex r = i" "rt_Dst r = d" by (auto simp: routes_on_def)
  then show "\<lparr>rt_LinkIndex = i, rt_Dst = d\<rparr> \<in> T" by (cases r) simp
qed (force simp: routes_on_def)

lemma routes_on_insert: "routes_on (insert r T) i = (if rt_LinkIndex r = i then insert (rt_Dst r) (routes_on T i) else routes_on T i)"
  by (auto simp: routes_on_def)

lemma routes_on_remove:
  "routes_on (T - {\<lparr>rt_LinkIndex = i, rt_Dst = d\<rparr>}) j = (if j = i then routes_on T i - {d} else routes_on T j)"
  by (auto simp: routes_on_iff)

lemma add_keeps:
  assumes "routes_on T i = cidr_net ` A" "routes_on T j = cidr_net ` B" "i \<noteq> j" "s \<in> S" "A \<subseteq> S" "B \<inter> S = {}"
    and "inj_on cidr_net (S \<union> B)" "\<forall>r \<in> T. rt_Dst r = cidr_net s \<longrightarrow> rt_LinkIndex r \<in> {i, j}"
    and "r = \<lparr>rt_LinkIndex = i, rt_Dst = cidr_net s\<rparr>" "T' = (if \<exists>q \<in> T. rt_Dst q = rt_Dst r then T else insert r T)"
  shows "routes_on T' i = cidr_net ` insert s A" "routes_on T' j = cidr_net ` B"
proof -
  have "cidr_net s \<in> cidr_net ` A" if "\<exists>q \<in> T. rt_Dst q = rt_Dst r"
  proof -
    from that obtain q where q: "q \<in> T" "rt_Dst q = cidr_net s" using assms(9) by auto
    then have "cidr_net s \<in> routes_on T i \<or> cidr_net s \<in> routes_on T j"
      using assms(8) by (force simp: routes_on_def)
    moreover have "cidr_net s \<notin> cidr_net ` B" using assms(4,6,7) by (auto simp: inj_on_def)
    ultimately show ?thesis using assms(1,2) by auto
  qed
  then show "routes_on T' i = cidr_net ` insert s A" "routes_on T' j = cidr_net ` B"
    using assms(1-3,9,10) by (auto simp: routes_on_insert)
qed

lemma del_keeps:
  assumes "routes_on T i = cidr_net ` A" "routes_on T j = cidr_net ` B" "i \<noteq> j" "s \<in> A" "inj_on cidr_net A"
    and "T' = T - {\<lparr>rt_LinkIndex = i, rt_Dst = cidr_net s\<rparr>}"
  shows "routes_on T' i = cidr_net ` (A - {s})" "routes_on T' j = cidr_net ` B"
  using assms by (auto simp: routes_on_remove inj_on_def)

lemma del_recorded: "routes_on T i = cidr_net ` A \<Longrightarrow> s \<in> A \<Longrightarrow> \<lparr>rt_LinkIndex = i, rt_Dst = cidr_net s\<rparr> \<in> T"
  using routes_on_iff [of "cidr_net s" T i] by auto

text \<open>One action, on the side of the kernel and on the side of the annotation.\<close>

lemma route_action:
  assumes "kernel_routes kn links table" "in_kernel (links k) (table k) i j rs" "separate (table k) i j SL SR"
    and "set (elems (Local rs)) \<subseteq> SL" "set (elems (Remote rs)) \<subseteq> SR" "route_ops SL SR rs [a]"
  shows "\<exists>k'. xfrminion kn (route_request a) k = Some (Ok (), k') \<and> in_kernel (links k') (table k') i j (route_step a rs)
    \<and> separate (table k') i j SL SR
    \<and> set (elems (Local (route_step a rs))) \<subseteq> SL \<and> set (elems (Remote (route_step a rs))) \<subseteq> SR"
proof -
  obtain v x where vx: "last_link ''vxlan'' (links k) = Some v" "last_link ''xfrm'' (links k) = Some x"
    and ij: "lk_Index v = i" "lk_Index x = j" "i \<noteq> j" "j \<noteq> i" and on: "routes_on (table k) i = cidr_net ` set (elems (Local rs))"
    "routes_on (table k) j = cidr_net ` set (elems (Remote rs))"
    using assms(2) by (auto simp: in_kernel_def)
  have S: "SL \<inter> SR = {}" "inj_on cidr_net (SL \<union> SR)" "\<forall>s \<in> SL \<union> SR. ParseCIDR s \<noteq> None"
    "\<forall>r \<in> table k. rt_Dst r \<in> cidr_net ` (SL \<union> SR) \<longrightarrow> rt_LinkIndex r \<in> {i, j}"
    using assms(3) by (simp_all add: separate_def)
  have finish: "\<exists>k'. xfrminion kn (route_request a) k = Some (Ok (), k') \<and> in_kernel (links k') (table k') i j (route_step a rs)
      \<and> separate (table k') i j SL SR
      \<and> set (elems (Local (route_step a rs))) \<subseteq> SL \<and> set (elems (Remote (route_step a rs))) \<subseteq> SR"
    if "xfrminion kn (route_request a) k = Some (Ok (), k')" "links k' = links k"
      "\<forall>r \<in> table k'. r \<in> table k \<or> rt_LinkIndex r \<in> {i, j}"
      "routes_on (table k') i = cidr_net ` set (elems (Local (route_step a rs)))"
      "routes_on (table k') j = cidr_net ` set (elems (Remote (route_step a rs)))"
      "set (elems (Local (route_step a rs))) \<subseteq> SL" "set (elems (Remote (route_step a rs))) \<subseteq> SR" for k'
  proof -
    have "separate (table k') i j SL SR" using assms(3) that(3) by (rule separate_grow)
    moreover have "in_kernel (links k') (table k') i j (route_step a rs)"
      unfolding in_kernel_def that(2,4,5) using vx ij by simp
    ultimately show ?thesis using that(1,6,7) by (intro exI [of _ k'] conjI)
  qed
  have only: "rt_LinkIndex r \<in> {i, j}" if "r \<in> table k" "rt_Dst r = cidr_net s" "s \<in> SL \<union> SR" for r s
    using S(4) that by blast
  have parsed: "\<exists>b n. ParseCIDR s = Some (b, n) \<and> cidr_net s = Some n" if "s \<in> SL \<union> SR" for s
  proof -
    have "ParseCIDR s \<noteq> None" using S(3) that by blast
    then show ?thesis by (cases "ParseCIDR s") (auto simp: cidr_net_def)
  qed
  have fresh: "set (elems (Local rs)) \<inter> SR = {}" "set (elems (Remote rs)) \<inter> SL = {}" using assms(4,5) S(1) by blast+
  have inj: "inj_on cidr_net (SL \<union> set (elems (Remote rs)))" "inj_on cidr_net (SR \<union> set (elems (Local rs)))"
    using assms(4,5) by (auto intro: inj_on_subset [OF S(2)])
  note kr = assms(1) and runs = kernel_routes.route_runs [OF assms(1) vx, unfolded ij]
  consider s p where "a = AddLocalRouteAction s p" "s \<in> SL" | s p where "a = AddRemoteRouteAction s p" "s \<in> SR"
    | s p where "a = DeleteLocalRouteAction s p" "s \<in> set (elems (Local rs))"
    | s p where "a = DeleteRemoteRouteAction s p" "s \<in> set (elems (Remote rs))"
    using assms(6) by (cases a) auto
  then show ?thesis
  proof cases
    case (1 s p)
    then obtain b n where n: "ParseCIDR s = Some (b, n)" "cidr_net s = Some n" using parsed by blast
    obtain k' where k': "unless_exists (kn_RouteAdd kn \<lparr>rt_LinkIndex = i, rt_Dst = Some n\<rparr>) k = Some (Ok (), k')"
      "links k' = links k" "table k' = (if \<exists>q \<in> table k. rt_Dst q = rt_Dst \<lparr>rt_LinkIndex = i, rt_Dst = Some n\<rparr>
        then table k else insert \<lparr>rt_LinkIndex = i, rt_Dst = Some n\<rparr> (table k))"
      using kernel_routes.add_run [OF kr] by blast
    have near: "\<forall>r \<in> table k. rt_Dst r = cidr_net s \<longrightarrow> rt_LinkIndex r \<in> {i, j}" using only 1(2) by blast
    note keep = add_keeps [OF on ij(3) 1(2) assms(4) fresh(2) inj(1) near refl, unfolded n(2), OF k'(3)]
    have "xfrminion kn (route_request a) k = Some (Ok (), k')" unfolding 1(1) runs(1) [OF n(1)] by (rule k'(1))
    then show ?thesis using keep
      by (intro finish [OF _ k'(2)]) (use 1 assms(4,5) k'(3) in \<open>auto simp: set_diff_eq split: if_splits\<close>)
  next
    case (2 s p)
    then obtain b n where n: "ParseCIDR s = Some (b, n)" "cidr_net s = Some n" using parsed by blast
    obtain k' where k': "unless_exists (kn_RouteAdd kn \<lparr>rt_LinkIndex = j, rt_Dst = Some n\<rparr>) k = Some (Ok (), k')"
      "links k' = links k" "table k' = (if \<exists>q \<in> table k. rt_Dst q = rt_Dst \<lparr>rt_LinkIndex = j, rt_Dst = Some n\<rparr>
        then table k else insert \<lparr>rt_LinkIndex = j, rt_Dst = Some n\<rparr> (table k))"
      using kernel_routes.add_run [OF kr] by blast
    have near: "\<forall>r \<in> table k. rt_Dst r = cidr_net s \<longrightarrow> rt_LinkIndex r \<in> {j, i}" using only 2(2) by blast
    note keep = add_keeps [OF on(2,1) ij(4) 2(2) assms(5) fresh(1) inj(2) near refl, unfolded n(2), OF k'(3)]
    have "xfrminion kn (route_request a) k = Some (Ok (), k')" unfolding 2(1) runs(2) [OF n(1)] by (rule k'(1))
    then show ?thesis using keep
      by (intro finish [OF _ k'(2)]) (use 2 assms(4,5) k'(3) in \<open>auto simp: set_diff_eq split: if_splits\<close>)
  next
    case (3 s p)
    then obtain b n where n: "ParseCIDR s = Some (b, n)" "cidr_net s = Some n" using parsed assms(4) by blast
    note here = del_recorded [OF on(1) 3(2), unfolded n(2)]
    obtain k' where k': "or_400 (kn_RouteDel kn \<lparr>rt_LinkIndex = i, rt_Dst = Some n\<rparr>) k = Some (Ok (), k')"
      "links k' = links k" "table k' = table k - {\<lparr>rt_LinkIndex = i, rt_Dst = Some n\<rparr>}"
      using kernel_routes.del_run(1) [OF kr here] by blast
    note keep = del_keeps [OF on ij(3) 3(2) inj_on_subset [OF inj(2) Un_upper2], unfolded n(2), OF k'(3)]
    have "xfrminion kn (route_request a) k = Some (Ok (), k')" unfolding 3(1) runs(3) [OF n(1)] by (rule k'(1))
    then show ?thesis using keep
      by (intro finish [OF _ k'(2)]) (use 3 assms(4,5) k'(3) in \<open>auto simp: set_diff_eq split: if_splits\<close>)
  next
    case (4 s p)
    then obtain b n where n: "ParseCIDR s = Some (b, n)" "cidr_net s = Some n" using parsed assms(5) by blast
    note here = del_recorded [OF on(2) 4(2), unfolded n(2)]
    obtain k' where k': "unless_exists (kn_RouteDel kn \<lparr>rt_LinkIndex = j, rt_Dst = Some n\<rparr>) k = Some (Ok (), k')"
      "links k' = links k" "table k' = table k - {\<lparr>rt_LinkIndex = j, rt_Dst = Some n\<rparr>}"
      using kernel_routes.del_run(2) [OF kr here] by blast
    note keep = del_keeps [OF on(2,1) ij(4) 4(2) inj_on_subset [OF inj(1) Un_upper2], unfolded n(2), OF k'(3)]
    have "xfrminion kn (route_request a) k = Some (Ok (), k')" unfolding 4(1) runs(4) [OF n(1)] by (rule k'(1))
    then show ?thesis using keep
      by (intro finish [OF _ k'(2)]) (use 4 assms(4,5) k'(3) in \<open>auto simp: set_diff_eq split: if_splits\<close>)
  qed
qed

lemma route_actions:
  assumes "kernel_routes kn links table" "in_kernel (links k) (table k) i j rs" "separate (table k) i j SL SR"
    and "set (elems (Local rs)) \<subseteq> SL" "set (elems (Remote rs)) \<subseteq> SR" "route_ops SL SR rs acts"
  shows "\<exists>k'. in_order (\<lambda>a. xfrminion kn (route_request a)) acts k = Some (Ok (), k')
    \<and> in_kernel (links k') (table k') i j (run_routes acts rs)"
  using assms(2-)
proof (induction acts arbitrary: k rs)
  case (Cons a acts)
  have "route_ops SL SR rs [a]" "route_ops SL SR (route_step a rs) acts" using Cons.prems(5) by simp_all
  with route_action [OF assms(1) Cons.prems(1-4)] Cons.IH show ?case
    by (fastforce simp: bnd_Some)
qed simp

text \<open>
  The kernel of the xfrm pod follows the annotation: as long as the route strings in play are
  CIDRs of pairwise different networks that no other link has a route to, and only recorded routes
  are deleted, the xfrminion handlers answer every request of the route actions with success, and
  the VXLAN link then has exactly the routes to the recorded local networks, the xfrm link exactly
  those to the recorded remote ones.
\<close>

theorem kernel_follows_routes:
  assumes "kernel_routes kn links table" "in_kernel (links k) (table k) i j rs" "separate (table k) i j SL SR"
    and "set (elems (Local rs)) \<subseteq> SL" "set (elems (Remote rs)) \<subseteq> SR" "route_ops SL SR rs acts"
  shows "\<exists>k'. in_order (\<lambda>a. xfrminion kn (route_request a)) acts k = Some (Ok (), k')
    \<and> in_kernel (links k') (table k') i j (run_routes acts rs)"
  by (rule route_actions [OF assms])

definition sample_kernel :: kernel where
  "sample_kernel = \<lparr>ks_Links = [\<lparr>lk_Type = ''device'', lk_Name = ''eth0'', lk_Index = 2\<rparr>,
     \<lparr>lk_Type = ''xfrm'', lk_Name = ''xfrm7'', lk_Index = 3\<rparr>, \<lparr>lk_Type = ''vxlan'', lk_Name = ''vxlan7'', lk_Index = 4\<rparr>],
     ks_Routes = []\<rparr>"

lemma sample_links: "last_link ''vxlan'' (ks_Links sample_kernel) = Some \<lparr>lk_Type = ''vxlan'', lk_Name = ''vxlan7'', lk_Index = 4\<rparr>"
  "last_link ''xfrm'' (ks_Links sample_kernel) = Some \<lparr>lk_Type = ''xfrm'', lk_Name = ''xfrm7'', lk_Index = 3\<rparr>"
  by (simp_all add: last_link_def sample_kernel_def)

lemma sample_cidrs:
  "ParseCIDR ''10.0.1.0/24'' = Some (v4_prefix @ [10, 0, 1, 0], \<lparr>net_IP = [10, 0, 1, 0], net_Mask = [255, 255, 255, 0]\<rparr>)"
  "ParseCIDR ''10.0.1.9/24'' = Some (v4_prefix @ [10, 0, 1, 9], \<lparr>net_IP = [10, 0, 1, 0], net_Mask = [255, 255, 255, 0]\<rparr>)"
  "ParseCIDR ''10.9.0.0/16'' = Some (v4_prefix @ [10, 9, 0, 0], \<lparr>net_IP = [10, 9, 0, 0], net_Mask = [255, 255, 0, 0]\<rparr>)"
  by (simp_all add: eval_cidr ip_mask_def and_bytes_def v4_prefix_def)

theorem kernel_follows_routes_witness:
  "\<exists>k'. in_order (\<lambda>a. xfrminion map_kernel (route_request a))
      [AddLocalRouteAction ''10.0.1.0/24'' sample_xfrm_pod, AddRemoteRouteAction ''10.9.0.0/16'' sample_xfrm_pod,
       DeleteLocalRouteAction ''10.0.1.0/24'' sample_xfrm_pod] sample_kernel = Some (Ok (), k')
    \<and> in_kernel (ks_Links k') (set (ks_Routes k')) 4 3 \<lparr>Local = Some [], Remote = Some [''10.9.0.0/16''], BridgeFDB = None\<rparr>"
proof -
  let ?acts = "[AddLocalRouteAction ''10.0.1.0/24'' sample_xfrm_pod, AddRemoteRouteAction ''10.9.0.0/16'' sample_xfrm_pod,
    DeleteLocalRouteAction ''10.0.1.0/24'' sample_xfrm_pod]"
  let ?rs = "\<lparr>Local = None, Remote = None, BridgeFDB = None\<rparr>"
  have "in_kernel (ks_Links sample_kernel) (set (ks_Routes sample_kernel)) 4 3 ?rs"
    by (simp add: in_kernel_def sample_links) (simp add: routes_on_def sample_kernel_def)
  moreover have "separate (set (ks_Routes sample_kernel)) 4 3 {''10.0.1.0/24''} {''10.9.0.0/16''}"
    by (simp add: separate_def cidr_net_def sample_cidrs) (simp add: sample_kernel_def)
  moreover have "route_ops {''10.0.1.0/24''} {''10.9.0.0/16''} ?rs ?acts"
    by (simp add: slice_append_def slice_sort_def)
  moreover have "run_routes ?acts ?rs = \<lparr>Local = Some [], Remote = Some [''10.9.0.0/16''], BridgeFDB = None\<rparr>"
    by (simp add: slice_append_def slice_sort_def slice_delete_func_def)
  ultimately show ?thesis
    using kernel_follows_routes [OF map_kernel.kernel_routes_axioms, of sample_kernel 4 3 ?rs "{''10.0.1.0/24''}" "{''10.9.0.0/16''}" ?acts]
    by simp
qed

text \<open>
  The hypothesis on the networks is needed: nothing in the program keeps two recorded routes from
  naming the same network, and deleting one of them removes the route that the other stands for.
\<close>

lemma shared_network_lost:
  fixes x :: xfrm_pod
  defines "acts \<equiv> [AddLocalRouteAction ''10.0.1.0/24'' x, AddLocalRouteAction ''10.0.1.9/24'' x, DeleteLocalRouteAction ''10.0.1.0/24'' x]"
  shows "\<exists>k'. in_order (\<lambda>a. xfrminion map_kernel (route_request a)) acts sample_kernel = Some (Ok (), k')
      \<and> ks_Routes k' = []"
    "Local (run_routes acts \<lparr>Local = None, Remote = None, BridgeFDB = None\<rparr>) = Some [''10.0.1.9/24'']"
proof -
  let ?n = "\<lparr>net_IP = [10, 0, 1, 0], net_Mask = [255, 255, 255, 0]\<rparr>"
  have l: "last_link ''vxlan'' (ks_Links k) = Some \<lparr>lk_Type = ''vxlan'', lk_Name = ''vxlan7'', lk_Index = 4\<rparr>"
    "last_link ''xfrm'' (ks_Links k) = Some \<lparr>lk_Type = ''xfrm'', lk_Name = ''xfrm7'', lk_Index = 3\<rparr>"
    if "ks_Links k = ks_Links sample_kernel" for k using that sample_links by simp_all
  note runs = map_kernel.route_runs [OF l sample_cidrs(1)] map_kernel.route_runs [OF l sample_cidrs(2)]
  let ?k = "sample_kernel\<lparr>ks_Routes := [\<lparr>rt_LinkIndex = 4, rt_Dst = Some ?n\<rparr>]\<rparr>"
  have e: "xfrminion map_kernel (route_request (AddLocalRouteAction ''10.0.1.0/24'' x)) sample_kernel = Some (Ok (), ?k)"
    "xfrminion map_kernel (route_request (AddLocalRouteAction ''10.0.1.9/24'' x)) ?k = Some (Ok (), ?k)"
    "xfrminion map_kernel (route_request (DeleteLocalRouteAction ''10.0.1.0/24'' x)) ?k = Some (Ok (), sample_kernel)"
    using runs [of sample_kernel] runs [of ?k]
    by (simp_all add: unless_exists_def or_400_def bnd_def attempt_def call_def ret_def map_kernel_def sample_kernel_def)
  show "\<exists>k'. in_order (\<lambda>a. xfrminion map_kernel (route_request a)) acts sample_kernel = Some (Ok (), k') \<and> ks_Routes k' = []"
    unfolding acts_def by (simp add: bnd_def e del: route_request.simps) (simp add: sample_kernel_def)
  show "Local (run_routes acts \<lparr>Local = None, Remote = None, BridgeFDB = None\<rparr>) = Some [''10.0.1.9/24'']"
    by (simp add: acts_def slice_append_def slice_sort_def slice_delete_func_def)
qed

end
