(* ===== verification/Exporter.thy ===== *)
theory Exporter
  imports Go_Strings
begin

text \<open>
  The Prometheus collector of the restctl pod, \<open>cmd/restctl/exporter.go\<close> and \<open>struct.go\<close>: the
  descriptors with their labels and the metrics that a collection sends. What the daemon answers
  is a parameter. A metric has the value before its conversion to a floating-point number;
  \<open>MustNewConstMetric\<close> panics on a wrong number of labels.
\<close>

section \<open>Descriptors\<close>

datatype desc =
    ikeCnt | ikeConnCnt | ikeVersion | ikeState | ikeInitiator | ikeNatRemote | ikeNatFake | ikeEncKeysize
  | ikeIntegKeysize | ikeEstablishSecs | ikeRekeySecs | ikeReauthSecs | ikeChildren
  | saDuplicateConnCount | saDuplicateChildCount | saEncap | saEncKeysize | saIntegKeysize | saBytesIn
  | saPacketsIn | saLastInSecs | saBytesOut | saPacketsOut | saLastOutSecs | saEstablishSecs | saRekeySecs
  | saLifetimeSecs | connectionsLoadedCnt | childrenLoadedCnt | connectionsLoaded | childrenLoaded

fun desc_name :: "desc \<Rightarrow> string" where
  "desc_name ikeCnt = ''strongswan_number_of_known_ikes''"
| "desc_name ikeConnCnt = ''strongswan_number_of_ikes_connected''"
| "desc_name connectionsLoadedCnt = ''strongswan_number_of_connections_loaded''"
| "desc_name connectionsLoaded = ''strongswan_connections_loaded''"
| "desc_name childrenLoaded = ''strongswan_children_loaded''"
| "desc_name childrenLoadedCnt = ''strongswan_number_of_children_loaded''"
| "desc_name ikeVersion = ''strongswan_ike_version''"
| "desc_name ikeState = ''strongswan_ike_state''"
| "desc_name ikeInitiator = ''strongswan_ike_initiator''"
| "desc_name ikeNatRemote = ''strongswan_ike_nat_remote''"
| "desc_name ikeNatFake = ''strongswan_ike_nat_fake''"
| "desc_name ikeEncKeysize = ''strongswan_ike_encryption_keysize''"
| "desc_name ikeIntegKeysize = ''strongswan_ike_integrity_keysize''"
| "desc_name ikeEstablishSecs = ''strongswan_ike_established_second''"
| "desc_name ikeRekeySecs = ''strongswan_ike_rekey_second''"
| "desc_name ikeReauthSecs = ''strongswan_ike_reauth_second''"
| "desc_name ikeChildren = ''strongswan_ike_children''"
| "desc_name saDuplicateConnCount = ''strongswan_ike_dupes''"
| "desc_name saDuplicateChildCount = ''strongswan_sa_dupes''"
| "desc_name saEncap = ''strongswan_sa_encap''"
| "desc_name saEncKeysize = ''strongswan_sa_encryption_keysize''"
| "desc_name saIntegKeysize = ''strongswan_sa_integrity_keysize''"
| "desc_name saBytesIn = ''strongswan_sa_bytes_inbound''"
| "desc_name saPacketsIn = ''strongswan_sa_packets_inbound''"
| "desc_name saLastInSecs = ''strongswan_sa_last_inbound_seconds''"
| "desc_name saBytesOut = ''strongswan_sa_bytes_outbound''"
| "desc_name saPacketsOut = ''strongswan_sa_packets_outbound''"
| "desc_name saLastOutSecs = ''strongswan_sa_last_outbound_seconds''"
| "desc_name saEstablishSecs = ''strongswan_sa_established_second''"
| "desc_name saRekeySecs = ''strongswan_sa_rekey_second''"
| "desc_name saLifetimeSecs = ''strongswan_sa_lifetime_second''"

definition ike_labels :: "string list" where
  "ike_labels = [''name'', ''state'']"

definition sa_labels :: "string list" where
  "sa_labels = [''ike_name'', ''ike_state'', ''child_name'', ''child_state'']"

definition alg_labels :: "string list" where
  "alg_labels = [''algorithm'', ''dh_group'']"

definition ts_labels :: "string list" where
  "ts_labels = [''localTS'', ''remoteTS'']"

fun desc_labels :: "desc \<Rightarrow> string list" where
  "desc_labels ikeCnt = []"
| "desc_labels ikeConnCnt = []"
| "desc_labels connectionsLoadedCnt = []"
| "desc_labels childrenLoadedCnt = []"
| "desc_labels connectionsLoaded = [''conn_name'']"
| "desc_labels saDuplicateConnCount = [''conn_name'']"
| "desc_labels childrenLoaded = [''child_name'', ''conn_name'']"
| "desc_labels saDuplicateChildCount = [''conn_name'', ''child_name'']"
| "desc_labels ikeEncKeysize = ike_labels @ alg_labels"
| "desc_labels ikeIntegKeysize = ike_labels @ alg_labels"
| "desc_labels ikeVersion = ike_labels"
| "desc_labels ikeState = ike_labels"
| "desc_labels ikeInitiator = ike_labels"
| "desc_labels ikeNatRemote = ike_labels"
| "desc_labels ikeNatFake = ike_labels"
| "desc_labels ikeEstablishSecs = ike_labels"
| "desc_labels ikeRekeySecs = ike_labels"
| "desc_labels ikeReauthSecs = ike_labels"
| "desc_labels ikeChildren = ike_labels"
| "desc_labels saEncKeysize = sa_labels @ alg_labels"
| "desc_labels saIntegKeysize = sa_labels @ alg_labels"
| "desc_labels saBytesIn = sa_labels @ ts_labels"
| "desc_labels saPacketsIn = sa_labels @ ts_labels"
| "desc_labels saLastInSecs = sa_labels @ ts_labels"
| "desc_labels saBytesOut = sa_labels @ ts_labels"
| "desc_labels saPacketsOut = sa_labels @ ts_labels"
| "desc_labels saLastOutSecs = sa_labels @ ts_labels"
| "desc_labels saEncap = sa_labels"
| "desc_labels saEstablishSecs = sa_labels"
| "desc_labels saRekeySecs = sa_labels"
| "desc_labels saLifetimeSecs = sa_labels"

definition Describe :: "desc list" where
  "Describe = [ikeCnt, ikeConnCnt, ikeVersion, ikeState, ikeInitiator, ikeNatRemote, ikeNatFake, ikeEncKeysize,
     ikeIntegKeysize, ikeEstablishSecs, ikeRekeySecs, ikeReauthSecs, ikeChildren, saEncap, saEncKeysize,
     saIntegKeysize, saBytesIn, saPacketsIn, saLastInSecs, saBytesOut, saPacketsOut, saLastOutSecs,
     saEstablishSecs, saRekeySecs, saLifetimeSecs, connectionsLoadedCnt, connectionsLoaded, childrenLoadedCnt,
     childrenLoaded]"

section \<open>What the daemon answers\<close>

record loaded_child =
  lc_Name :: string
  lc_UniqueId :: string
  lc_State :: string
  lc_Encap :: string
  lc_EncAlg :: string
  lc_EncKey :: int
  lc_IntegAlg :: string
  lc_IntegKey :: int
  lc_DHGroup :: string
  BytesIn :: int
  PacketsIn :: int
  LastInSec :: int
  BytesOut :: int
  PacketsOut :: int
  LastOutSec :: int
  lc_EstablishSec :: int
  lc_RekeySec :: int
  LifetimeSec :: int
  lc_LocalTS :: "string list"
  lc_RemoteTS :: "string list"

record loaded_ike =
  li_Name :: string
  li_UniqueId :: string
  li_Version :: int
  li_State :: string
  Initiator :: string
  NatRemote :: string
  NatFake :: string
  li_EncAlg :: string
  li_EncKey :: int
  li_IntegAlg :: string
  li_IntegKey :: int
  li_DHGroup :: string
  li_EstablishSec :: int
  li_RekeySec :: int
  ReauthSec :: int
  li_Children :: "(string, loaded_child) gomap"

text \<open>A field of a message: no section, a section that cannot be decoded, or an IKE SA without its name.\<close>

datatype vici_field = NotSection | BadSection | Section loaded_ike

record vici_message =
  vm_Err :: bool
  vm_Fields :: "(string \<times> vici_field) list"

fun read_field :: "string \<times> vici_field \<Rightarrow> (unit, loaded_ike list) outcome" where
  "read_field (k, NotSection) = Panic"
| "read_field (k, BadSection) = Ok []"
| "read_field (k, Section ike) = Ok [ike\<lparr>li_Name := k\<rparr>]"

definition listSAs :: "vici_message list \<Rightarrow> (unit, loaded_ike list) outcome" where
  "listSAs msgs = concat_outcome (\<lambda>m. if vm_Err m then Ok [] else concat_outcome read_field (vm_Fields m)) msgs"

section \<open>Metrics\<close>

record metric =
  mt_Desc :: desc
  mt_Value :: int
  mt_Labels :: "string list"

definition const_metric :: "desc \<Rightarrow> int \<Rightarrow> string list \<Rightarrow> (unit, metric list) outcome" where
  "const_metric d v ls = (if length ls = length (desc_labels d)
     then Ok [\<lparr>mt_Desc = d, mt_Value = v, mt_Labels = ls\<rparr>] else Panic)"

definition viciBoolToInt :: "string \<Rightarrow> int" where
  "viciBoolToInt v = (if v = ''yes'' then 1 else 0)"

definition children_length :: "(string, loaded_child) gomap \<Rightarrow> int" where
  "children_length children = int (length (foldl (\<lambda>m c. gput (lc_Name c) ''exists'' m) [] (gvals children)))"

definition send_all :: "(desc \<times> int \<times> string list) list \<Rightarrow> (unit, metric list) outcome" where
  "send_all ms = concat_outcome (\<lambda>(d, v, ls). const_metric d v ls) ms"

definition collectIkeMetrics :: "loaded_ike \<Rightarrow> (desc \<times> int \<times> string list) list" where
  "collectIkeMetrics d =
     (let n = [li_Name d, li_State d]
      in [(ikeVersion, li_Version d, n), (ikeState, 1, n), (ikeInitiator, viciBoolToInt (Initiator d), n),
          (ikeNatRemote, viciBoolToInt (NatRemote d), n), (ikeNatFake, viciBoolToInt (NatFake d), n),
          (ikeEncKeysize, li_EncKey d, n @ [li_EncAlg d, li_DHGroup d]),
          (ikeIntegKeysize, li_IntegKey d, n @ [li_IntegAlg d, li_DHGroup d]),
          (ikeEstablishSecs, li_EstablishSec d, n), (ikeRekeySecs, li_RekeySec d, n),
          (ikeReauthSecs, ReauthSec d, n), (ikeChildren, children_length (li_Children d), n)])"

definition collectSaMetrics :: "string \<Rightarrow> string \<Rightarrow> loaded_child \<Rightarrow> (desc \<times> int \<times> string list) list" where
  "collectSaMetrics name ike_state d =
     (let n = [name, ike_state, lc_Name d, lc_State d];
          ts = n @ [go_join '';'' (lc_LocalTS d), go_join '';'' (lc_RemoteTS d)]
      in [(saEncap, viciBoolToInt (lc_Encap d), n),
          (saEncKeysize, lc_EncKey d, n @ [lc_EncAlg d, lc_DHGroup d]),
          (saIntegKeysize, lc_IntegKey d, n @ [lc_IntegAlg d, lc_DHGroup d]),
          (saBytesIn, BytesIn d, ts), (saPacketsIn, PacketsIn d, ts), (saLastInSecs, LastInSec d, ts),
          (saBytesOut, BytesOut d, ts), (saPacketsOut, PacketsOut d, ts), (saLastOutSecs, LastOutSec d, ts),
          (saEstablishSecs, lc_EstablishSec d, n), (saRekeySecs, lc_RekeySec d, n),
          (saLifetimeSecs, LifetimeSec d, n)])"

section \<open>Duplicates\<close>

record ike_info =
  ii_LoadedIKE :: loaded_ike
  ii_Count :: int

text \<open>Of the SAs of one name the one with the largest id is kept, compared as strings.\<close>

definition add_ike :: "(string, ike_info) gomap \<Rightarrow> loaded_ike \<Rightarrow> (string, ike_info) gomap" where
  "add_ike m sa =
     (let val = (case gget m (li_Name sa) of Some v \<Rightarrow> v | None \<Rightarrow> \<lparr>ii_LoadedIKE = sa, ii_Count = 0\<rparr>);
          kept = (if li_UniqueId (ii_LoadedIKE val) < li_UniqueId sa then sa else ii_LoadedIKE val)
      in gput (li_Name sa) \<lparr>ii_LoadedIKE = kept, ii_Count = ii_Count val + 1\<rparr> m)"

definition dedup_ikes :: "loaded_ike list \<Rightarrow> (string, ike_info) gomap" where
  "dedup_ikes sas = foldl add_ike [] sas"

record sa_info =
  si_Count :: int
  Parent :: string
  ParentState :: string
  si_LoadedChild :: loaded_child

definition sa_ident :: "string \<Rightarrow> string \<Rightarrow> string" where
  "sa_ident child ike = child @ ''-'' @ ike"

text \<open>Ids that are no numbers count as zero, or as the nearest number of 64 bits.\<close>

definition add_sa :: "loaded_ike \<Rightarrow> (string, sa_info) gomap \<Rightarrow> loaded_child \<Rightarrow> (string, sa_info) gomap" where
  "add_sa ike m c =
     (let ident = sa_ident (lc_Name c) (li_Name ike);
          val = (case gget m ident of Some v \<Rightarrow> v
            | None \<Rightarrow> \<lparr>si_Count = 0, Parent = li_Name ike, ParentState = li_State ike, si_LoadedChild = c\<rparr>);
          kept = (if fst (parse_int 64 (lc_UniqueId (si_LoadedChild val))) < fst (parse_int 64 (lc_UniqueId c))
                  then c else si_LoadedChild val)
      in gput ident (val\<lparr>si_Count := si_Count val + 1, si_LoadedChild := kept\<rparr>) m)"

definition dedup_sas :: "ike_info list \<Rightarrow> (string, sa_info) gomap" where
  "dedup_sas infos = foldl (\<lambda>m i. foldl (add_sa (ii_LoadedIKE i)) m (gvals (li_Children (ii_LoadedIKE i)))) [] infos"

section \<open>A collection\<close>

text \<open>The loaded connections: a list of maps from the name to the names of the children.\<close>

type_synonym loaded_conns = "(string, string list) gomap list"

definition conn_metrics :: "loaded_conns \<Rightarrow> (desc \<times> int \<times> string list) list" where
  "conn_metrics conns = concat (map (\<lambda>(k, children). (connectionsLoaded, 1, [k])
     # map (\<lambda>n. (childrenLoaded, 1, [n, k])) children) (concat conns))"

definition ike_metrics :: "ike_info \<Rightarrow> (desc \<times> int \<times> string list) list" where
  "ike_metrics v = (saDuplicateConnCount, ii_Count v - 1, [li_Name (ii_LoadedIKE v)]) # collectIkeMetrics (ii_LoadedIKE v)"

definition sa_metrics :: "sa_info \<Rightarrow> (desc \<times> int \<times> string list) list" where
  "sa_metrics v = (saDuplicateChildCount, si_Count v - 1, [Parent v, lc_Name (si_LoadedChild v)])
     # collectSaMetrics (Parent v) (ParentState v) (si_LoadedChild v)"

definition Collect :: "loaded_conns option \<Rightarrow> vici_message list option \<Rightarrow> (unit, metric list) outcome" where
  "Collect loaded msgs = (case loaded of
      None \<Rightarrow> send_all [(connectionsLoadedCnt, 0, [])]
    | Some conns \<Rightarrow>
        obind (send_all (conn_metrics conns @ [(connectionsLoadedCnt, int (length conns), [])])) (\<lambda>ms.
        (case msgs of
           None \<Rightarrow> obind (send_all [(ikeConnCnt, 0, [])]) (\<lambda>r. Ok (ms @ r))
         | Some msgs \<Rightarrow> obind (listSAs msgs) (\<lambda>sas.
             let ikes = dedup_ikes sas; children = dedup_sas (gvals ikes)
             in obind (send_all ((ikeConnCnt, int (length ikes), [])
                    # concat (map ike_metrics (gvals ikes)) @ concat (map sa_metrics (gvals children))))
                  (\<lambda>r. Ok (ms @ r))))))"

end
