(* ===== verification/Exporter_Props.thy ===== *)
theory Exporter_Props
  imports Exporter
begin

text \<open>
  What Prometheus demands of a collection: every metric has the labels of its descriptor, and no
  two metrics of one descriptor have the same labels.
\<close>

definition fits :: "desc \<times> int \<times> string list \<Rightarrow> bool" where
  "fits m = (case m of (d, _, ls) \<Rightarrow> length ls = length (desc_labels d))"

definition series :: "desc \<times> int \<times> string list \<Rightarrow> desc \<times> string list" where
  "series m = (case m of (d, _, ls) \<Rightarrow> (d, ls))"

definition metric_of :: "desc \<times> int \<times> string list \<Rightarrow> metric" where
  "metric_of m = (case m of (d, v, ls) \<Rightarrow> \<lparr>mt_Desc = d, mt_Value = v, mt_Labels = ls\<rparr>)"

lemma fits_metric_of: "length (mt_Labels (metric_of m)) = length (desc_labels (mt_Desc (metric_of m))) \<longleftrightarrow> fits m"
  by (simp add: metric_of_def fits_def split: prod.split)

lemma all_fit: "\<forall>m \<in> set ms. fits m \<Longrightarrow>
    \<forall>m \<in> set (map metric_of ms). length (mt_Labels m) = length (desc_labels (mt_Desc m))"
  by (simp add: fits_metric_of)

lemma send_all_fits: "\<forall>m \<in> set ms. fits m \<Longrightarrow> send_all ms = Ok (map metric_of ms)"
  unfolding send_all_def
  by (subst concat_outcome_Ok [where g = "\<lambda>m. [metric_of m]"])
    (auto simp: const_metric_def fits_def metric_of_def)

lemma metrics_fit:
  "\<forall>m \<in> set (collectIkeMetrics d). fits m" "\<forall>m \<in> set (collectSaMetrics n s c). fits m"
  "\<forall>m \<in> set (conn_metrics conns). fits m" "\<forall>m \<in> set (ike_metrics v). fits m" "\<forall>m \<in> set (sa_metrics w). fits m"
proof -
  show i: "\<forall>m \<in> set (collectIkeMetrics d). fits m" for d
    by (simp add: collectIkeMetrics_def fits_def ike_labels_def alg_labels_def Let_def)
  show s: "\<forall>m \<in> set (collectSaMetrics n s c). fits m" for n s c
    by (simp add: collectSaMetrics_def fits_def sa_labels_def alg_labels_def ts_labels_def Let_def)
  show "\<forall>m \<in> set (conn_metrics conns). fits m"
    by (auto simp: conn_metrics_def fits_def)
  show "\<forall>m \<in> set (ike_metrics v). fits m" "\<forall>m \<in> set (sa_metrics w). fits m"
    using i s by (simp_all add: ike_metrics_def sa_metrics_def) (simp_all add: fits_def)
qed

section \<open>No series twice\<close>

lemma distinct_concat_by:
  assumes "distinct (map g xs)" "\<And>x. x \<in> set xs \<Longrightarrow> distinct (f x)"
    and "\<And>x y. x \<in> set xs \<Longrightarrow> y \<in> set (f x) \<Longrightarrow> key y = g x"
  shows "distinct (concat (map f xs))"
  using assms
proof (induction xs)
  case (Cons x xs)
  have "set (f x) \<inter> set (concat (map f xs)) = {}"
  proof (rule ccontr)
    assume "set (f x) \<inter> set (concat (map f xs)) \<noteq> {}"
    then obtain y z where "y \<in> set (f x)" "z \<in> set xs" "y \<in> set (f z)" by auto
    then have "g x = g z" using Cons.prems(3) [of x y] Cons.prems(3) [of z y] by simp
    with Cons.prems(1) \<open>z \<in> set xs\<close> show False by auto
  qed
  then show ?case using Cons by simp
qed simp

lemma series_concat: "map series (concat (map f xs)) = concat (map (\<lambda>x. map series (f x)) xs)"
  by (simp add: map_concat comp_def)

lemma ike_series:
  "distinct (map series (ike_metrics v))"
  "y \<in> set (map series (ike_metrics v)) \<Longrightarrow> hd (snd y) = li_Name (ii_LoadedIKE v)"
  by (auto simp: ike_metrics_def collectIkeMetrics_def series_def Let_def)

definition sa_key :: "desc \<times> string list \<Rightarrow> string \<times> string" where
  "sa_key y = (hd (snd y), if fst y = saDuplicateChildCount then snd y ! 1 else snd y ! 2)"

lemma sa_series:
  "distinct (map series (sa_metrics v))"
  "y \<in> set (map series (sa_metrics v)) \<Longrightarrow> sa_key y = (Parent v, lc_Name (si_LoadedChild v))"
  by (auto simp: sa_metrics_def collectSaMetrics_def series_def Let_def sa_key_def)

lemma conn_series:
  assumes "distinct (map fst (concat conns))" "\<forall>(k, cs) \<in> set (concat conns). distinct cs"
  shows "distinct (map series (conn_metrics conns))"
  unfolding conn_metrics_def series_concat
proof (rule distinct_concat_by [where g = fst and key = "\<lambda>y. last (snd y)"])
  show "distinct (map series (case x of (k, cs) \<Rightarrow> (connectionsLoaded, 1, [k]) # map (\<lambda>n. (childrenLoaded, 1, [n, k])) cs))"
    if "x \<in> set (concat conns)" for x
    using that assms(2) by (auto simp: series_def comp_def distinct_map inj_on_def split: prod.splits)
  show "last (snd y) = fst x"
    if "y \<in> set (map series (case x of (k, cs) \<Rightarrow> (connectionsLoaded, 1, [k]) # map (\<lambda>n. (childrenLoaded, 1, [n, k])) cs))" for x y
    using that by (auto simp: series_def split: prod.splits)
qed (rule assms(1))

section \<open>The tables of SAs\<close>

lemma dedup_ikes_names:
  "gok (dedup_ikes sas)" "(k, v) \<in> set (dedup_ikes sas) \<Longrightarrow> li_Name (ii_LoadedIKE v) = k \<and> ii_LoadedIKE v \<in> set sas"
proof -
  have inv: "gok m \<and> (\<forall>k v. gget m k = Some v \<longrightarrow> li_Name (ii_LoadedIKE v) = k \<and> ii_LoadedIKE v \<in> S) \<Longrightarrow> set sas \<subseteq> S \<Longrightarrow>
      gok (foldl add_ike m sas) \<and> (\<forall>k v. gget (foldl add_ike m sas) k = Some v \<longrightarrow> li_Name (ii_LoadedIKE v) = k \<and> ii_LoadedIKE v \<in> S)" for m S
  proof (induction sas arbitrary: m)
    case (Cons sa sas)
    show ?case using Cons.prems
      by (simp, intro Cons.IH) (auto simp: add_ike_def Let_def gget_put split: option.splits if_splits)
  qed simp
  from inv [of "[]" "set sas"] have a: "gok (dedup_ikes sas)"
    "\<forall>k v. gget (dedup_ikes sas) k = Some v \<longrightarrow> li_Name (ii_LoadedIKE v) = k \<and> ii_LoadedIKE v \<in> set sas"
    by (simp_all add: dedup_ikes_def)
  then show "gok (dedup_ikes sas)" "(k, v) \<in> set (dedup_ikes sas) \<Longrightarrow> li_Name (ii_LoadedIKE v) = k \<and> ii_LoadedIKE v \<in> set sas"
    using gget_Some_iff [OF a(1), of k v] by simp_all
qed

definition sa_pair :: "sa_info \<Rightarrow> string \<times> string" where
  "sa_pair v = (lc_Name (si_LoadedChild v), Parent v)"

definition sa_table_ok :: "(string \<times> string) set \<Rightarrow> (string, sa_info) gomap \<Rightarrow> bool" where
  "sa_table_ok P m \<longleftrightarrow> gok m \<and> (\<forall>k v. gget m k = Some v \<longrightarrow> sa_pair v \<in> P \<and> case_prod sa_ident (sa_pair v) = k)"

lemma add_sa_ok:
  assumes "sa_table_ok P m" "inj_on (case_prod sa_ident) P" "(lc_Name c, li_Name ike) \<in> P"
  shows "sa_table_ok P (add_sa ike m c)"
proof -
  let ?k = "sa_ident (lc_Name c) (li_Name ike)"
  have same: "sa_pair v = (lc_Name c, li_Name ike)" if "gget m ?k = Some v" for v
    using that assms by (intro inj_onD [OF assms(2)]) (auto simp: sa_table_ok_def)
  have "gget m ?k = Some v \<Longrightarrow> sa_pair (v\<lparr>si_Count := n, si_LoadedChild := c\<rparr>) = (lc_Name c, li_Name ike)" for v n
    using same [of v] by (simp add: sa_pair_def)
  moreover have "gget m ?k = Some v \<Longrightarrow> sa_pair (v\<lparr>si_Count := n, si_LoadedChild := si_LoadedChild v\<rparr>) = (lc_Name c, li_Name ike)" for v n
    using same [of v] by (simp add: sa_pair_def)
  ultimately show ?thesis
    using assms(1,3)
    by (cases "gget m ?k") (auto simp: sa_table_ok_def add_sa_def Let_def gget_put, auto simp: sa_pair_def)
qed

lemma dedup_sas_ok:
  assumes "inj_on (case_prod sa_ident) P"
    and "\<forall>i \<in> set infos. \<forall>c \<in> set (gvals (li_Children (ii_LoadedIKE i))). (lc_Name c, li_Name (ii_LoadedIKE i)) \<in> P"
  shows "sa_table_ok P (dedup_sas infos)"
proof -
  have inner: "sa_table_ok P m \<Longrightarrow> \<forall>c \<in> set cs. (lc_Name c, li_Name ike) \<in> P \<Longrightarrow> sa_table_ok P (foldl (add_sa ike) m cs)" for m cs ike
    by (induction cs arbitrary: m) (simp_all add: add_sa_ok [OF _ assms(1)])
  have "sa_table_ok P m \<Longrightarrow> \<forall>i \<in> set is. \<forall>c \<in> set (gvals (li_Children (ii_LoadedIKE i))). (lc_Name c, li_Name (ii_LoadedIKE i)) \<in> P
      \<Longrightarrow> sa_table_ok P (foldl (\<lambda>m i. foldl (add_sa (ii_LoadedIKE i)) m (gvals (li_Children (ii_LoadedIKE i)))) m is)" for m "is"
    by (induction "is" arbitrary: m) (simp_all add: inner)
  from this [of "[]" infos] assms(2) show ?thesis by (simp add: dedup_sas_def sa_table_ok_def)
qed

lemma distinct_vals:
  assumes "gok m" "\<forall>(k, v) \<in> set m. h (g v) = k"
  shows "distinct (map g (gvals m))"
proof -
  have "map h (map g (gvals m)) = gkeys m"
    using assms(2) by (auto intro!: map_cong)
  then show ?thesis using assms(1) unfolding gok_def by (metis distinct_map)
qed

section \<open>A whole collection\<close>

definition ike_descs :: "desc set" where
  "ike_descs = {saDuplicateConnCount, ikeVersion, ikeState, ikeInitiator, ikeNatRemote, ikeNatFake, ikeEncKeysize,
     ikeIntegKeysize, ikeEstablishSecs, ikeRekeySecs, ikeReauthSecs, ikeChildren}"

definition sa_descs :: "desc set" where
  "sa_descs = {saDuplicateChildCount, saEncap, saEncKeysize, saIntegKeysize, saBytesIn, saPacketsIn, saLastInSecs,
     saBytesOut, saPacketsOut, saLastOutSecs, saEstablishSecs, saRekeySecs, saLifetimeSecs}"

lemma descs_of:
  "y \<in> set (map series (conn_metrics conns)) \<Longrightarrow> fst y \<in> {connectionsLoaded, childrenLoaded}"
  "y \<in> set (map series (ike_metrics v)) \<Longrightarrow> fst y \<in> ike_descs"
  "y \<in> set (map series (sa_metrics w)) \<Longrightarrow> fst y \<in> sa_descs"
  by (auto simp: conn_metrics_def ike_metrics_def sa_metrics_def collectIkeMetrics_def collectSaMetrics_def
      series_def ike_descs_def sa_descs_def Let_def)

lemma distinct_by_desc:
  assumes "distinct (map series A)" "distinct (map series B)" "distinct (map series C)"
    and "\<forall>y \<in> set (map series A). fst y \<in> {connectionsLoaded, childrenLoaded}"
    and "\<forall>y \<in> set (map series B). fst y \<in> ike_descs" "\<forall>y \<in> set (map series C). fst y \<in> sa_descs"
  shows "distinct (map series (A @ (connectionsLoadedCnt, a, []) # (ikeConnCnt, b, []) # B @ C))"
proof -
  have disj: "X \<inter> Y = {}" if "\<forall>y \<in> X. fst y \<in> K" "\<forall>y \<in> Y. fst y \<in> L" "K \<inter> L = {}" for X Y :: "(desc \<times> string list) set" and K L
    using that by blast
  have notin: "(k, []) \<notin> X" if "\<forall>y \<in> X. fst y \<in> K" "k \<notin> K" for X :: "(desc \<times> string list) set" and K k
    using that by auto
  have "set (map series A) \<inter> set (map series B) = {}" "set (map series A) \<inter> set (map series C) = {}"
    "set (map series B) \<inter> set (map series C) = {}"
    by (rule disj [OF assms(4,5)], simp add: ike_descs_def, rule disj [OF assms(4,6)], simp add: sa_descs_def,
        rule disj [OF assms(5,6)], simp add: ike_descs_def sa_descs_def)
  moreover have "(k, []) \<notin> set (map series A)" "(k, []) \<notin> set (map series B)" "(k, []) \<notin> set (map series C)"
    if "k \<in> {connectionsLoadedCnt, ikeConnCnt}" for k
    using that by (auto simp: ike_descs_def sa_descs_def simp del: set_map
        intro!: notin [OF assms(4)] notin [OF assms(5)] notin [OF assms(6)])
  moreover have "series (connectionsLoadedCnt, a, []) = (connectionsLoadedCnt, [])" "series (ikeConnCnt, b, []) = (ikeConnCnt, [])"
    by (simp_all add: series_def)
  ultimately show ?thesis using assms(1-3) by (simp add: Int_Un_distrib del: set_map)
qed

lemma concat_descs:
  assumes "\<And>x y. y \<in> set (map series (f x)) \<Longrightarrow> fst y \<in> K"
  shows "\<forall>y \<in> set (map series (concat (map f xs))). fst y \<in> K"
proof
  fix y assume "y \<in> set (map series (concat (map f xs)))"
  then obtain x where "y \<in> set (map series (f x))" by auto
  then show "fst y \<in> K" by (rule assms)
qed

definition sa_pairs :: "loaded_ike list \<Rightarrow> (string \<times> string) set" where
  "sa_pairs sas = {(lc_Name c, li_Name i) | c i. i \<in> set sas \<and> c \<in> set (gvals (li_Children i))}"

lemma sa_metrics_distinct:
  assumes "inj_on (case_prod sa_ident) (sa_pairs sas)"
  shows "distinct (map series (concat (map sa_metrics (gvals (dedup_sas (gvals (dedup_ikes sas)))))))"
proof -
  let ?m = "dedup_sas (gvals (dedup_ikes sas))"
  have "\<forall>i \<in> set (gvals (dedup_ikes sas)). \<forall>c \<in> set (gvals (li_Children (ii_LoadedIKE i))).
      (lc_Name c, li_Name (ii_LoadedIKE i)) \<in> sa_pairs sas"
    using dedup_ikes_names(2) [of _ _ sas] unfolding sa_pairs_def by fastforce
  from dedup_sas_ok [OF assms this] have ok: "gok ?m" "\<forall>(k, v) \<in> set ?m. case_prod sa_ident (sa_pair v) = k"
    by (auto simp: sa_table_ok_def gget_Some_iff)
  then have "distinct (map sa_pair (gvals ?m))" by (rule distinct_vals [where h = "case_prod sa_ident"])
  then have "distinct (map (\<lambda>v. (Parent v, lc_Name (si_LoadedChild v))) (gvals ?m))"
    by (simp add: distinct_map inj_on_def sa_pair_def)
  then show ?thesis unfolding series_concat
    by (rule distinct_concat_by [where key = sa_key]) (rule sa_series(1), rule sa_series(2))
qed

lemma ike_metrics_distinct: "distinct (map series (concat (map ike_metrics (gvals (dedup_ikes sas)))))"
proof -
  have "distinct (map (\<lambda>v. li_Name (ii_LoadedIKE v)) (gvals (dedup_ikes sas)))"
    by (rule distinct_vals [OF dedup_ikes_names(1), where h = "\<lambda>x. x"]) (use dedup_ikes_names(2) in blast)
  then show ?thesis unfolding series_concat
    by (rule distinct_concat_by [where key = "\<lambda>y. hd (snd y)"]) (rule ike_series(1), rule ike_series(2))
qed

text \<open>
  C39. Prometheus accepts what the exporter sends: when the daemon names each connection once and
  its SAs can be read, a collection does not panic, every metric has as many labels as its
  descriptor, and no two metrics of one descriptor have the same labels; provided that no two
  pairs of child and connection have the same name when joined with a dash.
\<close>

theorem Collect_accepted:
  assumes "distinct (map fst (concat conns))" "\<forall>(k, cs) \<in> set (concat conns). distinct cs"
    and "listSAs msgs = Ok sas" "inj_on (case_prod sa_ident) (sa_pairs sas)"
  shows "\<exists>ms. Collect (Some conns) (Some msgs) = Ok ms
    \<and> (\<forall>m \<in> set ms. length (mt_Labels m) = length (desc_labels (mt_Desc m)))
    \<and> distinct (map (\<lambda>m. (mt_Desc m, mt_Labels m)) ms)"
proof -
  let ?B = "concat (map ike_metrics (gvals (dedup_ikes sas)))"
    and ?C = "concat (map sa_metrics (gvals (dedup_sas (gvals (dedup_ikes sas)))))"
  let ?raw = "conn_metrics conns @ (connectionsLoadedCnt, int (length conns), []) # (ikeConnCnt, int (length (dedup_ikes sas)), []) # ?B @ ?C"
  have fit: "\<forall>m \<in> set (conn_metrics conns @ [(connectionsLoadedCnt, int (length conns), [])]). fits m"
    "\<forall>m \<in> set ((ikeConnCnt, int (length (dedup_ikes sas)), []) # ?B @ ?C). fits m"
    by (simp_all add: metrics_fit ball_Un) (simp_all add: fits_def)
  have c: "Collect (Some conns) (Some msgs) = Ok (map metric_of ?raw)"
    by (simp add: Collect_def Let_def assms(3) send_all_fits [OF fit(1)] send_all_fits [OF fit(2), simplified])
  have d: "distinct (map series ?raw)"
    using descs_of by (intro distinct_by_desc conn_series assms(1,2) ike_metrics_distinct sa_metrics_distinct assms(4)
        concat_descs) blast+
  have e: "map (\<lambda>m. (mt_Desc m, mt_Labels m)) (map metric_of ms) = map series ms" for ms
    by (auto simp: metric_of_def series_def)
  have l: "\<forall>m \<in> set (map metric_of ?raw). length (mt_Labels m) = length (desc_labels (mt_Desc m))"
  proof (rule all_fit)
    have "?raw = (conn_metrics conns @ [(connectionsLoadedCnt, int (length conns), [])])
        @ ((ikeConnCnt, int (length (dedup_ikes sas)), []) # ?B @ ?C)" by (simp only: append_assoc append.simps)
    then show "\<forall>m \<in> set ?raw. fits m" using fit by (simp only: set_append ball_Un)
  qed
  show ?thesis
    by (rule exI [of _ "map metric_of ?raw"], intro conjI, rule c, rule l, subst e, rule d)
qed

definition sample_loaded_child :: loaded_child where
  "sample_loaded_child = \<lparr>lc_Name = ''a'', lc_UniqueId = ''1'', lc_State = ''INSTALLED'', lc_Encap = ''no'',
     lc_EncAlg = ''AES_CBC'', lc_EncKey = 256, lc_IntegAlg = [], lc_IntegKey = 0, lc_DHGroup = [], BytesIn = 0,
     PacketsIn = 0, LastInSec = 0, BytesOut = 0, PacketsOut = 0, LastOutSec = 0, lc_EstablishSec = 0,
     lc_RekeySec = 0, LifetimeSec = 0, lc_LocalTS = [''10.0.0.0/24''], lc_RemoteTS = [''10.1.0.0/24'']\<rparr>"

definition sample_loaded_ike :: loaded_ike where
  "sample_loaded_ike = \<lparr>li_Name = ''c'', li_UniqueId = ''1'', li_Version = 2, li_State = ''ESTABLISHED'', Initiator = ''yes'',
     NatRemote = [], NatFake = [], li_EncAlg = ''AES_CBC'', li_EncKey = 256, li_IntegAlg = [], li_IntegKey = 0,
     li_DHGroup = [], li_EstablishSec = 0, li_RekeySec = 0, ReauthSec = 0,
     li_Children = [(''a-1'', sample_loaded_child), (''a-2'', sample_loaded_child\<lparr>lc_UniqueId := ''2''\<rparr>)]\<rparr>"

theorem Collect_accepted_witness:
  "\<exists>ms. Collect (Some [[(''c'', [''a''])]])
      (Some [\<lparr>vm_Err = False, vm_Fields = [(''c'', Section sample_loaded_ike), (''d'', BadSection)]\<rparr>]) = Ok ms
    \<and> distinct (map (\<lambda>m. (mt_Desc m, mt_Labels m)) ms)"
proof -
  let ?msgs = "[\<lparr>vm_Err = False, vm_Fields = [(''c'', Section sample_loaded_ike), (''d'', BadSection)]\<rparr>]"
  have l: "listSAs ?msgs = Ok [sample_loaded_ike]"
    by (simp add: listSAs_def sample_loaded_ike_def)
  have "inj_on (case_prod sa_ident) (sa_pairs [sample_loaded_ike])"
    by (auto simp: inj_on_def sa_pairs_def sample_loaded_ike_def sample_loaded_child_def)
  from Collect_accepted [OF _ _ l this, of "[[(''c'', [''a''])]]"] show ?thesis by auto
qed

end
