(* ===== verification/Node_Tools_Props.thy ===== *)
theory Node_Tools_Props
  imports Node_Tools Mutate_Props
begin

text \<open>
  What the programs that run once read is what the controller and the webhook wrote: the
  environment of the init container and of the job. With it, vxlandlord leaves the routes of the
  child in the kernel, over any view of its table that keeps what was added (\<open>keeps_routes\<close>).
\<close>

definition getenv_of :: "env_var list \<Rightarrow> string \<Rightarrow> string" where
  "getenv_of vs n = (case find (\<lambda>v. ev_Name v = n) vs of None \<Rightarrow> [] | Some v \<Rightarrow> ev_Value v)"

lemma parse_int_show_int: "- (2 ^ 63) \<le> i \<Longrightarrow> i < 2 ^ 63 \<Longrightarrow> parse_int 64 (show_int i) = (i, None)"
  using parse_int_show [of 64 i] by simp

text \<open>
  The init container of a worker pod reads back what the webhook wrote into its environment:
  the address, the gateway, the interface id and the remote networks of the child, as long as
  there is a remote network, none of them has a comma in it, and the id fits in 64 bits.
\<close>

lemma worker_env:
  assumes "RemoteIPs c = Some rs" "rs \<noteq> []" "\<forall>r \<in> set rs. CHR '','' \<notin> set r"
    and "- (2 ^ 63) \<le> XfrmIfId c" "XfrmIfId c < 2 ^ 63"
  shows "read_params (getenv_of (ct_Env (initContainer c gateway ip img)))
    = \<lparr>vp_VxlanIP = ip, vp_XfrmIP = XfrmIP c, vp_IfId = XfrmIfId c, vp_Gateway = gateway, vp_RemoteIPs = rs\<rparr>"
proof -
  have "split_on (CHR '','') (go_join '','' rs) = rs" using assms(2,3) by (intro split_on_join) auto
  then show ?thesis
    using parse_int_show_int [OF assms(4,5)] assms(1)
    by (simp add: read_params_def getenv_of_def initContainer_def Let_def)
qed

section \<open>The routes of a worker\<close>

text \<open>A view of the kernel's routing table in which a route that was added is there, beside those before it.\<close>

definition keeps_routes :: "'k tools \<Rightarrow> ('k \<Rightarrow> via_route set) \<Rightarrow> bool" where
  "keeps_routes tk table = (\<forall>r k. fst (to_RouteAdd tk r k) = Ok () \<longrightarrow> insert r (table k) \<subseteq> table (snd (to_RouteAdd tk r k)))"

lemma or_exit_Ok_iff: "or_exit c k = Some (Ok v, k') \<longleftrightarrow> c k = (Ok v, k')"
  by (simp add: or_exit_def call_Ok_iff)

lemma route_added: "keeps_routes tk table \<Longrightarrow> to_RouteAdd tk r k = (Ok (), k') \<Longrightarrow> insert r (table k) \<subseteq> table k'"
  unfolding keeps_routes_def by (drule spec [of _ r], drule spec [of _ k]) simp

lemma created_by_name:
  assumes "createVxlan tk cilium ip ifid k = Some (Ok v, k')"
  shows "\<exists>k1. kn_LinkByName (to_netlink tk) (''vxlan'' @ show_int ifid) k1 = (Ok v, k')"
proof -
  let ?new = "\<lparr>vx_Name = ''vxlan'' @ show_int ifid, VxlanId = ifid, vx_Port = 4789, SrcAddr = ip,
     VtepDevIndex = lk_Index cilium, Learning = False\<rparr>"
  obtain o1 k1 where "kn_LinkAdd (to_netlink tk) ?new k = (o1, k1)" by (cases "kn_LinkAdd (to_netlink tk) ?new k")
  with assms have "or_exit (kn_LinkByName (to_netlink tk) (''vxlan'' @ show_int ifid)) k1 = Some (Ok v, k')"
    by (cases o1) (auto simp: createVxlan_def Let_def attempt_def bnd_def fail_def split: option.splits outcome.splits prod.splits)
  then show ?thesis by (auto simp: or_exit_Ok_iff)
qed

lemma add_remotes_run:
  assumes t: "keeps_routes tk table"
  shows "add_remotes tk i src gw rs k = Some (Ok (), k') \<Longrightarrow> table k \<union> {\<lparr>vr_LinkIndex = i, vr_Dst = map_option snd (ParseCIDR r),
     vr_Src = src, vr_Gw = Some gw\<rparr> | r. r \<in> set rs} \<subseteq> table k'"
proof (induction rs arbitrary: k)
  case (Cons r rs)
  let ?r = "\<lparr>vr_LinkIndex = i, vr_Dst = map_option snd (ParseCIDR r), vr_Src = src, vr_Gw = Some gw\<rparr>"
  from Cons.prems obtain k1 where "to_RouteAdd tk ?r k = (Ok (), k1)" "add_remotes tk i src gw rs k1 = Some (Ok (), k')"
    by (auto simp: bnd_Ok_iff or_exit_Ok_iff)
  with route_added [OF t, of ?r k k1] Cons.IH [of k1] show ?case by auto
qed (auto simp: ret_def)

lemma setup_worker_run:
  assumes t: "keeps_routes tk table" and run: "setup_worker tk p cilium ip vmask vx xa k = Some (Ok (), k')"
  obtains v k1 k2 where "kn_LinkByName (to_netlink tk) (''vxlan'' @ show_int (vp_IfId p)) k1 = (Ok v, k2)"
    "\<lparr>vr_LinkIndex = lk_Index v, vr_Dst = Some \<lparr>net_IP = xa, net_Mask = CIDRMask32 32\<rparr>, vr_Src = vx, vr_Gw = None\<rparr> \<in> table k'"
    "\<forall>r \<in> set (vp_RemoteIPs p). \<lparr>vr_LinkIndex = lk_Index v, vr_Dst = map_option snd (ParseCIDR r), vr_Src = vx, vr_Gw = Some xa\<rparr> \<in> table k'"
proof -
  let ?r = "\<lambda>v. \<lparr>vr_LinkIndex = lk_Index v, vr_Dst = Some \<lparr>net_IP = xa, net_Mask = CIDRMask32 32\<rparr>, vr_Src = vx, vr_Gw = None\<rparr>"
  from run obtain v k1 k2 k3 where c: "createVxlan tk cilium ip (vp_IfId p) k = Some (Ok v, k1)"
    "to_RouteAdd tk (?r v) k2 = (Ok (), k3)" "add_remotes tk (lk_Index v) vx xa (vp_RemoteIPs p) k3 = Some (Ok (), k')"
    unfolding setup_worker_def by (auto simp: bnd_Ok_iff or_exit_Ok_iff)
  from c(2) have "?r v \<in> table k3" using route_added [OF t] by blast
  with add_remotes_run [OF t c(3)] created_by_name [OF c(1)] that [of _ v] show thesis by blast
qed

lemma octets_of_Ok_iff:
  "octets_of s k = Some (Ok b, k') \<longleftrightarrow> k' = k \<and> obind (IpToByteArray s) IPv4 = (Ok b :: (num_error, bytes) outcome)"
  by (cases "IpToByteArray s") (auto simp: octets_of_def bnd_Ok_iff or_exit_Ok_iff obind_def IPv4_def)

lemma vxlandlord_run:
  assumes "vxlandlord tk getenv k = Some (Ok (), k')"
  obtains cilium addr m vx xa k1 where
    "obind (IpToByteArray (fst (cut_at (CHR ''/'') (getenv ''VXLAN_IP'')))) IPv4 = (Ok vx :: (num_error, bytes) outcome)"
    "obind (IpToByteArray (fst (cut_at (CHR ''/'') (getenv ''XFRM_IP'')))) IPv4 = (Ok xa :: (num_error, bytes) outcome)"
    "setup_worker tk (read_params getenv) cilium addr m vx xa k1 = Some (Ok (), k')"
proof -
  have "\<exists>vx xa cilium addr m k1.
    obind (IpToByteArray (fst (cut_at (CHR ''/'') (getenv ''VXLAN_IP'')))) IPv4 = (Ok vx :: (num_error, bytes) outcome)
    \<and> obind (IpToByteArray (fst (cut_at (CHR ''/'') (getenv ''XFRM_IP'')))) IPv4 = (Ok xa :: (num_error, bytes) outcome)
    \<and> setup_worker tk (read_params getenv) cilium addr m vx xa k1 = Some (Ok (), k')"
    using assms
    by (clarsimp simp: vxlandlord_def Let_def bnd_Ok_iff octets_of_Ok_iff subnet_of_def read_params_def split: prod.splits) blast
  then show thesis using that by blast
qed

text \<open>
  C40. A worker reaches the networks behind its connection: when vxlandlord, started as the webhook set up its
  init container for a child, ends normally, the kernel has on the link \<open>vxlan<if_id>\<close> a route to the xfrm
  address of the child and, through that address, one to each remote network of the child, all with the pod's address as source.
\<close>

theorem worker_routes_installed:
  assumes "keeps_routes tk table" "RemoteIPs c = Some rs" "rs \<noteq> []" "\<forall>r \<in> set rs. CHR '','' \<notin> set r \<and> ParseCIDR r \<noteq> None"
    and "- (2 ^ 63) \<le> XfrmIfId c" "XfrmIfId c < 2 ^ 63"
    and "vxlandlord tk (getenv_of (ct_Env (initContainer c gateway ip img))) k = Some (Ok (), k')"
  shows "\<exists>v k1 k2 vx xa. kn_LinkByName (to_netlink tk) (''vxlan'' @ show_int (XfrmIfId c)) k1 = (Ok v, k2)
    \<and> obind (IpToByteArray (fst (cut_at (CHR ''/'') ip))) IPv4 = Ok vx
    \<and> obind (IpToByteArray (fst (cut_at (CHR ''/'') (XfrmIP c)))) IPv4 = Ok xa
    \<and> \<lparr>vr_LinkIndex = lk_Index v, vr_Dst = Some \<lparr>net_IP = xa, net_Mask = CIDRMask32 32\<rparr>, vr_Src = vx, vr_Gw = None\<rparr> \<in> table k'
    \<and> (\<forall>r \<in> set rs. \<exists>b n. ParseCIDR r = Some (b, n)
        \<and> \<lparr>vr_LinkIndex = lk_Index v, vr_Dst = Some n, vr_Src = vx, vr_Gw = Some xa\<rparr> \<in> table k')"
proof -
  have p: "read_params (getenv_of (ct_Env (initContainer c gateway ip img)))
      = \<lparr>vp_VxlanIP = ip, vp_XfrmIP = XfrmIP c, vp_IfId = XfrmIfId c, vp_Gateway = gateway, vp_RemoteIPs = rs\<rparr>"
    using assms(2-6) by (intro worker_env) auto
  then have e: "getenv_of (ct_Env (initContainer c gateway ip img)) ''VXLAN_IP'' = ip"
    "getenv_of (ct_Env (initContainer c gateway ip img)) ''XFRM_IP'' = XfrmIP c"
    by (simp_all add: read_params_def)
  obtain vx xa cilium addr m k1 where
    oct: "obind (IpToByteArray (fst (cut_at (CHR ''/'') ip))) IPv4 = (Ok vx :: (num_error, bytes) outcome)"
      "obind (IpToByteArray (fst (cut_at (CHR ''/'') (XfrmIP c)))) IPv4 = (Ok xa :: (num_error, bytes) outcome)"
    and run: "setup_worker tk \<lparr>vp_VxlanIP = ip, vp_XfrmIP = XfrmIP c, vp_IfId = XfrmIfId c, vp_Gateway = gateway,
      vp_RemoteIPs = rs\<rparr> cilium addr m vx xa k1 = Some (Ok (), k')"
    using vxlandlord_run [OF assms(7)] unfolding p e by metis
  obtain v k2 k3 where l: "kn_LinkByName (to_netlink tk) (''vxlan'' @ show_int (XfrmIfId c)) k2 = (Ok v, k3)"
    "\<lparr>vr_LinkIndex = lk_Index v, vr_Dst = Some \<lparr>net_IP = xa, net_Mask = CIDRMask32 32\<rparr>, vr_Src = vx, vr_Gw = None\<rparr> \<in> table k'"
    "\<forall>r \<in> set rs. \<lparr>vr_LinkIndex = lk_Index v, vr_Dst = map_option snd (ParseCIDR r), vr_Src = vx, vr_Gw = Some xa\<rparr> \<in> table k'"
    by (rule setup_worker_run [OF assms(1) run]) simp
  have "\<forall>r \<in> set rs. \<exists>b n. ParseCIDR r = Some (b, n)
      \<and> \<lparr>vr_LinkIndex = lk_Index v, vr_Dst = Some n, vr_Src = vx, vr_Gw = Some xa\<rparr> \<in> table k'"
    using l(3) assms(4) by fastforce
  with oct l(1,2) show ?thesis by blast
qed

text \<open>A kernel with one link, which has a default route, and a table of the routes that were added.\<close>

definition one_link :: "via_route list tools" where
  "one_link = \<lparr>to_netlink =
       \<lparr>kn_LinkList = Pair (Ok [\<lparr>lk_Type = ''device'', lk_Name = ''eth0'', lk_Index = 2\<rparr>]), kn_LinkByName = (\<lambda>n. Pair (Ok \<lparr>lk_Type = ''vxlan'', lk_Name = n, lk_Index = 3\<rparr>)),
        kn_LinkAdd = (\<lambda>_. Pair (Ok ())), kn_LinkSetUp = (\<lambda>_. Pair (Ok ())),
        kn_AddrList = (\<lambda>_. Pair (Ok [\<lparr>net_IP = [10, 0, 0, 5], net_Mask = [255, 255, 255, 0]\<rparr>])), kn_AddrAdd = (\<lambda>_ _. Pair (Ok ())),
        kn_RouteList = (\<lambda>_. Pair (Ok [\<lparr>rt_LinkIndex = 2, rt_Dst = Some \<lparr>net_IP = [0, 0, 0, 0], net_Mask = [0, 0, 0, 0]\<rparr>\<rparr>])), kn_RouteAdd = (\<lambda>_. Pair (Ok ())),
        kn_RouteDel = (\<lambda>_. Pair (Ok ())), kn_run = (\<lambda>_. Pair ([], True))\<rparr>,
     to_LinkDel = (\<lambda>_. Pair (Ok ())), to_RouteAdd = (\<lambda>r rs. (Ok (), r # rs)), to_ReadFile = (\<lambda>_. Pair (Ok [])),
     to_GetFromPid = (\<lambda>_. Pair (Ok 0)), to_GetNs = Pair (Ok 0), to_SetNs = (\<lambda>_. Pair (Ok ())), to_AddXfrm = (\<lambda>_. Pair (Ok ())),
     to_LinkSetNsPid = (\<lambda>_ _. Pair (Ok ()))\<rparr>"

lemma one_link_keeps: "keeps_routes one_link set"
  by (simp add: keeps_routes_def one_link_def)

definition wired_child :: child where
  "wired_child = zero_child\<lparr>RemoteIPs := Some [''10.1.0.0/24''], XfrmIP := ''10.0.0.2/24'', XfrmIfId := 7\<rparr>"

lemma wired_run: "\<exists>k'. vxlandlord one_link (getenv_of (ct_Env (initContainer wired_child ''10.0.0.1'' ''10.0.0.9/32'' []))) [] = Some (Ok (), k')"
proof -
  have p: "read_params (getenv_of (ct_Env (initContainer wired_child ''10.0.0.1'' ''10.0.0.9/32'' [])))
      = \<lparr>vp_VxlanIP = ''10.0.0.9/32'', vp_XfrmIP = ''10.0.0.2/24'', vp_IfId = 7, vp_Gateway = ''10.0.0.1'', vp_RemoteIPs = [''10.1.0.0/24'']\<rparr>"
    by (subst worker_env [where rs = "[''10.1.0.0/24'']"]) (simp_all add: wired_child_def)
  have g: "IsValidIPv4 ''10.0.0.1''"
    by (simp add: IsValidIPv4_def octet_rests_def is_digit_in_def char_digit_def word_char_def upt_rec numeral_eq_Suc)
  have d: "exit_on_err (FindDefaultInterface (to_netlink one_link)) [] = Some (Ok \<lparr>lk_Type = ''device'', lk_Name = ''eth0'', lk_Index = 2\<rparr>, [])"
    by (simp add: one_link_def exit_on_err_def FindDefaultInterface_def bnd_def or_400_def call_def ret_def is_default_def
        networkNumberAndMask_def To4_def)
  have i: "parsed_int 8 ''32'' k = Some (Ok 32, k)" for k :: "via_route list"
    by (simp add: parsed_int_def parse_int_def parse_uint_def char_digit_def Let_def ret_def)
  have o: "obind (IpToByteArray ''10.0.0.9'') IPv4 = (Ok (v4_prefix @ [10, 0, 0, 9]) :: (num_error, bytes) outcome)"
    "obind (IpToByteArray ''10.0.0.2'') IPv4 = (Ok (v4_prefix @ [10, 0, 0, 2]) :: (num_error, bytes) outcome)"
    by (simp_all add: IpToByteArray_def IPv4_def obind_def parse_uint_def char_digit_def Let_def)
  have a: "kn_AddrList (to_netlink one_link) l [] = (Ok [\<lparr>net_IP = [10, 0, 0, 5], net_Mask = [255, 255, 255, 0]\<rparr>], [])" for l
    by (simp add: one_link_def)
  have w: "\<exists>k'. setup_worker one_link \<lparr>vp_VxlanIP = v, vp_XfrmIP = x, vp_IfId = 7, vp_Gateway = ''10.0.0.1'',
      vp_RemoteIPs = [''10.1.0.0/24'']\<rparr> l ip m vx xa [] = Some (Ok (), k')" for v x l ip m vx xa
    by (simp add: setup_worker_def g createVxlan_def one_link_def Let_def bnd_def attempt_def or_exit_def call_def
        ignore_err_def fatal_unless_def command_def ret_def)
  show ?thesis
    using w by (simp add: vxlandlord_def p d i o a Let_def bnd_Ok_iff or_exit_Ok_iff octets_of_Ok_iff subnet_of_def fatal_unless_def ret_def)
qed

theorem worker_routes_installed_witness:
  "\<exists>k' (v :: link) vx xa b n. vxlandlord one_link (getenv_of (ct_Env (initContainer wired_child ''10.0.0.1'' ''10.0.0.9/32'' []))) [] = Some (Ok (), k')
     \<and> ParseCIDR ''10.1.0.0/24'' = Some (b, n)
     \<and> \<lparr>vr_LinkIndex = lk_Index v, vr_Dst = Some n, vr_Src = vx, vr_Gw = Some xa\<rparr> \<in> set k'"
proof -
  obtain k' where r: "vxlandlord one_link (getenv_of (ct_Env (initContainer wired_child ''10.0.0.1'' ''10.0.0.9/32'' []))) [] = Some (Ok (), k')"
    using wired_run by blast
  have c: "RemoteIPs wired_child = Some [''10.1.0.0/24'']" "XfrmIfId wired_child = 7"
    by (simp_all add: wired_child_def)
  have n: "\<forall>r \<in> set [''10.1.0.0/24'']. CHR '','' \<notin> set r \<and> ParseCIDR r \<noteq> None"
    by (simp add: eval_cidr)
  show ?thesis
    using worker_routes_installed [OF one_link_keeps c(1) _ n _ _ r] r by (simp add: c(2)) blast
qed

text \<open>Without remote networks the list is not empty: one route without a destination is added.\<close>

lemma no_remotes_one_route:
  assumes "elems (RemoteIPs c) = []"
  shows "vp_RemoteIPs (read_params (getenv_of (ct_Env (initContainer c gateway ip img)))) = [[]]"
    "add_remotes tk i src gw [[]] = bnd (or_exit (to_RouteAdd tk
       \<lparr>vr_LinkIndex = i, vr_Dst = None, vr_Src = src, vr_Gw = Some gw\<rparr>)) (\<lambda>_. ret ())"
  using assms by (simp_all add: read_params_def getenv_of_def initContainer_def Let_def ParseCIDR_def)

text \<open>
  The interface that the job creates has the name under which xfrminion looks for it when it is
  asked to set up the VXLAN interface, and the id of the child.
\<close>

definition job_env :: "xfrm_job \<Rightarrow> string \<Rightarrow> string" where
  "job_env j n = (if n = ''TARGET_PID'' then TARGET_PID j else if n = ''XFRM_ID'' then XFRM_ID j
     else if n = ''INTERFACE_NAME'' then INTERFACE_NAME j else [])"

lemma injected_link_found:
  fixes w :: "32 word"
  assumes "j = createXfrmJob env pid (uint w) conn grp"
  shows "parse_int 64 (job_env j ''XFRM_ID'') = (uint w, None)"
    and "injected_link (job_env j ''XFRM_ID'') (uint w) l =
      \<lparr>xl_Name = ''xfrm'' @ show_int (rq_XfrmID (req_setup (SetupVxlanRequest x v (uint w)))),
       ParentIndex = lk_Index l, Ifid = w\<rparr>"
proof -
  have u: "0 \<le> uint w" "uint w < 2 ^ 32" using uint_bounded [of w] by simp_all
  have e: "job_env j ''XFRM_ID'' = show_int (uint w)" by (simp add: job_env_def assms createXfrmJob_def Let_def)
  show "parse_int 64 (job_env j ''XFRM_ID'') = (uint w, None)"
    unfolding e by (rule parse_int_show_int) (rule order_trans [OF _ u(1)], simp, rule less_trans [OF u(2)], simp)
  show "injected_link (job_env j ''XFRM_ID'') (uint w) l =
      \<lparr>xl_Name = ''xfrm'' @ show_int (rq_XfrmID (req_setup (SetupVxlanRequest x v (uint w)))),
       ParentIndex = lk_Index l, Ifid = w\<rparr>"
    by (simp add: injected_link_def e)
qed

text \<open>The regular expression of \<open>IsValidIPv4\<close> is not anchored: any text may surround the address.\<close>

lemma valid_address_inside: "IsValidIPv4 ''x 10.0.0.1999''"
  by (simp add: IsValidIPv4_def octet_rests_def is_digit_in_def char_digit_def word_char_def upt_rec numeral_eq_Suc)

end
