(* ===== verification/Deep_Copy.thy ===== *)
theory Deep_Copy
  imports Mutate
begin

text \<open>
  The copies of the custom resources, \<open>api/v1/deepcopy.go\<close> and \<open>zz_generated.deepcopy.go\<close>. Elsewhere
  a resource is a value; here its maps and slices are references into a store, so that what a copy
  shares with its original can be stated. A location is an index into the store, a new cell is
  appended. A structure is a record of its fields, a pointer to one an option; names stand for the
  metadata, which the library copies without sharing. \<open>read_conn\<close> gives the value of a resource.
\<close>

section \<open>The store\<close>

type_synonym loc = nat

text \<open>A slice that starts at its array's first element.\<close>

record slice_ref =
  sl_Array :: loc
  sl_Len :: nat

record child_ref =
  cr_Name :: string
  cr_LocalIPs :: "slice_ref option"
  cr_RemoteIPs :: "slice_ref option"
  cr_XfrmIfId :: int
  cr_IpPools :: "loc option"
  cr_XfrmIP :: string
  cr_VxlanIP :: string
  cr_Extra :: "loc option"

datatype cell =
    StrArray "string list"
  | StrMap "(string, string) gomap"
  | PoolMap "(string, slice_ref option) gomap"
  | FreeMap "(string, loc option) gomap"
  | ChildMap "(string, child_ref) gomap"

type_synonym heap = "cell list"

definition new_cell :: "cell \<Rightarrow> heap \<Rightarrow> loc \<times> heap" where
  "new_cell c h = (length h, h @ [c])"

fun str_array :: "cell \<Rightarrow> string list" where
  "str_array (StrArray xs) = xs"
| "str_array _ = []"

fun str_map :: "cell \<Rightarrow> (string, string) gomap" where
  "str_map (StrMap m) = m"
| "str_map _ = []"

fun pool_map :: "cell \<Rightarrow> (string, slice_ref option) gomap" where
  "pool_map (PoolMap m) = m"
| "pool_map _ = []"

fun free_map :: "cell \<Rightarrow> (string, loc option) gomap" where
  "free_map (FreeMap m) = m"
| "free_map _ = []"

fun child_map :: "cell \<Rightarrow> (string, child_ref) gomap" where
  "child_map (ChildMap m) = m"
| "child_map _ = []"

record spec_ref =
  sr_Name :: string
  sr_RemoteAddr :: string
  sr_LocalAddr :: string
  sr_LocalId :: string
  sr_RemoteId :: string
  sr_SecretRef :: secret_ref
  sr_Children :: "loc option"
  sr_Extra :: "loc option"
  sr_Group :: charon_group_ref

record status_ref =
  st_XfrmGatewayIPs :: "loc option"
  st_FreeIPs :: "loc option"
  st_PendingIPs :: "loc option"
  st_State :: string
  st_ChildrenState :: "loc option"

record conn_ref =
  or_Name :: string
  or_Namespace :: string
  or_Spec :: spec_ref
  or_Status :: status_ref

section \<open>The value of a resource\<close>

definition map_values :: "('a \<Rightarrow> 'b) \<Rightarrow> ('k, 'a) gomap \<Rightarrow> ('k, 'b) gomap" where
  "map_values f m = map (\<lambda>(k, v). (k, f v)) m"

definition read_slice :: "heap \<Rightarrow> slice_ref option \<Rightarrow> string slice" where
  "read_slice h s = map_option (\<lambda>s. take (sl_Len s) (str_array (h ! sl_Array s))) s"

definition read_strs :: "heap \<Rightarrow> loc option \<Rightarrow> (string, string) gomap option" where
  "read_strs h l = map_option (\<lambda>l. str_map (h ! l)) l"

definition read_pools :: "heap \<Rightarrow> loc option \<Rightarrow> (string, string slice) gomap option" where
  "read_pools h l = map_option (\<lambda>l. map_values (read_slice h) (pool_map (h ! l))) l"

definition read_free :: "heap \<Rightarrow> loc option \<Rightarrow> (string, string list) gomap" where
  "read_free h l = map_values elems (gmap_of (read_pools h l))"

definition read_child :: "heap \<Rightarrow> child_ref \<Rightarrow> child" where
  "read_child h c = \<lparr>c_Name = cr_Name c, LocalIPs = read_slice h (cr_LocalIPs c),
     RemoteIPs = read_slice h (cr_RemoteIPs c), XfrmIfId = cr_XfrmIfId c, IpPools = read_pools h (cr_IpPools c),
     XfrmIP = cr_XfrmIP c, VxlanIP = cr_VxlanIP c, c_Extra = read_strs h (cr_Extra c)\<rparr>"

definition children_at :: "heap \<Rightarrow> loc option \<Rightarrow> (string, child_ref) gomap" where
  "children_at h l = (case l of None \<Rightarrow> [] | Some l \<Rightarrow> child_map (h ! l))"

definition read_spec :: "heap \<Rightarrow> spec_ref \<Rightarrow> ipsec_spec" where
  "read_spec h s = \<lparr>sp_Name = sr_Name s, RemoteAddr = sr_RemoteAddr s, LocalAddr = sr_LocalAddr s,
     LocalId = sr_LocalId s, RemoteId = sr_RemoteId s, SecretRef = sr_SecretRef s,
     Children = map_values (read_child h) (children_at h (sr_Children s)),
     sp_Extra = gmap_of (read_strs h (sr_Extra s)), Group = sr_Group s\<rparr>"

definition read_status :: "heap \<Rightarrow> status_ref \<Rightarrow> ipsec_status" where
  "read_status h st = \<lparr>XfrmGatewayIPs = read_strs h (st_XfrmGatewayIPs st),
     FreeIPs = map_option (\<lambda>l. map_values (read_free h) (free_map (h ! l))) (st_FreeIPs st),
     PendingIPs = read_strs h (st_PendingIPs st), State = st_State st,
     ChildrenState = read_strs h (st_ChildrenState st)\<rparr>"

definition read_conn :: "heap \<Rightarrow> conn_ref \<Rightarrow> ipsec_conn" where
  "read_conn h c = \<lparr>cn_Name = or_Name c, cn_Namespace = or_Namespace c, Spec = read_spec h (or_Spec c),
     Status = read_status h (or_Status c)\<rparr>"

section \<open>The copies (deepcopy.go)\<close>

text \<open>\<open>*out = *in\<close>: the fields are copied, the maps and slices are those of the original.\<close>

definition Child_DeepCopyInto :: "child_ref \<Rightarrow> child_ref" where
  "Child_DeepCopyInto c = c"

definition Child_DeepCopy :: "child_ref option \<Rightarrow> child_ref option" where
  "Child_DeepCopy c = (case c of None \<Rightarrow> None | Some c \<Rightarrow> Some (Child_DeepCopyInto c))"

definition SecretRef_DeepCopyInto :: "secret_ref \<Rightarrow> secret_ref" where
  "SecretRef_DeepCopyInto s = s"

definition SecretRef_DeepCopy :: "secret_ref option \<Rightarrow> secret_ref option" where
  "SecretRef_DeepCopy s = (case s of None \<Rightarrow> None | Some s \<Rightarrow> Some (SecretRef_DeepCopyInto s))"

definition IPSecConnectionStatus_DeepCopyInto :: "status_ref \<Rightarrow> status_ref" where
  "IPSecConnectionStatus_DeepCopyInto st = st"

definition IPSecConnectionStatus_DeepCopy :: "status_ref option \<Rightarrow> status_ref option" where
  "IPSecConnectionStatus_DeepCopy st = (case st of None \<Rightarrow> None | Some st \<Rightarrow> Some (IPSecConnectionStatus_DeepCopyInto st))"

definition IPSecConnectionSpec_DeepCopyInto :: "spec_ref \<Rightarrow> heap \<Rightarrow> spec_ref \<times> heap" where
  "IPSecConnectionSpec_DeepCopyInto s h = (case sr_Children s of
      None \<Rightarrow> (s, h)
    | Some l \<Rightarrow>
        (case new_cell (ChildMap (foldl (\<lambda>m (key, val). gput key (Child_DeepCopyInto val) m) [] (child_map (h ! l)))) h of
           (l', h') \<Rightarrow> (s\<lparr>sr_Children := Some l'\<rparr>, h')))"

definition IPSecConnectionSpec_DeepCopy :: "spec_ref option \<Rightarrow> heap \<Rightarrow> spec_ref option \<times> heap" where
  "IPSecConnectionSpec_DeepCopy s h = (case s of None \<Rightarrow> (None, h)
    | Some s \<Rightarrow> (case IPSecConnectionSpec_DeepCopyInto s h of (s', h') \<Rightarrow> (Some s', h')))"

definition IPSecConnection_DeepCopyInto :: "conn_ref \<Rightarrow> heap \<Rightarrow> conn_ref \<times> heap" where
  "IPSecConnection_DeepCopyInto g h =
     (case IPSecConnectionSpec_DeepCopyInto (or_Spec g) h of
        (spec, h') \<Rightarrow> (g\<lparr>or_Spec := spec, or_Status := or_Status g\<rparr>, h'))"

definition IPSecConnection_DeepCopy :: "conn_ref option \<Rightarrow> heap \<Rightarrow> conn_ref option \<times> heap" where
  "IPSecConnection_DeepCopy g h = (case g of None \<Rightarrow> (None, h)
    | Some g \<Rightarrow> (case IPSecConnection_DeepCopyInto g h of (out, h') \<Rightarrow> (Some out, h')))"

definition IPSecConnection_DeepCopyObject :: "conn_ref option \<Rightarrow> heap \<Rightarrow> conn_ref option \<times> heap" where
  "IPSecConnection_DeepCopyObject g h = (case IPSecConnection_DeepCopy g h of
      (Some c, h') \<Rightarrow> (Some c, h')
    | (None, h') \<Rightarrow> (None, h'))"

fun copy_items :: "conn_ref list \<Rightarrow> heap \<Rightarrow> conn_ref list \<times> heap" where
  "copy_items [] h = ([], h)"
| "copy_items (c # cs) h =
     (case IPSecConnection_DeepCopyInto c h of (c', h1) \<Rightarrow> (case copy_items cs h1 of (cs', h2) \<Rightarrow> (c' # cs', h2)))"

text \<open>A list of connections is its items, absent when the slice is nil.\<close>

definition IPSecConnectionList_DeepCopyInto :: "conn_ref list option \<Rightarrow> heap \<Rightarrow> conn_ref list option \<times> heap" where
  "IPSecConnectionList_DeepCopyInto items h = (case items of
      None \<Rightarrow> (None, h)
    | Some cs \<Rightarrow> (case copy_items cs h of (cs', h') \<Rightarrow> (Some cs', h')))"

definition IPSecConnectionList_DeepCopy :: "conn_ref list option option \<Rightarrow> heap \<Rightarrow> conn_ref list option option \<times> heap" where
  "IPSecConnectionList_DeepCopy l h = (case l of None \<Rightarrow> (None, h)
    | Some items \<Rightarrow> (case IPSecConnectionList_DeepCopyInto items h of (out, h') \<Rightarrow> (Some out, h')))"

definition IPSecConnectionList_DeepCopyObject :: "conn_ref list option option \<Rightarrow> heap \<Rightarrow> conn_ref list option option \<times> heap" where
  "IPSecConnectionList_DeepCopyObject l h = (case IPSecConnectionList_DeepCopy l h of
      (Some c, h') \<Rightarrow> (Some c, h')
    | (None, h') \<Rightarrow> (None, h'))"

section \<open>The copies of groups (zz_generated.deepcopy.go)\<close>

text \<open>The interface name is a pointer to a string that no code assigns; the copy shares it.\<close>

record group_spec_ref =
  pr_HostNetwork :: bool
  pr_Annotations :: "loc option"
  pr_NodeName :: string
  pr_InterfaceName :: "string option"

record group_ref_obj =
  go_Name :: string
  go_Namespace :: string
  go_Spec :: group_spec_ref

definition read_group :: "heap \<Rightarrow> group_ref_obj \<Rightarrow> charon_group" where
  "read_group h g = \<lparr>g_name = go_Name g, g_namespace = go_Namespace g,
     g_spec = \<lparr>gs_hostNetwork = pr_HostNetwork (go_Spec g), gs_annotations = read_strs h (pr_Annotations (go_Spec g)),
       gs_nodeName = pr_NodeName (go_Spec g), gs_interfaceName = pr_InterfaceName (go_Spec g)\<rparr>\<rparr>"

definition CharonGroupSpec_DeepCopyInto :: "group_spec_ref \<Rightarrow> heap \<Rightarrow> group_spec_ref \<times> heap" where
  "CharonGroupSpec_DeepCopyInto s h = (case pr_Annotations s of
      None \<Rightarrow> (s, h)
    | Some l \<Rightarrow> (case new_cell (StrMap (foldl (\<lambda>m (key, val). gput key val m) [] (str_map (h ! l)))) h of
        (l', h') \<Rightarrow> (s\<lparr>pr_Annotations := Some l'\<rparr>, h')))"

definition CharonGroup_DeepCopyInto :: "group_ref_obj \<Rightarrow> heap \<Rightarrow> group_ref_obj \<times> heap" where
  "CharonGroup_DeepCopyInto g h =
     (case CharonGroupSpec_DeepCopyInto (go_Spec g) h of (spec, h') \<Rightarrow> (g\<lparr>go_Spec := spec\<rparr>, h'))"

definition CharonGroup_DeepCopy :: "group_ref_obj option \<Rightarrow> heap \<Rightarrow> group_ref_obj option \<times> heap" where
  "CharonGroup_DeepCopy g h = (case g of None \<Rightarrow> (None, h)
    | Some g \<Rightarrow> (case CharonGroup_DeepCopyInto g h of (out, h') \<Rightarrow> (Some out, h')))"

definition CharonGroupSpec_DeepCopy :: "group_spec_ref option \<Rightarrow> heap \<Rightarrow> group_spec_ref option \<times> heap" where
  "CharonGroupSpec_DeepCopy s h = (case s of None \<Rightarrow> (None, h)
    | Some s \<Rightarrow> (case CharonGroupSpec_DeepCopyInto s h of (out, h') \<Rightarrow> (Some out, h')))"

fun copy_groups :: "group_ref_obj list \<Rightarrow> heap \<Rightarrow> group_ref_obj list \<times> heap" where
  "copy_groups [] h = ([], h)"
| "copy_groups (g # gs) h =
     (case CharonGroup_DeepCopyInto g h of (g', h1) \<Rightarrow> (case copy_groups gs h1 of (gs', h2) \<Rightarrow> (g' # gs', h2)))"

definition CharonGroupList_DeepCopyInto :: "group_ref_obj list option \<Rightarrow> heap \<Rightarrow> group_ref_obj list option \<times> heap" where
  "CharonGroupList_DeepCopyInto items h = (case items of
      None \<Rightarrow> (None, h)
    | Some gs \<Rightarrow> (case copy_groups gs h of (gs', h') \<Rightarrow> (Some gs', h')))"

definition CharonGroupList_DeepCopy :: "group_ref_obj list option option \<Rightarrow> heap \<Rightarrow> group_ref_obj list option option \<times> heap" where
  "CharonGroupList_DeepCopy l h = (case l of None \<Rightarrow> (None, h)
    | Some items \<Rightarrow> (case CharonGroupList_DeepCopyInto items h of (out, h') \<Rightarrow> (Some out, h')))"

definition CharonGroupList_DeepCopyObject :: "group_ref_obj list option option \<Rightarrow> heap \<Rightarrow> group_ref_obj list option option \<times> heap" where
  "CharonGroupList_DeepCopyObject l h = (case CharonGroupList_DeepCopy l h of
      (Some c, h') \<Rightarrow> (Some c, h')
    | (None, h') \<Rightarrow> (None, h'))"

definition CharonGroup_DeepCopyObject :: "group_ref_obj option \<Rightarrow> heap \<Rightarrow> group_ref_obj option \<times> heap" where
  "CharonGroup_DeepCopyObject g h = (case CharonGroup_DeepCopy g h of
      (Some c, h') \<Rightarrow> (Some c, h')
    | (None, h') \<Rightarrow> (None, h'))"

section \<open>Writing through a copy\<close>

text \<open>\<open>c.Spec.Children[key] = v\<close>; a write to a nil map panics.\<close>

definition put_child :: "conn_ref \<Rightarrow> string \<Rightarrow> child_ref \<Rightarrow> heap \<Rightarrow> (unit, heap) outcome" where
  "put_child c key v h = (case sr_Children (or_Spec c) of
      None \<Rightarrow> Panic
    | Some l \<Rightarrow> Ok (h[l := ChildMap (gput key v (child_map (h ! l)))]))"

text \<open>\<open>slices.Delete(s, 0, 1)\<close> moves the elements of the array and clears the last one.\<close>

definition delete_first :: "slice_ref \<Rightarrow> heap \<Rightarrow> slice_ref \<times> heap" where
  "delete_first s h =
     (let xs = str_array (h ! sl_Array s); n = sl_Len s
      in (s\<lparr>sl_Len := n - 1\<rparr>, h[sl_Array s := StrArray (drop 1 (take n xs) @ [[]] @ drop n xs)]))"

text \<open>What the mutating webhook does to the connection it fetched: see \<open>take_ip\<close>.\<close>

definition take_ip_ref :: "string \<Rightarrow> string \<Rightarrow> string \<Rightarrow> conn_ref \<Rightarrow> heap \<Rightarrow> (unit, conn_ref \<times> heap) outcome" where
  "take_ip_ref childName poolName timestamp c h =
     (case st_FreeIPs (or_Status c) of None \<Rightarrow> Panic
      | Some l \<Rightarrow>
     (case gget (free_map (h ! l)) childName of
        Some (Some pl) \<Rightarrow>
     (case gget (pool_map (h ! pl)) poolName of
        Some (Some s) \<Rightarrow>
          if sl_Len s = 0 then Panic
          else (case delete_first s h of (s', h1) \<Rightarrow>
            let ip = hd (str_array (h ! sl_Array s));
                h2 = h1[pl := PoolMap (gput poolName (Some s') (pool_map (h1 ! pl)))]
            in (case st_PendingIPs (or_Status c) of
                  Some pend \<Rightarrow> Ok (c, h2[pend := StrMap (gput ip timestamp (str_map (h2 ! pend)))])
                | None \<Rightarrow> (case new_cell (StrMap [(ip, timestamp)]) h2 of (pend, h3) \<Rightarrow>
                    Ok (c\<lparr>or_Status := (or_Status c)\<lparr>st_PendingIPs := Some pend\<rparr>\<rparr>, h3))))
      | _ \<Rightarrow> Panic)
      | _ \<Rightarrow> Panic))"

end
