(* ===== verification/Deep_Copy_Props.thy ===== *)
theory Deep_Copy_Props
  imports Deep_Copy
begin

text \<open>
  What a deep copy of a connection shares with its original: the locations from which each part is
  read (a part keeps its value as long as these cells do), and the effect of writing through a copy.
\<close>

section \<open>Maps of values\<close>

lemma gget_map_vals: "gget (map_values f m) k = map_option f (gget m k)"
  by (induction m) (auto simp: map_values_def)

lemma map_values_put: "map_values f (gput k v m) = gput k (f v) (map_values f m)"
  by (induction m) (auto simp: map_values_def gput_def)

lemma map_values_cong: "(\<And>k v. (k, v) \<in> set m \<Longrightarrow> f v = g v) \<Longrightarrow> map_values f m = map_values g m"
  by (auto simp: map_values_def)

lemma gput_new: "k \<notin> fst ` set m \<Longrightarrow> gput k v m = m @ [(k, v)]"
  by (induction m) (auto simp: gput_def)

lemma map_values_changed:
  assumes "gok m" "gget m k = Some v" "\<And>k' v'. (k', v') \<in> set m \<Longrightarrow> k' \<noteq> k \<Longrightarrow> f v' = g v'"
  shows "map_values f m = gput k (f v) (map_values g m)"
  using assms
proof (induction m)
  case (Cons kv m)
  obtain a b where kv: "kv = (a, b)" by (cases kv)
  show ?case
  proof (cases "a = k")
    case True
    from Cons.prems(1) kv True have "k \<notin> fst ` set m" by (simp add: gok_def)
    then have "f v' = g v'" if "(k', v') \<in> set m" for k' v' using Cons.prems(3) [of k' v'] that by force
    then have "map_values f m = map_values g m" by (rule map_values_cong)
    with Cons.prems(2) kv True show ?thesis by (simp add: map_values_def gput_def)
  next
    case False
    then have "f b = g b" using Cons.prems(3) [of a b] kv by simp
    moreover have "map_values f m = gput k (f v) (map_values g m)"
      using Cons.prems kv False by (intro Cons.IH) (auto simp: gok_def)
    ultimately show ?thesis using kv False by (simp add: map_values_def gput_def)
  qed
qed simp

lemma copied_entries: "gok m \<Longrightarrow> foldl (\<lambda>m (key, val). gput key (f val) m) [] m = map_values f m"
proof (induction m rule: rev_induct)
  case (snoc kv m)
  obtain a b where kv: "kv = (a, b)" by (cases kv)
  from snoc.prems kv have "a \<notin> fst ` set (map_values f m)" "gok m"
    by (auto simp: gok_def map_values_def image_image case_prod_unfold)
  with snoc.IH kv show ?case by (simp add: gput_new) (simp add: map_values_def)
qed (simp add: map_values_def)

lemma map_values_id: "map_values (\<lambda>v. v) m = m"
  by (simp add: map_values_def)

section \<open>The cells of a resource\<close>

definition opt_loc :: "loc option \<Rightarrow> loc list" where
  "opt_loc l = (case l of None \<Rightarrow> [] | Some l \<Rightarrow> [l])"

definition slice_locs :: "slice_ref option \<Rightarrow> loc list" where
  "slice_locs s = (case s of None \<Rightarrow> [] | Some s \<Rightarrow> [sl_Array s])"

definition pools_locs :: "heap \<Rightarrow> loc option \<Rightarrow> loc list" where
  "pools_locs h l = (case l of None \<Rightarrow> [] | Some l \<Rightarrow> l # concat (map (\<lambda>(_, s). slice_locs s) (pool_map (h ! l))))"

definition free_locs :: "heap \<Rightarrow> loc option \<Rightarrow> loc list" where
  "free_locs h l = (case l of None \<Rightarrow> [] | Some l \<Rightarrow> l # concat (map (\<lambda>(_, p). pools_locs h p) (free_map (h ! l))))"

definition child_locs :: "heap \<Rightarrow> child_ref \<Rightarrow> loc list" where
  "child_locs h c = slice_locs (cr_LocalIPs c) @ slice_locs (cr_RemoteIPs c) @ pools_locs h (cr_IpPools c) @ opt_loc (cr_Extra c)"

definition spec_locs :: "heap \<Rightarrow> spec_ref \<Rightarrow> loc list" where
  "spec_locs h s = opt_loc (sr_Children s) @ concat (map (\<lambda>(_, c). child_locs h c) (children_at h (sr_Children s)))
     @ opt_loc (sr_Extra s)"

definition status_locs :: "heap \<Rightarrow> status_ref \<Rightarrow> loc list" where
  "status_locs h st = opt_loc (st_XfrmGatewayIPs st) @ free_locs h (st_FreeIPs st) @ opt_loc (st_PendingIPs st)
     @ opt_loc (st_ChildrenState st)"

definition same_at :: "loc list \<Rightarrow> heap \<Rightarrow> heap \<Rightarrow> bool" where
  "same_at ls h h' \<longleftrightarrow> (\<forall>l \<in> set ls. h' ! l = h ! l)"

lemma same_at_parts [simp]:
  "same_at [] h h'" "same_at (l # ls) h h' \<longleftrightarrow> h' ! l = h ! l \<and> same_at ls h h'"
  "same_at (ls @ ks) h h' \<longleftrightarrow> same_at ls h h' \<and> same_at ks h h'"
  "same_at (concat (map f xs)) h h' \<longleftrightarrow> (\<forall>x \<in> set xs. same_at (f x) h h')"
  by (auto simp: same_at_def)

lemma read_slice_frame: "same_at (slice_locs s) h h' \<Longrightarrow> read_slice h' s = read_slice h s"
  by (cases s) (simp_all add: read_slice_def slice_locs_def)

lemma read_strs_frame: "same_at (opt_loc l) h h' \<Longrightarrow> read_strs h' l = read_strs h l"
  by (cases l) (simp_all add: read_strs_def opt_loc_def)

lemma pools_frame:
  assumes "same_at (pools_locs h l) h h'"
  shows "read_pools h' l = read_pools h l" "pools_locs h' l = pools_locs h l"
  using assms by (cases l, auto simp: read_pools_def pools_locs_def intro!: map_values_cong read_slice_frame)+

lemma free_frame:
  assumes "same_at (free_locs h l) h h'"
  shows "map_option (\<lambda>l. map_values (read_free h') (free_map (h' ! l))) l = map_option (\<lambda>l. map_values (read_free h) (free_map (h ! l))) l"
    "free_locs h' l = free_locs h l"
  using assms
  by (cases l, auto simp: free_locs_def read_free_def pools_frame intro!: map_values_cong arg_cong [where f = concat] map_cong)+

lemma child_frame:
  assumes "same_at (child_locs h c) h h'"
  shows "read_child h' c = read_child h c" "child_locs h' c = child_locs h c"
  using assms by (simp_all add: read_child_def child_locs_def read_slice_frame [where h = h and h' = h']
      read_strs_frame [where h = h and h' = h'] pools_frame [where h = h and h' = h'])

lemma spec_frame:
  assumes "same_at (spec_locs h s) h h'"
  shows "read_spec h' s = read_spec h s"
proof -
  have c: "children_at h' (sr_Children s) = children_at h (sr_Children s)"
    using assms by (cases "sr_Children s") (simp_all add: spec_locs_def opt_loc_def children_at_def)
  have "map_values (read_child h') (children_at h (sr_Children s)) = map_values (read_child h) (children_at h (sr_Children s))"
    using assms by (intro map_values_cong child_frame) (auto simp: spec_locs_def)
  with c assms show ?thesis by (simp add: read_spec_def spec_locs_def read_strs_frame [where h = h and h' = h'])
qed

lemma spec_locs_frame:
  assumes "same_at (spec_locs h s) h h'"
  shows "spec_locs h' s = spec_locs h s"
proof -
  have c: "children_at h' (sr_Children s) = children_at h (sr_Children s)"
    using assms by (cases "sr_Children s") (simp_all add: spec_locs_def opt_loc_def children_at_def)
  have "child_locs h' (snd x) = child_locs h (snd x)" if "x \<in> set (children_at h (sr_Children s))" for x
    using that assms by (intro child_frame) (auto simp: spec_locs_def case_prod_unfold)
  then show ?thesis unfolding spec_locs_def c case_prod_unfold by (simp cong: map_cong)
qed

lemma status_frame:
  assumes "same_at (status_locs h st) h h'"
  shows "read_status h' st = read_status h st" "status_locs h' st = status_locs h st"
  using assms by (simp_all add: read_status_def status_locs_def read_strs_frame [where h = h and h' = h']
      free_frame [where h = h and h' = h'])

section \<open>Well-formed connections\<close>

text \<open>
  As they come out of the JSON decoder: every reference is in the store, no two parts of the status
  share a cell, the specification shares none with it, and no slice is longer than its array.
\<close>

definition pools_ok :: "heap \<Rightarrow> loc option \<Rightarrow> bool" where
  "pools_ok h l = (case l of None \<Rightarrow> True | Some l \<Rightarrow> gok (pool_map (h ! l)) \<and> list_all (\<lambda>(_, s). case s of
      None \<Rightarrow> True | Some s \<Rightarrow> sl_Len s \<le> length (str_array (h ! sl_Array s))) (pool_map (h ! l)))"

definition free_ok :: "heap \<Rightarrow> loc option \<Rightarrow> bool" where
  "free_ok h l = (case l of None \<Rightarrow> True | Some l \<Rightarrow> gok (free_map (h ! l)) \<and> list_all (\<lambda>(_, p). pools_ok h p) (free_map (h ! l)))"

definition conn_wf :: "heap \<Rightarrow> conn_ref \<Rightarrow> bool" where
  "conn_wf h c \<longleftrightarrow> list_all (\<lambda>l. l < length h) (spec_locs h (or_Spec c) @ status_locs h (or_Status c))
     \<and> distinct (status_locs h (or_Status c))
     \<and> list_all (\<lambda>l. l \<notin> set (status_locs h (or_Status c))) (spec_locs h (or_Spec c))
     \<and> gok (children_at h (sr_Children (or_Spec c))) \<and> free_ok h (st_FreeIPs (or_Status c))"

lemma pools_ok_frame: "same_at (pools_locs h l) h h' \<Longrightarrow> pools_ok h' l = pools_ok h l"
  by (cases l) (auto simp: pools_ok_def pools_locs_def slice_locs_def list_all_iff split: option.splits prod.splits)

lemma free_ok_frame: "same_at (free_locs h l) h h' \<Longrightarrow> free_ok h' l = free_ok h l"
proof (cases l)
  case (Some a)
  assume s: "same_at (free_locs h l) h h'"
  with Some have "pools_ok h' (snd x) = pools_ok h (snd x)" if "x \<in> set (free_map (h ! a))" for x
    using that by (intro pools_ok_frame) (auto simp: free_locs_def case_prod_unfold)
  with s Some show ?thesis by (auto simp: free_ok_def free_locs_def list_all_iff case_prod_unfold)
qed (simp add: free_ok_def)

section \<open>Taking an address\<close>

lemma gput_split: "k \<notin> fst ` set m1 \<Longrightarrow> gput k v (m1 @ (k, w) # m2) = m1 @ (k, v) # m2"
  by (induction m1) (auto simp: gput_def)

lemma gget_split:
  assumes "gget m k = Some v"
  obtains m1 m2 where "m = m1 @ (k, v) # m2" "k \<notin> fst ` set m1"
  using assms
proof (induction m arbitrary: thesis)
  case (Cons x m)
  obtain a b where x: "x = (a, b)" by (cases x)
  show ?case
  proof (cases "a = k")
    case True
    then show ?thesis using Cons.prems x by (intro Cons.prems(1) [of "[]" m]) auto
  next
    case False
    with Cons.prems x obtain m1 m2 where "m = m1 @ (k, v) # m2" "k \<notin> fst ` set m1"
      by (auto intro: Cons.IH)
    then show ?thesis using False x by (intro Cons.prems(1) [of "x # m1" m2]) auto
  qed
qed simp

lemma same_at_update: "l \<notin> set ls \<Longrightarrow> same_at ls h (h'[l := x]) = same_at ls h h'"
proof -
  assume "l \<notin> set ls"
  then have "h'[l := x] ! k = h' ! k" if "k \<in> set ls" for k
    using that by (intro nth_list_update_neq) auto
  then show ?thesis by (simp add: same_at_def)
qed

lemma same_at_refl [simp]: "same_at ls h h"
  by (simp add: same_at_def)

lemma map_values_split: "map_values g (m1 @ (k, v) # m2) = map_values g m1 @ (k, g v) # map_values g m2"
  by (simp add: map_values_def)

lemma keys_map_values: "fst ` set (map_values g m) = fst ` set m"
  by (force simp: map_values_def)

lemma gget_append_new: "k \<notin> fst ` set m1 \<Longrightarrow> gget (m1 @ m2) k = gget m2 k"
  by (induction m1) (auto simp: gget_def)

lemma some_locs: "opt_loc (Some l) = [l]" "slice_locs (Some s) = [sl_Array s]"
  "pools_locs h (Some l) = l # concat (map (\<lambda>(_, s). slice_locs s) (pool_map (h ! l)))"
  by (simp add: opt_loc_def) (simp add: slice_locs_def, simp add: pools_locs_def)

text \<open>The pool in which the address is: its cells, and what is left of the maps around it.\<close>

lemma free_pool_found:
  assumes "free_of (read_status h st) cn pn = Some (ip # rest)"
  obtains l pl s where "st_FreeIPs st = Some l" "gget (free_map (h ! l)) cn = Some (Some pl)"
    "gget (pool_map (h ! pl)) pn = Some (Some s)" "take (sl_Len s) (str_array (h ! sl_Array s)) = ip # rest"
proof -
  from assms obtain l fr where l: "st_FreeIPs st = Some l" "gget (free_map (h ! l)) cn = Some fr"
    "gget (read_free h fr) pn = Some (ip # rest)"
    by (cases "st_FreeIPs st") (auto simp: free_of_def read_status_def gget_map_vals bind_eq_Some_conv)
  then obtain pl sr where p: "fr = Some pl" "gget (pool_map (h ! pl)) pn = Some sr" "elems (read_slice h sr) = ip # rest"
    by (cases fr) (auto simp: read_free_def read_pools_def gget_map_vals)
  then obtain s where "sr = Some s" "take (sl_Len s) (str_array (h ! sl_Array s)) = ip # rest"
    by (cases sr) (auto simp: read_slice_def)
  with l p that show thesis by blast
qed

lemma shorter_slice:
  assumes "take (sl_Len s) xs = ip # rest" "sl_Len s \<le> length xs"
  shows "take (sl_Len s - 1) (drop 1 (take (sl_Len s) xs) @ [[]] @ drop (sl_Len s) xs) = rest" "sl_Len s \<noteq> 0" "hd xs = ip"
proof -
  from assms have "length (ip # rest) = sl_Len s" by (metis length_take min.absorb2)
  with assms show "take (sl_Len s - 1) (drop 1 (take (sl_Len s) xs) @ [[]] @ drop (sl_Len s) xs) = rest" "sl_Len s \<noteq> 0" by auto
  with assms show "hd xs = ip" by (cases xs) (auto simp: take_Cons split: nat.splits)
qed

lemma apart_locs:
  assumes "distinct (A @ (l # P1 @ (pl # S1 @ a # S2) @ P2) @ pend # C)"
  shows "l \<noteq> a" "l \<noteq> pl" "l \<noteq> pend" "a \<noteq> pl" "a \<noteq> pend" "pl \<noteq> pend"
  using assms by auto

lemma apart_lists:
  assumes "distinct (A @ (l # P1 @ (pl # S1 @ a # S2) @ P2) @ pend # C)" "x \<in> {a, pl, pend}"
  shows "x \<notin> set A" "x \<notin> set P1" "x \<notin> set P2" "x \<notin> set S1" "x \<notin> set S2" "x \<notin> set C"
  using assms by auto

lemma take_ip_ref_reads:
  assumes "free_ok h (st_FreeIPs st)" "distinct (status_locs h st)" "list_all (\<lambda>l. l < length h) (status_locs h st)"
    and "free_of (read_status h st) cn pn = Some (ip # rest)" "st_PendingIPs st = Some pend" "or_Status c = st"
    and "Status conn = read_status h st"
  shows "\<exists>h2. take_ip_ref cn pn ts c h = Ok (c, h2) \<and> read_status h2 st = Status (take_ip cn pn rest ip ts conn)
    \<and> (\<forall>ls. (\<forall>l \<in> set ls. l \<notin> set (status_locs h st)) \<longrightarrow> same_at ls h h2)"
proof -
  obtain l pl s where f: "st_FreeIPs st = Some l" "gget (free_map (h ! l)) cn = Some (Some pl)"
    "gget (pool_map (h ! pl)) pn = Some (Some s)" "take (sl_Len s) (str_array (h ! sl_Array s)) = ip # rest"
    using assms(4) by (rule free_pool_found)
  obtain fm1 fm2 where fm: "free_map (h ! l) = fm1 @ (cn, Some pl) # fm2" "cn \<notin> fst ` set fm1"
    using f(2) by (rule gget_split)
  obtain pm1 pm2 where pm: "pool_map (h ! pl) = pm1 @ (pn, Some s) # pm2" "pn \<notin> fst ` set pm1"
    using f(3) by (rule gget_split)
  let ?a = "sl_Array s" and ?xs = "str_array (h ! sl_Array s)" and ?n = "sl_Len s"
  let ?arr = "StrArray (drop 1 (take ?n ?xs) @ [[]] @ drop ?n ?xs)" and ?s' = "s\<lparr>sl_Len := ?n - 1\<rparr>"
  let ?pools = "PoolMap (pm1 @ (pn, Some ?s') # pm2)"
  obtain h2 where h2: "h2 = h[?a := ?arr, pl := ?pools, pend := StrMap (gput ip ts (str_map (h ! pend)))]" by blast
  have "?n \<le> length ?xs"
    using assms(1) f(1) fm pm by (simp add: free_ok_def pools_ok_def)
  from shorter_slice [OF f(4) this] have short: "take (?n - 1) (drop 1 (take ?n ?xs) @ [[]] @ drop ?n ?xs) = rest" "?n \<noteq> 0" "hd ?xs = ip" .
  let ?PL = "\<lambda>m. concat (map (\<lambda>(_, p). pools_locs h p) m)" and ?SL = "\<lambda>m. concat (map (\<lambda>(_, s). slice_locs s) m)"
  have locs: "status_locs h st = opt_loc (st_XfrmGatewayIPs st) @ (l # ?PL fm1 @ (pl # ?SL pm1 @ ?a # ?SL pm2) @ ?PL fm2)
      @ pend # opt_loc (st_ChildrenState st)"
    using f(1) fm(1) pm(1) assms(5) by (simp add: status_locs_def free_locs_def some_locs)
  have ne: "l \<noteq> ?a" "l \<noteq> pl" "l \<noteq> pend" "?a \<noteq> pl" "?a \<noteq> pend" "pl \<noteq> pend"
    using apart_locs [OF assms(2) [unfolded locs]] by simp_all
  have lt: "?a < length h" "pl < length h" "pend < length h" using assms(3) unfolding locs by simp_all
  have same: "same_at X h h2" if "?a \<notin> set X" "pl \<notin> set X" "pend \<notin> set X" for X
    using that by (simp add: h2 same_at_update)
  have at: "h2 ! l = h ! l" "h2 ! ?a = ?arr" "h2 ! pl = ?pools" "h2 ! pend = StrMap (gput ip ts (str_map (h ! pend)))"
    unfolding h2 using ne lt by (simp_all add: nth_list_update)
  have out: "same_at (opt_loc (st_XfrmGatewayIPs st)) h h2" "same_at (opt_loc (st_ChildrenState st)) h h2"
    "same_at (?PL fm1) h h2" "same_at (?PL fm2) h h2" "same_at (?SL pm1) h h2" "same_at (?SL pm2) h h2"
    by (intro same; rule apart_lists [OF assms(2) [unfolded locs]]; simp)+
  have pools: "map_values (read_slice h2) m = map_values (read_slice h) m" if "same_at (?SL m) h h2" for m
    using that by (intro map_values_cong read_slice_frame) (auto simp: case_prod_unfold)
  have free: "map_values (read_free h2) m = map_values (read_free h) m" if "same_at (?PL m) h h2" for m
    using that unfolding read_free_def
    by (intro map_values_cong arg_cong [where f = "\<lambda>x. map_values elems (gmap_of x)"] pools_frame) (auto simp: case_prod_unfold)
  let ?E = "\<lambda>m. map_values elems (map_values (read_slice h) m)"
  have slice: "read_slice h2 (Some ?s') = Some rest"
  proof -
    have "sl_Array ?s' = ?a" "sl_Len ?s' = ?n - 1" by simp_all
    then show ?thesis using short(1) by (simp only: read_slice_def option.map at str_array.simps)
  qed
  let ?pools' = "?E pm1 @ (pn, rest) # ?E pm2"
  have rf: "read_free h2 (Some pl) = ?pools'"
    by (simp only: read_free_def read_pools_def option.map gmap_of_simps at pool_map.simps map_values_split pools out slice elems_simps)
  have ro: "read_free h (Some pl) = ?E pm1 @ (pn, elems (read_slice h (Some s))) # ?E pm2"
    by (simp add: read_free_def read_pools_def pm(1) map_values_split)
  have put1: "gput pn rest (read_free h (Some pl)) = ?pools'"
    unfolding ro by (rule gput_split) (simp add: keys_map_values pm(2))
  let ?F = "\<lambda>m. map_values (read_free h) m"
  have new: "FreeIPs (read_status h2 st) = Some (?F fm1 @ (cn, ?pools') # ?F fm2)"
    by (simp only: read_status_def ipsec_status.simps ipsec_status.select_convs f(1) option.map at fm(1) map_values_split free out rf)
  have old: "FreeIPs (read_status h st) = Some (?F fm1 @ (cn, read_free h (Some pl)) # ?F fm2)"
    by (simp add: read_status_def f(1) fm(1) map_values_split)
  have get: "gget (?F fm1 @ (cn, read_free h (Some pl)) # ?F fm2) cn = Some (read_free h (Some pl))"
    using fm(2) by (simp add: gget_append_new keys_map_values)
  have put: "gput cn ?pools' (?F fm1 @ (cn, read_free h (Some pl)) # ?F fm2) = ?F fm1 @ (cn, ?pools') # ?F fm2"
    by (rule gput_split) (simp add: keys_map_values fm(2))
  have rest: "read_strs h2 (st_XfrmGatewayIPs st) = read_strs h (st_XfrmGatewayIPs st)"
    "read_strs h2 (st_ChildrenState st) = read_strs h (st_ChildrenState st)"
    using out by (simp_all add: read_strs_frame)
  have "read_status h2 st = Status (take_ip cn pn rest ip ts conn)"
  proof -
    have "Status (take_ip cn pn rest ip ts conn) = (read_status h st)\<lparr>FreeIPs := Some (?F fm1 @ (cn, ?pools') # ?F fm2),
        PendingIPs := Some (gput ip ts (str_map (h ! pend)))\<rparr>"
      unfolding take_ip_def Let_def assms(7) old
      by (simp add: get put1 put assms(5) read_status_def read_strs_def)
    also have "\<dots> = read_status h2 st"
    proof (rule ipsec_status.equality)
      show "PendingIPs ((read_status h st)\<lparr>FreeIPs := Some (?F fm1 @ (cn, ?pools') # ?F fm2),
        PendingIPs := Some (gput ip ts (str_map (h ! pend)))\<rparr>) = PendingIPs (read_status h2 st)"
        by (simp add: read_status_def read_strs_def assms(5) at(4))
    qed (simp_all add: new, use rest in \<open>simp_all add: read_status_def\<close>)
    finally show ?thesis by simp
  qed
  moreover have "take_ip_ref cn pn ts c h = Ok (c, h2)"
  proof -
    have "gput pn (Some ?s') (pool_map (h ! pl)) = pm1 @ (pn, Some ?s') # pm2"
      unfolding pm(1) by (rule gput_split) (rule pm(2))
    then show ?thesis using f short(2,3) ne lt assms(5,6)
      by (simp add: take_ip_ref_def delete_first_def Let_def nth_list_update h2)
  qed
  moreover have "same_at ls h h2" if "\<forall>l \<in> set ls. l \<notin> set (status_locs h st)" for ls
    using that unfolding locs by (intro same) auto
  ultimately show ?thesis by blast
qed

section \<open>Copies\<close>

text \<open>A copy leaves the store as it is and has the children's map, if any, in a cell of its own.\<close>

lemma copy_store:
  assumes "IPSecConnection_DeepCopyInto c h = (c', h')"
  shows "or_Status c' = or_Status c" "\<exists>new. h' = h @ new"
    "sr_Children (or_Spec c') = None \<or> sr_Children (or_Spec c') = Some (length h)"
  using assms
  by (auto simp: IPSecConnection_DeepCopyInto_def IPSecConnectionSpec_DeepCopyInto_def new_cell_def
      split: option.splits prod.splits)

lemma same_at_append: "list_all (\<lambda>l. l < length h) ls \<Longrightarrow> same_at ls h (h @ new)"
  by (auto simp: same_at_def list_all_iff nth_append)

lemma conn_frame:
  assumes "same_at (spec_locs h (or_Spec c) @ status_locs h (or_Status c)) h h'"
  shows "read_conn h' c = read_conn h c"
  using assms by (simp add: read_conn_def spec_frame [where h = h and h' = h'] status_frame [where h = h and h' = h'])

lemma copied_spec:
  assumes "IPSecConnectionSpec_DeepCopyInto s h = (s', h')" "list_all (\<lambda>l. l < length h) (spec_locs h s)"
    and "gok (children_at h (sr_Children s))"
  shows "read_spec h' s' = read_spec h s"
proof (cases "sr_Children s")
  case None
  with assms(1) show ?thesis by (simp add: IPSecConnectionSpec_DeepCopyInto_def)
next
  case (Some l)
  let ?m = "child_map (h ! l)"
  have m: "foldl (\<lambda>m (key, val). gput key (Child_DeepCopyInto val) m) [] ?m = ?m"
    using assms(3) Some by (simp add: copied_entries children_at_def Child_DeepCopyInto_def map_values_id)
  have s': "s' = s\<lparr>sr_Children := Some (length h)\<rparr>" "h' = h @ [ChildMap ?m]"
    using assms(1) Some m by (simp_all add: IPSecConnectionSpec_DeepCopyInto_def new_cell_def)
  have fr: "same_at (spec_locs h s) h h'" unfolding s' by (rule same_at_append [OF assms(2)])
  have "map_values (read_child h') ?m = map_values (read_child h) ?m"
    using fr Some by (intro map_values_cong child_frame) (auto simp: spec_locs_def children_at_def)
  moreover have "read_strs h' (sr_Extra s) = read_strs h (sr_Extra s)"
    using fr by (intro read_strs_frame) (simp add: spec_locs_def)
  ultimately show ?thesis using Some s' by (simp add: read_spec_def children_at_def)
qed

lemma copy_reads:
  assumes "conn_wf h c" "IPSecConnection_DeepCopyInto c h = (c', h')"
  shows "read_conn h' c' = read_conn h c" "read_conn h' c = read_conn h c"
    "same_at (spec_locs h (or_Spec c) @ status_locs h (or_Status c)) h h'"
proof -
  obtain s' where s': "IPSecConnectionSpec_DeepCopyInto (or_Spec c) h = (s', h')" "c' = c\<lparr>or_Spec := s', or_Status := or_Status c\<rparr>"
    using assms(2) by (auto simp: IPSecConnection_DeepCopyInto_def split: prod.splits)
  show fr: "same_at (spec_locs h (or_Spec c) @ status_locs h (or_Status c)) h h'"
    using copy_store(2) [OF assms(2)] assms(1) unfolding conn_wf_def by (elim exE) (simp only: same_at_append)
  show "read_conn h' c = read_conn h c" by (rule conn_frame [OF fr])
  have "read_spec h' s' = read_spec h (or_Spec c)"
    using assms(1) by (intro copied_spec [OF s'(1)]) (simp_all add: conn_wf_def)
  then show "read_conn h' c' = read_conn h c"
    using s'(2) fr by (simp add: read_conn_def status_frame [where h = h and h' = h'])
qed

lemma copied_spec_locs:
  assumes "conn_wf h c" "IPSecConnection_DeepCopyInto c h = (c', h')" "l \<in> set (spec_locs h' (or_Spec c'))"
  shows "l \<notin> set (status_locs h (or_Status c))"
proof -
  let ?s = "or_Spec c"
  note wf = assms(1) [unfolded conn_wf_def]
  have fr: "same_at (spec_locs h ?s) h h'" using copy_reads(3) [OF assms(1,2)] by simp
  have sub: "l = length h \<or> l \<in> set (spec_locs h ?s)"
  proof (cases "sr_Children ?s")
    case None
    with assms(2,3) show ?thesis
      by (auto simp: IPSecConnection_DeepCopyInto_def IPSecConnectionSpec_DeepCopyInto_def)
  next
    case (Some k)
    let ?m = "child_map (h ! k)"
    have "foldl (\<lambda>m (key, val). gput key (Child_DeepCopyInto val) m) [] ?m = ?m"
      using wf Some by (simp add: copied_entries children_at_def Child_DeepCopyInto_def map_values_id)
    with Some assms(2) have c': "or_Spec c' = ?s\<lparr>sr_Children := Some (length h)\<rparr>" "h' ! length h = ChildMap ?m"
      by (auto simp: IPSecConnection_DeepCopyInto_def IPSecConnectionSpec_DeepCopyInto_def new_cell_def)
    have "child_locs h' (snd x) = child_locs h (snd x)" if "x \<in> set ?m" for x
      using fr Some that by (intro child_frame) (auto simp: spec_locs_def children_at_def case_prod_unfold)
    with c' assms(3) Some show ?thesis by (auto simp: spec_locs_def children_at_def opt_loc_def case_prod_unfold)
  qed
  then show ?thesis using wf by (auto simp: list_all_iff)
qed

text \<open>The children are the copy's own: a child put into its map does not reach the original.\<close>

lemma copied_children_apart:
  assumes "conn_wf h c" "IPSecConnection_DeepCopyInto c h = (c', h')" "put_child c' key v h' = Ok h2"
  shows "read_conn h2 c = read_conn h c"
proof -
  have l: "sr_Children (or_Spec c') = Some (length h)" and h2: "h2 = h'[length h := ChildMap (gput key v (child_map (h' ! length h)))]"
    using copy_store(3) [OF assms(2)] assms(3) by (auto simp: put_child_def)
  have "length h \<notin> set (spec_locs h (or_Spec c) @ status_locs h (or_Status c))"
    using assms(1) unfolding conn_wf_def list_all_iff by blast
  then have "same_at (spec_locs h (or_Spec c) @ status_locs h (or_Status c)) h h2"
    using copy_reads(3) [OF assms(1,2)] unfolding h2 by (subst same_at_update)
  then show ?thesis by (rule conn_frame)
qed

text \<open>
  C37. A deep copy of a connection is equal to its original but shares the status: when the webhook
  takes an address out of a pool of a copy and notes it as pending, the original, which the client
  library keeps as its cached object, has lost the address as well and has it noted as pending.
\<close>

theorem deep_copy_shares_status:
  assumes "conn_wf h c" "IPSecConnection_DeepCopyInto c h = (c', h')"
    and "free_of (Status (read_conn h c)) cn pn = Some (ip # rest)" "PendingIPs (Status (read_conn h c)) \<noteq> None"
  shows "read_conn h' c' = read_conn h c
    \<and> (\<exists>h2. take_ip_ref cn pn ts c' h' = Ok (c', h2)
        \<and> read_conn h2 c' = take_ip cn pn rest ip ts (read_conn h c)
        \<and> read_conn h2 c = take_ip cn pn rest ip ts (read_conn h c))"
proof -
  let ?st = "or_Status c"
  note wf = assms(1) [unfolded conn_wf_def]
  have fr: "same_at (status_locs h ?st) h h'" "same_at (spec_locs h (or_Spec c)) h h'"
    using copy_reads(3) [OF assms(1,2)] by simp_all
  have st: "status_locs h' ?st = status_locs h ?st" "read_status h' ?st = read_status h ?st"
    using fr(1) by (rule status_frame)+
  have "same_at (free_locs h (st_FreeIPs ?st)) h h'" using fr(1) by (simp add: status_locs_def)
  then have ok: "free_ok h' (st_FreeIPs ?st)" using wf by (simp add: free_ok_frame)
  have len: "length h \<le> length h'" using copy_store(2) [OF assms(2)] by auto
  have lt: "list_all (\<lambda>l. l < length h') (status_locs h' ?st)"
    unfolding st using wf len by (auto simp: list_all_iff intro: less_le_trans)
  obtain pend where pend: "st_PendingIPs ?st = Some pend"
    using assms(4) by (auto simp: read_conn_def read_status_def read_strs_def)
  have free: "free_of (read_status h' ?st) cn pn = Some (ip # rest)" using assms(3) by (simp add: st read_conn_def)
  have "Status (read_conn h c) = read_status h' ?st" by (simp add: st read_conn_def)
  from take_ip_ref_reads [OF ok _ lt free pend copy_store(1) [OF assms(2)] this, of ts] obtain h2 where
    h2: "take_ip_ref cn pn ts c' h' = Ok (c', h2)" "read_status h2 ?st = Status (take_ip cn pn rest ip ts (read_conn h c))"
    "\<And>ls. \<forall>l \<in> set ls. l \<notin> set (status_locs h ?st) \<Longrightarrow> same_at ls h' h2"
    using wf by (auto simp: st)
  have sp: "read_spec h2 (or_Spec c') = read_spec h' (or_Spec c')"
    by (intro spec_frame h2(3)) (simp add: copied_spec_locs [OF assms(1,2)])
  have sp': "read_spec h2 (or_Spec c) = read_spec h' (or_Spec c)"
    using wf by (intro spec_frame h2(3)) (simp add: list_all_iff spec_locs_frame [OF fr(2)])
  have take: "take_ip cn pn rest ip ts (read_conn h c) = (read_conn h c)\<lparr>Status := read_status h2 ?st\<rparr>"
    unfolding h2(2) by (simp add: take_ip_def Let_def)
  have both: "read_conn h' c' = read_conn h c" "read_conn h' c = read_conn h c" using copy_reads [OF assms(1,2)] by simp_all
  have "read_conn h2 d = take_ip cn pn rest ip ts (read_conn h c)"
    if "read_spec h2 (or_Spec d) = read_spec h' (or_Spec d)" "or_Status d = ?st" "read_conn h' d = read_conn h c" for d
    unfolding take unfolding that(3) [symmetric] using that(1,2) by (simp add: read_conn_def)
  with h2(1) sp sp' both copy_store(1) [OF assms(2)] show ?thesis by blast
qed

text \<open>A connection with one child, whose pool has two addresses, and one pending address.\<close>

definition sample_heap :: heap where
  "sample_heap = [StrArray [''10.0.0.2'', ''10.0.0.3''], PoolMap [(''p'', Some \<lparr>sl_Array = 0, sl_Len = 2\<rparr>)],
     FreeMap [(''a'', Some 1)], StrMap [(''10.0.0.1'', ''now'')],
     ChildMap [(''a'', \<lparr>cr_Name = ''a'', cr_LocalIPs = None, cr_RemoteIPs = None, cr_XfrmIfId = 1, cr_IpPools = None,
       cr_XfrmIP = [], cr_VxlanIP = [], cr_Extra = None\<rparr>)]]"

definition sample_conn_ref :: conn_ref where
  "sample_conn_ref = \<lparr>or_Name = ''c'', or_Namespace = [],
     or_Spec = \<lparr>sr_Name = ''c'', sr_RemoteAddr = [], sr_LocalAddr = [], sr_LocalId = [], sr_RemoteId = [],
       sr_SecretRef = \<lparr>s_Name = [], s_Namespace = [], s_Key = []\<rparr>, sr_Children = Some 4, sr_Extra = None,
       sr_Group = \<lparr>gr_name = [], gr_namespace = []\<rparr>\<rparr>,
     or_Status = \<lparr>st_XfrmGatewayIPs = None, st_FreeIPs = Some 2, st_PendingIPs = Some 3, st_State = [],
       st_ChildrenState = None\<rparr>\<rparr>"

theorem deep_copy_shares_status_witness:
  "\<exists>c' h' h2. IPSecConnection_DeepCopyInto sample_conn_ref sample_heap = (c', h')
    \<and> take_ip_ref ''a'' ''p'' ''now'' c' h' = Ok (c', h2)
    \<and> free_of (Status (read_conn sample_heap sample_conn_ref)) ''a'' ''p'' = Some [''10.0.0.2'', ''10.0.0.3'']
    \<and> free_of (Status (read_conn h2 sample_conn_ref)) ''a'' ''p'' = Some [''10.0.0.3'']"
proof -
  have wf: "conn_wf sample_heap sample_conn_ref"
    by (simp add: conn_wf_def sample_heap_def sample_conn_ref_def spec_locs_def status_locs_def opt_loc_def
        children_at_def child_locs_def slice_locs_def pools_locs_def free_locs_def free_ok_def pools_ok_def gok_def)
  have free: "free_of (Status (read_conn sample_heap sample_conn_ref)) ''a'' ''p'' = Some [''10.0.0.2'', ''10.0.0.3'']"
    by (simp add: free_of_def read_conn_def read_status_def sample_heap_def sample_conn_ref_def map_values_def
        read_free_def read_pools_def read_slice_def)
  have pend: "PendingIPs (Status (read_conn sample_heap sample_conn_ref)) \<noteq> None"
    by (simp add: read_conn_def read_status_def sample_conn_ref_def read_strs_def)
  obtain c' h' where c: "IPSecConnection_DeepCopyInto sample_conn_ref sample_heap = (c', h')" by fastforce
  from deep_copy_shares_status [OF wf c free pend, of "''now''"] obtain h2 where
    "take_ip_ref ''a'' ''p'' ''now'' c' h' = Ok (c', h2)"
    "read_conn h2 sample_conn_ref = take_ip ''a'' ''p'' [''10.0.0.3''] ''10.0.0.2'' ''now'' (read_conn sample_heap sample_conn_ref)"
    by blast
  with c free show ?thesis by (auto simp: free_of_take_ip)
qed

end
