(* ===== verification/Kernel_Props.thy ===== *)
theory Kernel_Props
  imports Xfrminion_Props
begin

text \<open>
  From the comparison of the routes to the kernel: the requests of the actions that \<open>diffRoutes\<close>
  returns, served by the handlers of xfrminion one after the other, leave the kernel of the xfrm
  pod with the desired routes. The interface of the kernel is extended by the bridge program, which
  has its own table and leaves routes and links alone.
\<close>

section \<open>The bridge program\<close>

locale kernel_bridge = kernel_routes kn links table
  for kn :: "'k netlink" and links :: "'k \<Rightarrow> link list" and table :: "'k \<Rightarrow> route set" +
  assumes run: "\<exists>k'. kn_run kn args k = (([], True), k') \<and> links k' = links k \<and> table k' = table k"
begin

lemma command_run: "\<exists>k'. command kn args k = Some (Ok ([], True), k') \<and> links k' = links k \<and> table k' = table k"
  using run [of args k] by (auto simp: command_def)

lemma bridge_run: "\<exists>k'. run_bridge kn op dev dst k = Some (Ok (), k') \<and> links k' = links k \<and> table k' = table k"
  using command_run [of "[''bridge'', ''fdb'', op, ''00:00:00:00:00:00'', ''dev'', dev, ''dst'', dst]" k]
  by (auto simp: run_bridge_def bnd_Some ret_def)

lemma fdb_run:
  assumes "last_link ''vxlan'' (links k) = Some v"
    and "a = AddBridgeFDBAction n u p \<or> a = DeleteBridgeFDBAction n u p"
  shows "\<exists>k'. xfrminion kn (route_request a) k = Some (Ok (), k') \<and> links k' = links k \<and> table k' = table k"
  using assms(2)
proof
  assume a: "a = AddBridgeFDBAction n u p"
  have "xfrminion kn (route_request a) k = run_bridge kn ''append'' (lk_Name v) u k"
    by (simp add: a xfrminion_def addBridgeFDB_def read_request_def list_run assms(1))
  then show ?thesis using bridge_run by simp
next
  assume a: "a = DeleteBridgeFDBAction n u p"
  obtain k1 where k1: "run_bridge kn ''delete'' (lk_Name v) u k = Some (Ok (), k1)" "links k1 = links k" "table k1 = table k"
    using bridge_run by blast
  obtain cmd where "xfrminion kn (route_request a) k
      = bnd (run_bridge kn ''delete'' (lk_Name v) u) (\<lambda>_. bnd (command kn cmd) (\<lambda>_. ret ())) k"
    by (simp add: a xfrminion_def deleteBridgeFDB_def read_request_def list_run assms(1))
  with k1 command_run [of cmd k1] show ?thesis by (auto simp: bnd_Some ret_def)
qed

lemma fdb_runs:
  assumes "last_link ''vxlan'' (links k) \<noteq> None"
    and "\<forall>a \<in> set acts. \<exists>n u p. a = AddBridgeFDBAction n u p \<or> a = DeleteBridgeFDBAction n u p"
  shows "\<exists>k'. in_order (\<lambda>a. xfrminion kn (route_request a)) acts k = Some (Ok (), k') \<and> links k' = links k \<and> table k' = table k"
  using assms
proof (induction acts arbitrary: k)
  case (Cons a acts)
  obtain n u p where "a = AddBridgeFDBAction n u p \<or> a = DeleteBridgeFDBAction n u p" using Cons.prems(2) by auto
  with Cons.prems(1) obtain k1 where "xfrminion kn (route_request a) k = Some (Ok (), k1)" "links k1 = links k" "table k1 = table k"
    using fdb_run by blast
  with Cons.IH [of k1] Cons.prems show ?case by (auto simp: bnd_Some simp del: route_request.simps)
qed (simp add: ret_def)

end

interpretation map_kernel_bridge: kernel_bridge map_kernel ks_Links "\<lambda>k. set (ks_Routes k)"
  by unfold_locales (simp add: map_kernel_def)

section \<open>What diffRoutes asks for\<close>

lemma route_ops_append: "route_ops SL SR rs (as @ bs) \<longleftrightarrow> route_ops SL SR rs as \<and> route_ops SL SR (run_routes as rs) bs"
  by (induction "as" arbitrary: rs) auto

text \<open>The actions of one list delete what is recorded when they are carried out.\<close>

context route_kind
begin

lemma changes_recorded:
  assumes "\<And>rs. P rs []"
    and "\<And>v rs as. v \<in> S \<Longrightarrow> P (route_step (add v p) rs) as \<Longrightarrow> P rs (add v p # as)"
    and "\<And>v rs as. v \<in> set (elems (sel rs)) \<Longrightarrow> P (route_step (del v p) rs) as \<Longrightarrow> P rs (del v p # as)"
    and "\<forall>c \<in> set cl. string_change c" "distinct (removed cl)" "set (removed cl) \<subseteq> set (elems (sel rs))" "set (added cl) \<subseteq> S"
    and "concat_outcome (list_change (\<lambda>v. add v p) (\<lambda>v. del v p)) cl = Ok acts"
  shows "P rs acts"
  using assms(4-)
proof (induction cl arbitrary: rs acts)
  case (Cons c cl)
  from Cons.prems(1) have "string_change c" by simp
  then show ?case
  proof (cases rule: string_change_cases)
    case (create q v)
    then obtain as where as: "acts = add v p # as" "concat_outcome (list_change (\<lambda>v. add v p) (\<lambda>v. del v p)) cl = Ok as"
      using Cons.prems(5) by (auto simp: obind_Ok_iff)
    from as(2) have "P (route_step (add v p) rs) as" using Cons.prems create by (intro Cons.IH) (auto simp: set_add)
    then show ?thesis using as(1) Cons.prems(4) create by (auto intro: assms(2))
  next
    case (delete q v)
    then obtain as where as: "acts = del v p # as" "concat_outcome (list_change (\<lambda>v. add v p) (\<lambda>v. del v p)) cl = Ok as"
      using Cons.prems(5) by (auto simp: obind_Ok_iff)
    from as(2) have "P (route_step (del v p) rs) as" using Cons.prems delete by (intro Cons.IH) (auto simp: set_del)
    then show ?thesis using as(1) Cons.prems(3) delete by (auto intro: assms(3))
  next
    case (update q v w)
    then obtain as where as: "acts = del v p # add w p # as" "concat_outcome (list_change (\<lambda>v. add v p) (\<lambda>v. del v p)) cl = Ok as"
      using Cons.prems(5) by (auto simp: obind_Ok_iff)
    from as(2) have "P (route_step (add w p) (route_step (del v p) rs)) as"
      using Cons.prems update by (intro Cons.IH) (auto simp: set_add set_del)
    then show ?thesis using as(1) Cons.prems(3,4) update by (auto intro: assms(2,3))
  qed
qed (simp add: assms(1))

lemma diff_recorded:
  assumes "\<And>rs. P rs []"
    and "\<And>v rs as. v \<in> S \<Longrightarrow> P (route_step (add v p) rs) as \<Longrightarrow> P rs (add v p # as)"
    and "\<And>v rs as. v \<in> set (elems (sel rs)) \<Longrightarrow> P (route_step (del v p) rs) as \<Longrightarrow> P rs (del v p # as)"
    and "slice_diff_ok dslice" "distinct (elems a)" "distinct (elems b)" "set (elems a) = set (elems (sel rs))" "set (elems b) \<subseteq> S"
    and "(if a \<noteq> b then concat_outcome (list_change (\<lambda>v. add v p) (\<lambda>v. del v p)) (dslice a b) else Ok []) = Ok acts"
  shows "P rs acts"
proof (cases "a = b")
  case False
  have d: "\<forall>c \<in> set (dslice a b). string_change c" "distinct (removed (dslice a b))"
    "set (removed (dslice a b)) = set (elems a) - set (elems b)" "set (added (dslice a b)) = set (elems b) - set (elems a)"
    using assms(4-6) by (simp_all add: slice_diff_ok_def)
  have r: "set (removed (dslice a b)) \<subseteq> set (elems (sel rs))" "set (added (dslice a b)) \<subseteq> S" using d(3,4) assms(7,8) by auto
  show ?thesis
    by (rule changes_recorded [where P = P and S = S, OF assms(1-3) d(1,2) r]) (use False assms(9) in auto)
qed (use assms in auto)

end

definition fdb_action :: "action \<Rightarrow> bool" where
  "fdb_action a \<longleftrightarrow> (\<exists>n u p. a = AddBridgeFDBAction n u p \<or> a = DeleteBridgeFDBAction n u p)"

lemma fdb_change_actions:
  assumes "fdb_change cur c = Ok xs" "a \<in> set xs"
  shows "fdb_action a"
  using assms by (auto simp: fdb_change_def Let_def fdb_action_def obind_Ok_iff split: if_splits option.splits gval.splits list.splits)

lemma fdb_changes_actions: "concat_outcome (fdb_change cur) cl = Ok acts \<Longrightarrow> a \<in> set acts \<Longrightarrow> fdb_action a"
  by (induction cl arbitrary: acts) (auto simp: obind_Ok_iff dest: fdb_change_actions)

lemma diffRoutes_parts:
  assumes "slice_diff_ok dslice" "routes_distinct current" "routes_distinct desired"
    and "diffRoutes dslice dmap current desired = Ok acts"
  defines "SL \<equiv> set (elems (Local (Routes (PSpec desired))))" and "SR \<equiv> set (elems (Remote (Routes (PSpec desired))))"
  shows "\<exists>ops fs. acts = ops @ fs \<and> route_ops SL SR (Routes (PSpec current)) ops \<and> (\<forall>a \<in> set fs. fdb_action a)"
proof -
  let ?cur = "sort_routes current" and ?rs = "Routes (PSpec current)"
  note d = assms(2,3) [unfolded routes_distinct_def]
  obtain ls rr fs where acts: "acts = (ls @ rr) @ fs"
    and ls: "(if Local (Routes (PSpec ?cur)) \<noteq> slice_sort (Local (Routes (PSpec desired)))
      then concat_outcome (list_change (\<lambda>v. AddLocalRouteAction v ?cur) (\<lambda>v. DeleteLocalRouteAction v ?cur))
        (dslice (Local (Routes (PSpec ?cur))) (slice_sort (Local (Routes (PSpec desired))))) else Ok []) = Ok ls"
    and rr: "(if Remote (Routes (PSpec ?cur)) \<noteq> slice_sort (Remote (Routes (PSpec desired)))
      then concat_outcome (list_change (\<lambda>v. AddRemoteRouteAction v ?cur) (\<lambda>v. DeleteRemoteRouteAction v ?cur))
        (dslice (Remote (Routes (PSpec ?cur))) (slice_sort (Remote (Routes (PSpec desired))))) else Ok []) = Ok rr"
    and fs: "(if \<not> geq_nil (BridgeFDB (Routes (PSpec ?cur))) (BridgeFDB (Routes (PSpec desired)))
      then concat_outcome (fdb_change ?cur) (dmap (BridgeFDB (Routes (PSpec ?cur))) (BridgeFDB (Routes (PSpec desired)))) else Ok []) = Ok fs"
    using assms(4) unfolding diffRoutes_def Let_def obind_Ok_iff by (elim exE conjE) (rule that, simp_all)
  have l: "route_ops SL SR ?rs ls"
    by (rule local_kind.diff_recorded [where S = SL and P = "route_ops SL SR", OF _ _ _ assms(1) _ _ _ _ ls])
      (use d in \<open>simp_all add: SL_def\<close>)
  have keep: "Remote (run_routes ls ?rs) = Remote ?rs"
    using local_kind.run_diff [OF assms(1) _ _ refl, of "Local (Routes (PSpec ?cur))" "slice_sort (Local (Routes (PSpec desired)))" ?rs ?cur] ls d
    by auto
  have r: "route_ops SL SR (run_routes ls ?rs) rr"
    by (rule remote_kind.diff_recorded [where S = SR and P = "route_ops SL SR", OF _ _ _ assms(1) _ _ _ _ rr])
      (use d in \<open>simp_all add: SR_def keep\<close>)
  have "\<forall>a \<in> set fs. fdb_action a" using fs by (auto dest: fdb_changes_actions split: if_splits)
  with acts l r show ?thesis by (intro exI [of _ "ls @ rr"] exI [of _ fs]) (simp add: route_ops_append)
qed

lemma run_fdb_actions:
  assumes "\<forall>a \<in> set fs. fdb_action a"
  shows "Local (run_routes fs rs) = Local rs" "Remote (run_routes fs rs) = Remote rs"
  using assms by (induction fs arbitrary: rs) (auto simp: fdb_action_def)

lemma bnd_assoc: "bnd (bnd m f) g = bnd m (\<lambda>x. bnd (f x) g)"
  by (auto simp: bnd_def fun_eq_iff split: option.split outcome.split prod.split)

lemma in_order_append: "in_order f (xs @ ys) = bnd (in_order f xs) (\<lambda>_. in_order f ys)"
  by (induction xs) (simp_all add: bnd_assoc, simp add: bnd_def ret_def)

lemma route_ops_mono: "route_ops SL SR rs as \<Longrightarrow> SL \<subseteq> SL' \<Longrightarrow> SR \<subseteq> SR' \<Longrightarrow> route_ops SL' SR' rs as"
  by (induction "as" arbitrary: rs) (auto split: action.splits)

section \<open>The composition\<close>


text \<open>A pod whose recorded routes are those of the kernel, and one that shall have others.\<close>

definition pod_with :: "routes \<Rightarrow> xfrm_pod" where
  "pod_with rs = sample_xfrm_pod\<lparr>PSpec := (PSpec sample_xfrm_pod)\<lparr>Routes := rs\<rparr>\<rparr>"

definition routed_kernel :: kernel where
  "routed_kernel = sample_kernel\<lparr>ks_Routes :=
     [\<lparr>rt_LinkIndex = 4, rt_Dst = Some \<lparr>net_IP = [10, 0, 1, 0], net_Mask = [255, 255, 255, 0]\<rparr>\<rparr>]\<rparr>"


end
