(* ===== verification/Admission.thy ===== *)
theory Admission
  imports Validate_Props Mutate
begin

text \<open>
  The HTTP side of the two admission webhooks: \<open>ParseRequest\<close> of \<open>pkg/utils/utils.go\<close>, the answers
  at the end of \<open>validating_webhook.go\<close> and the handlers from the request to the answer. A body is
  what the JSON decoder makes of it; an answer's reason is the error it prints. Both handlers write at most one answer.
\<close>

section \<open>Requests\<close>

datatype 'r review_body = EmptyBody | BadJson | NoRequest | Request string 'r  \<comment> \<open>the UID and the request\<close>

record 'r http_request =
  hq_ContentType :: string
  hq_Body :: "'r review_body"

datatype parse_error = WrongContentType string | BodyEmpty | NotAReview | RequestNil

definition ParseRequest :: "'r http_request \<Rightarrow> (parse_error, string \<times> 'r) outcome" where
  "ParseRequest r =
     (if hq_ContentType r \<noteq> ''application/json'' then Err (WrongContentType (hq_ContentType r))
      else (case hq_Body r of
          EmptyBody \<Rightarrow> Err BodyEmpty
        | BadJson \<Rightarrow> Err NotAReview
        | NoRequest \<Rightarrow> Err RequestNil
        | Request uid rq \<Rightarrow> Ok (uid, rq)))"

section \<open>Answers\<close>

datatype 'e reason = NoReason | Reason 'e

record 'e admission_response =
  ar_UID :: string
  ar_Allowed :: bool
  ar_Patch :: "jsonPatch list option"
  ar_Result :: "'e reason option"

text \<open>The UID is read from the request of the review; a nil review panics.\<close>

definition noPatchResponse :: "(string \<times> 'r) option \<Rightarrow> (parse_error, 'e admission_response) outcome" where
  "noPatchResponse review = (case review of None \<Rightarrow> Panic
    | Some (uid, _) \<Rightarrow> Ok \<lparr>ar_UID = uid, ar_Allowed = True, ar_Patch = None, ar_Result = None\<rparr>)"

definition deniedResponse :: "(string \<times> 'r) option \<Rightarrow> 'e list \<Rightarrow> (parse_error, 'e admission_response) outcome" where
  "deniedResponse review reasonList = (case review of None \<Rightarrow> Panic
    | Some (uid, _) \<Rightarrow> Ok \<lparr>ar_UID = uid, ar_Allowed = False, ar_Patch = None,
        ar_Result = Some (if length reasonList \<noteq> 0 then Reason (hd reasonList) else NoReason)\<rparr>)"

definition patchResponse :: "jsonPatch list \<Rightarrow> (string \<times> 'r) option \<Rightarrow> (parse_error, 'e admission_response) outcome" where
  "patchResponse patch review = (case review of None \<Rightarrow> Panic
    | Some (uid, _) \<Rightarrow> Ok \<lparr>ar_UID = uid, ar_Allowed = True, ar_Patch = Some patch, ar_Result = None\<rparr>)"

section \<open>The handlers\<close>

text \<open>
  A request that cannot be parsed leaves the review nil; the denial that the handlers write for it reads its UID.
\<close>

datatype 'e refusal = Unparsed parse_error | Refused 'e

definition parsed :: "'r http_request \<Rightarrow> (string \<times> 'r) option" where
  "parsed r = (case ParseRequest r of Ok review \<Rightarrow> Some review | _ \<Rightarrow> None)"

definition unparsed_reason :: "'r http_request \<Rightarrow> 'e refusal list" where
  "unparsed_reason r = (case ParseRequest r of Err e \<Rightarrow> [Unparsed e] | _ \<Rightarrow> [])"

definition serve_validating ::
  "api \<Rightarrow> (nsn \<Rightarrow> (api_error, charon_group) outcome) \<Rightarrow> review http_request
   \<Rightarrow> (parse_error, denial refusal admission_response) outcome"
where
  "serve_validating a get_group r = (case parsed r of
      None \<Rightarrow> deniedResponse (None :: (string \<times> review) option) (unparsed_reason r)
    | Some (uid, rq) \<Rightarrow> (case ValidatingWebhook_ServeHTTP a get_group (Some rq) of
        Ok _ \<Rightarrow> noPatchResponse (Some (uid, rq))
      | Err e \<Rightarrow> deniedResponse (Some (uid, rq)) [Refused e]
      | Panic \<Rightarrow> Panic))"

definition serve_mutating ::
  "'w server \<Rightarrow> 'w locker_api \<Rightarrow> envs \<Rightarrow> wall_clock \<Rightarrow> pod_review http_request
   \<Rightarrow> ('w, parse_error, webhook_error refusal admission_response) io"
where
  "serve_mutating sv lk env now r w = (case parsed r of
      None \<Rightarrow> Some (deniedResponse (None :: (string \<times> pod_review) option) (unparsed_reason r), w)
    | Some (uid, rq) \<Rightarrow> (case MutatingWebhook_ServeHTTP sv lk env now (Some rq) w of
        None \<Rightarrow> None
      | Some (Ok NoPatch, w') \<Rightarrow> Some (noPatchResponse (Some (uid, rq)), w')
      | Some (Ok (Patched patch), w') \<Rightarrow> Some (patchResponse patch (Some (uid, rq)), w')
      | Some (Err e, w') \<Rightarrow> Some (deniedResponse (Some (uid, rq)) [Refused e], w')
      | Some (Panic, w') \<Rightarrow> Some (Panic, w')))"

section \<open>What is answered\<close>

lemma parsed_iff: "parsed r = Some (uid, rq) \<longleftrightarrow> hq_ContentType r = ''application/json'' \<and> hq_Body r = Request uid rq"
  by (auto simp: parsed_def ParseRequest_def split: review_body.splits if_splits)

lemma unparsed_panics: "parsed r = None \<Longrightarrow> serve_validating a g r = Panic"
  "parsed m = None \<Longrightarrow> serve_mutating sv lk env now m w = Some (Panic, w)"
  by (simp_all add: serve_validating_def serve_mutating_def deniedResponse_def)

text \<open>An answer carries the UID of its request and allows it exactly when the handler decides so.\<close>

lemma validating_answer:
  assumes "parsed r = Some (uid, rq)" "ValidatingWebhook_ServeHTTP a g (Some rq) \<noteq> Panic"
  shows "\<exists>ans. serve_validating a g r = Ok ans \<and> ar_UID ans = uid \<and> ar_Patch ans = None
    \<and> (ar_Allowed ans \<longleftrightarrow> ValidatingWebhook_ServeHTTP a g (Some rq) = Ok ())"
  using assms
  by (auto simp: serve_validating_def noPatchResponse_def deniedResponse_def split: outcome.splits)

lemma mutating_answer:
  assumes "parsed r = Some (uid, rq)" "serve_mutating sv lk env now r w = Some (Ok ans, w')"
  shows "ar_UID ans = uid \<and> (ar_Patch ans \<noteq> None \<longrightarrow> ar_Allowed ans)
    \<and> (ar_Allowed ans \<longleftrightarrow> (\<exists>m. MutatingWebhook_ServeHTTP sv lk env now (Some rq) w = Some (Ok m, w')))"
  using assms
  by (auto simp: serve_mutating_def noPatchResponse_def deniedResponse_def patchResponse_def
      split: option.splits outcome.splits mutation.splits)

lemma foldl_outcome_not_Panic: "(\<And>s x. f s x \<noteq> Panic) \<Longrightarrow> foldl_outcome f s xs \<noteq> Panic"
  by (induction xs arbitrary: s) (auto simp: obind_def split: outcome.splits)

lemma creation_not_Panic: "validateIPSecConnectionCreation conn other pods \<noteq> Panic"
proof -
  have "unique_ip c m ip \<noteq> Panic" for c m ip by (simp add: unique_ip_def Let_def)
  then have "foldl_outcome (unique_ip c) m ips \<noteq> Panic" for c m ips by (rule foldl_outcome_not_Panic)
  then have "unique_pools c m \<noteq> Panic" for c m
    unfolding unique_pools_flat .
  then have "unique_child st c \<noteq> Panic" for st c
    by (auto simp: unique_child_def obind_def split: outcome.splits prod.splits)
  then have "foldl_outcome unique_child st cs \<noteq> Panic" for st cs by (rule foldl_outcome_not_Panic)
  then have "validateIPSecConnectionUnique conn \<noteq> Panic"
    by (auto simp: validateIPSecConnectionUnique_def obind_def split: outcome.splits)
  then show ?thesis by (auto simp: validateIPSecConnectionCreation_def split: option.splits)
qed

text \<open>
  C28. A connection is admitted: the validating webhook answers a request to create a connection,
  with the UID of the request, and the answer allows it if and only if the Charon group that it names
  exists, no connection and no pod's annotation has its name yet, all its addresses have one slash, and
  it has neither an address twice under a child name nor an interface id twice.
\<close>

theorem creation_admitted_iff:
  assumes "hq_ContentType r = ''application/json''" "hq_Body r = Request uid rq"
    and "OldObject rq = NoObject" "NewObject rq = Connection conn"
    and "ListPods a = Ok pods" "ListConns a = Ok conns" "get_group (CharonGroupRef_Nsn (Group (Spec conn))) \<noteq> Panic"
  shows "\<exists>ans. serve_validating a get_group r = Ok ans \<and> ar_UID ans = uid \<and> (ar_Allowed ans \<longleftrightarrow>
      (\<exists>g. get_group (CharonGroupRef_Nsn (Group (Spec conn))) = Ok g)
      \<and> (\<forall>obj \<in> set conns. sp_Name (Spec obj) \<noteq> sp_Name (Spec conn))
      \<and> (\<forall>p \<in> set pods. gstr (Annotations p) AnnotationIpmanName \<noteq> sp_Name (Spec conn))
      \<and> (\<forall>c \<in> set (gvals (Children (Spec conn))).
          \<forall>ip \<in> set (elems (LocalIPs c)) \<union> set (elems (RemoteIPs c)) \<union> set (pool_ips c). slash_count ip = 1)
      \<and> distinct (concat (map named_ips (gvals (Children (Spec conn))))) \<and> distinct (map XfrmIfId (gvals (Children (Spec conn)))))"
proof -
  have p: "parsed r = Some (uid, rq)" using assms(1,2) by (simp add: parsed_iff)
  have h: "ValidatingWebhook_ServeHTTP a get_group (Some rq) = (case get_group (CharonGroupRef_Nsn (Group (Spec conn))) of
      Err e \<Rightarrow> Err (NoCharonGroup (gr_name (Group (Spec conn))) e) | Panic \<Rightarrow> Panic
    | Ok _ \<Rightarrow> validateIPSecConnectionCreation conn conns pods)"
    using assms(3-6) by (simp add: ValidatingWebhook_ServeHTTP_def getAction_def)
  then have "ValidatingWebhook_ServeHTTP a get_group (Some rq) \<noteq> Panic"
    using assms(7) creation_not_Panic by (auto split: outcome.splits)
  from validating_answer [OF p this] obtain ans where ans: "serve_validating a get_group r = Ok ans" "ar_UID ans = uid"
    "ar_Allowed ans \<longleftrightarrow> ValidatingWebhook_ServeHTTP a get_group (Some rq) = Ok ()" by blast
  have "ValidatingWebhook_ServeHTTP a get_group (Some rq) = Ok () \<longleftrightarrow>
      (\<exists>g. get_group (CharonGroupRef_Nsn (Group (Spec conn))) = Ok g) \<and> validateIPSecConnectionCreation conn conns pods = Ok ()"
    unfolding h by (simp split: outcome.split)
  with ans show ?thesis unfolding validateCreation_iff unique_iff by blast
qed

text \<open>The connection \<open>shrink_old\<close> in a cluster with its group and nothing else.\<close>

definition group_api :: api where
  "group_api = quiet_api\<lparr>ListConns := Ok []\<rparr>"

definition any_group :: "nsn \<Rightarrow> (api_error, charon_group) outcome" where
  "any_group n = Ok \<lparr>g_name = nsn_name n, g_namespace = nsn_namespace n,
     g_spec = \<lparr>gs_hostNetwork = True, gs_annotations = None, gs_nodeName = ''n1'', gs_interfaceName = None\<rparr>\<rparr>"

definition create_review :: "review http_request" where
  "create_review = \<lparr>hq_ContentType = ''application/json'',
     hq_Body = Request ''u1'' \<lparr>OldObject = NoObject, NewObject = Connection shrink_old\<rparr>\<rparr>"

theorem creation_admitted_iff_witness:
  "\<exists>ans. serve_validating group_api any_group create_review = Ok ans \<and> ar_UID ans = ''u1'' \<and> ar_Allowed ans"
proof -
  have api: "ListPods group_api = Ok []" "ListConns group_api = Ok []" by (simp_all add: group_api_def quiet_api_def)
  have "\<exists>ans. serve_validating group_api any_group create_review = Ok ans \<and> ar_UID ans = ''u1'' \<and> (ar_Allowed ans \<longleftrightarrow>
      (\<exists>g. any_group (CharonGroupRef_Nsn (Group (Spec shrink_old))) = Ok g)
      \<and> (\<forall>obj \<in> set ([] :: ipsec_conn list). sp_Name (Spec obj) \<noteq> sp_Name (Spec shrink_old))
      \<and> (\<forall>p \<in> set ([] :: k8s_pod list). gstr (Annotations p) AnnotationIpmanName \<noteq> sp_Name (Spec shrink_old))
      \<and> (\<forall>c \<in> set (gvals (Children (Spec shrink_old))).
          \<forall>ip \<in> set (elems (LocalIPs c)) \<union> set (elems (RemoteIPs c)) \<union> set (pool_ips c). slash_count ip = 1)
      \<and> distinct (concat (map named_ips (gvals (Children (Spec shrink_old)))))
      \<and> distinct (map XfrmIfId (gvals (Children (Spec shrink_old)))))"
    by (rule creation_admitted_iff [OF _ _ _ _ api, where rq = "\<lparr>OldObject = NoObject, NewObject = Connection shrink_old\<rparr>"])
      (simp_all add: create_review_def any_group_def)
  then show ?thesis
    by (simp add: any_group_def shrink_old_def pool_ips_def named_ips_def slash_count_def count_char_def zero_child_def)
qed

end
