(* ===== verification/Helpers.thy ===== *)
theory Helpers
  imports Routes
begin

text \<open>
  The small functions of the controller that no component above uses: \<open>GetWorkersState\<close>, the tests
  on a change and the event filter of \<open>SetupWithManager\<close> (\<open>ipman_controller.go\<close>),
  \<open>groupConnsByGroup\<close> (\<open>restctl_pod.go\<close>), the text of a restart error (\<open>actions.go\<close>).
\<close>

section \<open>The workers of the cluster\<close>

text \<open>The loop over the pods ends at the first worker without an address; the outer loop runs once.\<close>

fun addressed_workers :: "k8s_pod list \<Rightarrow> worker list" where
  "addressed_workers [] = []"
| "addressed_workers (p # ps) =
     (if hasAnnotations p then (if PodIP p \<noteq> [] then workerFromPod p # addressed_workers ps else [])
      else addressed_workers ps)"

definition GetWorkersState :: "api \<Rightarrow> (api_error, worker list) outcome" where
  "GetWorkersState a = obind (ListPods a) (\<lambda>pods. Ok (addressed_workers pods))"

text \<open>The workers that come after one without an address are missing, those before it are not.\<close>

lemma addressed_workers_prefix:
  "addressed_workers ps = map workerFromPod (takeWhile (\<lambda>p. PodIP p \<noteq> []) (filter hasAnnotations ps))"
  by (induction ps) auto

lemma all_workers_iff:
  "addressed_workers ps = map workerFromPod (filter hasAnnotations ps)
     \<longleftrightarrow> (\<forall>p \<in> set ps. hasAnnotations p \<longrightarrow> PodIP p \<noteq> [])"
proof
  assume "addressed_workers ps = map workerFromPod (filter hasAnnotations ps)"
  then have "length (takeWhile (\<lambda>p. PodIP p \<noteq> []) (filter hasAnnotations ps)) = length (filter hasAnnotations ps)"
    unfolding addressed_workers_prefix by (metis length_map)
  then have "takeWhile (\<lambda>p. PodIP p \<noteq> []) (filter hasAnnotations ps) = filter hasAnnotations ps"
    by (metis takeWhile_eq_take take_all order_refl)
  then show "\<forall>p \<in> set ps. hasAnnotations p \<longrightarrow> PodIP p \<noteq> []"
    by (auto simp: takeWhile_eq_all_conv)
next
  assume "\<forall>p \<in> set ps. hasAnnotations p \<longrightarrow> PodIP p \<noteq> []"
  then have "takeWhile (\<lambda>p. PodIP p \<noteq> []) (filter hasAnnotations ps) = filter hasAnnotations ps"
    by (subst takeWhile_eq_all_conv) auto
  then show "addressed_workers ps = map workerFromPod (filter hasAnnotations ps)"
    by (simp only: addressed_workers_prefix)
qed

section \<open>Tests on a change\<close>

definition IsNodeChanged :: "change \<Rightarrow> bool" where
  "IsNodeChanged c \<longleftrightarrow> ch_path c = [''meta'', ''node'']"

definition isCreated :: "change \<Rightarrow> bool" where
  "isCreated c \<longleftrightarrow> length (ch_path c) = 0 \<and> ch_to c \<noteq> None"

definition isDeleted :: "change \<Rightarrow> bool" where
  "isDeleted c \<longleftrightarrow> length (ch_path c) = 0 \<and> ch_to c = None"

lemma change_tests_exclusive: "\<not> (isCreated c \<and> isDeleted c) \<and> \<not> (IsNodeChanged c \<and> (isCreated c \<or> isDeleted c))"
  by (auto simp: isCreated_def isDeleted_def IsNodeChanged_def)

section \<open>Connections by group\<close>

definition add_to_group :: "(nsn, ipsec_conn list) gomap \<Rightarrow> ipsec_conn \<Rightarrow> (nsn, ipsec_conn list) gomap" where
  "add_to_group m c =
     (let n = CharonGroupRef_Nsn (Group (Spec c)); m = (if ghas m n then m else gput n [] m)
      in gput n ((case gget m n of None \<Rightarrow> [] | Some cs \<Rightarrow> cs) @ [c]) m)"

definition groupConnsByGroup :: "ipsec_conn list \<Rightarrow> (nsn, ipsec_conn list) gomap" where
  "groupConnsByGroup conns = foldl add_to_group [] conns"

lemma gget_add_to_group: "gget (add_to_group m c) n =
    (if n = CharonGroupRef_Nsn (Group (Spec c)) then Some ((case gget m n of None \<Rightarrow> [] | Some cs \<Rightarrow> cs) @ [c]) else gget m n)"
  by (auto simp: add_to_group_def Let_def gget_put ghas_def split: option.splits)

text \<open>Every connection is in the list of its group, in the order of the argument, and in no other.\<close>

lemma groupConnsByGroup_get:
  "gget (groupConnsByGroup conns) n =
     (let cs = filter (\<lambda>c. CharonGroupRef_Nsn (Group (Spec c)) = n) conns in if cs = [] then None else Some cs)"
proof (induction conns rule: rev_induct)
  case (snoc c conns)
  then show ?case by (auto simp: groupConnsByGroup_def gget_add_to_group Let_def)
qed (simp add: groupConnsByGroup_def)

section \<open>Events that start a pass\<close>

text \<open>The filter that the controller gives the framework for pods.\<close>

datatype pod_event = PodCreated k8s_pod | PodUpdated k8s_pod k8s_pod | PodDeleted k8s_pod | PodGeneric k8s_pod

fun podPredicate :: "pod_event \<Rightarrow> bool" where
  "podPredicate (PodCreated p) = ghas (Annotations p) AnnotationChildName"
| "podPredicate (PodUpdated _ _) = False"
| "podPredicate (PodDeleted p) = ghas (Annotations p) AnnotationChildName"
| "podPredicate (PodGeneric _) = False"

text \<open>A pod of the controller has no such annotation: neither its creation nor its end starts a pass.\<close>

lemma own_pods_unwatched:
  assumes "\<not> ghas (Annotations p) AnnotationChildName"
  shows "\<not> podPredicate (PodCreated p)" "\<not> podPredicate (PodDeleted p)"
  using assms by simp_all

section \<open>The text of a restart error\<close>

definition ErrConnRestart :: string where
  "ErrConnRestart = ''Restctl failed to restart the connection''"

definition ConnectionRestartError_Error :: "string \<Rightarrow> string \<Rightarrow> string" where
  "ConnectionRestartError_Error conn ch = (if ch = []
     then ''Error restarting connection '' @ [CHR 0x27] @ conn @ [CHR 0x27] @ '': '' @ ErrConnRestart
     else ''Error restarting child '' @ [CHR 0x27] @ ch @ [CHR 0x27] @ '' of connection '' @ [CHR 0x27] @ conn @ [CHR 0x27]
       @ '': '' @ ErrConnRestart)"

definition NewConnectionRestartError :: "string \<Rightarrow> string \<Rightarrow> string" where
  "NewConnectionRestartError conn ch = ConnectionRestartError_Error conn ch @ '': '' @ ErrConnRestart"

end
