(* ===== verification/Swan_Syntax.thy ===== *)
theory Swan_Syntax
  imports Swan
begin

text \<open>
  The language of \<open>pkg/swanparse/parse.go\<close>: the rules of the lexer and the grammar that the tags of
  the types declare, from which the library \<open>participle\<close> makes the parser. A tag \<open>@@*\<close> is \<open>many\<close>, a
  literal a token of its character, \<open>@Ident\<close> and \<open>@Psk\<close> a token with its text; an alternative is a rule.
  The parser is not modelled: it is the function that the grammar determines, for a text has one tree at most.
\<close>

section \<open>Tokens\<close>

datatype token = TPsk | TIdent string | TOther char

definition psk_text :: string where
  "psk_text = ''pre-shared key''"

definition ident_char :: "char \<Rightarrow> bool" where
  "ident_char c = (let n = of_char c :: nat in (48 \<le> n \<and> n \<le> 57) \<or> (65 \<le> n \<and> n \<le> 90) \<or> (97 \<le> n \<and> n \<le> 122)
     \<or> list_contains ''_.-/%'' c)"

definition space_char :: "char \<Rightarrow> bool" where
  "space_char c = list_contains [CHR '' '', CHR 0x09, CHR 0x0D, CHR 0x0A] c"

definition other_char :: "char \<Rightarrow> bool" where
  "other_char c = list_contains ''={}@[]'' c"

text \<open>
  The rules are tried in their order and white space is dropped; a character of no rule is an error. The
  rule \<open>Other\<close> also names the dash and the line ends, which the rules before it take.
\<close>

function swan_lex :: "string \<Rightarrow> token list option" where
  "swan_lex [] = Some []"
| "swan_lex (c # s) =
     (if take (length psk_text) (c # s) = psk_text
        then map_option (\<lambda>ts. TPsk # ts) (swan_lex (drop (length psk_text) (c # s)))
      else if ident_char c then map_option (\<lambda>ts. TIdent (c # takeWhile ident_char s) # ts) (swan_lex (dropWhile ident_char s))
      else if space_char c then swan_lex (dropWhile space_char s)
      else if other_char c then map_option (\<lambda>ts. TOther c # ts) (swan_lex s)
      else None)"
  by pat_completeness auto
termination
  by (relation "measure length") (auto simp: psk_text_def less_Suc_eq_le length_dropWhile_le)

section \<open>The grammar\<close>

inductive many :: "('t list \<Rightarrow> 'a \<Rightarrow> bool) \<Rightarrow> 't list \<Rightarrow> 'a list \<Rightarrow> bool" for P where
  many_Nil: "many P [] []"
| many_Cons: "P ts x \<Longrightarrow> many P us xs \<Longrightarrow> many P (ts @ us) (x # xs)"

lemma many_mono [mono]: "(\<And>ts x. P ts x \<longrightarrow> Q ts x) \<Longrightarrow> many P ts xs \<longrightarrow> many Q ts xs"
proof
  assume "\<And>ts x. P ts x \<longrightarrow> Q ts x" "many P ts xs"
  from this(2,1) show "many Q ts xs" by (induction rule: many.induct) (auto intro: many.intros)
qed

inductive value_syntax :: "token list \<Rightarrow> swan_value \<Rightarrow> bool" where
  array: "many value_syntax ts vs \<Longrightarrow> value_syntax (TOther (CHR ''['') # ts @ [TOther (CHR '']'')]) (VArray vs)"
| psk: "value_syntax [TPsk] (VSingle psk_text)"
| ident: "value_syntax [TIdent s] (VSingle s)"

inductive entity_syntax :: "token list \<Rightarrow> entity \<Rightarrow> bool" where
  option: "value_syntax ts v \<Longrightarrow> entity_syntax (TIdent k # TOther (CHR ''='') # ts) (EOption k v)"
| block: "many entity_syntax ts es
    \<Longrightarrow> entity_syntax (TIdent n # TOther (CHR ''{'') # ts @ [TOther (CHR ''}'')]) (EBlock n es)"

inductive conn_syntax :: "token list \<Rightarrow> swan_conn \<Rightarrow> bool" where
  conn: "many entity_syntax ts es
    \<Longrightarrow> conn_syntax (TIdent n # TOther (CHR ''{'') # ts @ [TOther (CHR ''}'')]) \<lparr>sc_Name = n, sc_Body = es\<rparr>"

inductive entry_syntax :: "token list \<Rightarrow> swan_entry \<Rightarrow> bool" where
  entry: "many conn_syntax ts cs
    \<Longrightarrow> entry_syntax (TIdent command # TIdent n # TOther (CHR ''{'') # ts @ [TOther (CHR ''}'')])
      \<lparr>se_Command = command, se_Name = n, se_Conn = cs\<rparr>"

definition ast_syntax :: "token list \<Rightarrow> swan_ast \<Rightarrow> bool" where
  "ast_syntax = many entry_syntax"

text \<open>What the parser, a parameter elsewhere, returns: the tree of a text, if it has one.\<close>

definition parses :: "(string \<Rightarrow> swan_ast option) \<Rightarrow> bool" where
  "parses parse \<longleftrightarrow> (\<forall>s ast. parse s = Some ast \<longleftrightarrow> (\<exists>ts. swan_lex s = Some ts \<and> ast_syntax ts ast))"

section \<open>A text has one tree at most\<close>

text \<open>
  Phrases of which none is the beginning of another, and which do not begin with a closing bracket: what
  follows a sequence of them, nothing or a closing bracket, shows where it ends.
\<close>

definition closes :: "token list \<Rightarrow> bool" where
  "closes r \<longleftrightarrow> r = [] \<or> hd r \<in> {TOther (CHR '']''), TOther (CHR ''}'')}"

definition unambiguous :: "(token list \<Rightarrow> 'a \<Rightarrow> bool) \<Rightarrow> token list \<Rightarrow> 'a \<Rightarrow> bool" where
  "unambiguous P ts x \<longleftrightarrow> (\<forall>us y r q. P us y \<longrightarrow> ts @ r = us @ q \<longrightarrow> ts = us \<and> x = y)"

lemma many_unambiguous:
  assumes "many (\<lambda>ts x. P ts x \<and> unambiguous P ts x) ts xs" "many P us ys" "ts @ r = us @ q" "closes r" "closes q"
    and starts: "\<And>ts x r. P ts x \<Longrightarrow> \<not> closes (ts @ r)"
  shows "ts = us \<and> xs = ys"
  using assms(1-5)
proof (induction arbitrary: us ys rule: many.induct)
  case many_Nil
  from many_Nil.prems(1) show ?case
  proof (cases rule: many.cases)
    case (many_Cons us1 y us2 ys2)
    with many_Nil.prems(2,3) starts [of us1 y "us2 @ q"] show ?thesis by simp
  qed simp
next
  case (many_Cons ts1 x ts2 xs2)
  from many_Cons.prems(1) show ?case
  proof (cases rule: many.cases)
    case many_Nil
    with many_Cons.prems(2,4) many_Cons.hyps(1) starts [of ts1 x "ts2 @ r"] show ?thesis by simp
  next
    case c: (many_Cons us1 y us2 ys2)
    have "ts1 @ (ts2 @ r) = us1 @ (us2 @ q)" using many_Cons.prems(2) c by simp
    then have "ts1 = us1 \<and> x = y" using many_Cons.hyps(1) c unfolding unambiguous_def by blast
    with many_Cons.prems many_Cons.IH [of us2 ys2] c show ?thesis by simp
  qed
qed

lemma starts:
  "value_syntax ts v \<Longrightarrow> \<not> closes (ts @ r)" "entity_syntax ts e \<Longrightarrow> \<not> closes (ts @ r)"
  "conn_syntax ts c \<Longrightarrow> \<not> closes (ts @ r)" "entry_syntax ts n \<Longrightarrow> \<not> closes (ts @ r)"
  by (erule value_syntax.cases, simp_all add: closes_def) (erule entity_syntax.cases, simp_all add: closes_def,
      erule conn_syntax.cases, simp add: closes_def, erule entry_syntax.cases, simp add: closes_def)

lemma closes_token: "closes (TOther (CHR '']'') # r)" "closes (TOther (CHR ''}'') # r)" "closes []"
  by (simp_all add: closes_def)

lemma value_unambiguous: "value_syntax ts v \<Longrightarrow> unambiguous value_syntax ts v"
proof (induction rule: value_syntax.induct)
  case (array ts vs)
  show ?case
    unfolding unambiguous_def
  proof (intro allI impI)
    fix us w r q
    assume "value_syntax us w" and e: "(TOther (CHR ''['') # ts @ [TOther (CHR '']'')]) @ r = us @ q"
    then show "TOther (CHR ''['') # ts @ [TOther (CHR '']'')] = us \<and> VArray vs = w"
    proof (cases rule: value_syntax.cases)
      case a: (array us' ws)
      with e have "ts @ (TOther (CHR '']'') # r) = us' @ (TOther (CHR '']'') # q)" by simp
      with many_unambiguous [OF array.IH a(3)] a starts(1) closes_token(1) show ?thesis by simp
    qed simp_all
  qed
next
  case psk
  show ?case unfolding unambiguous_def by (intro allI impI) (erule value_syntax.cases, simp_all)
next
  case (ident s)
  show ?case unfolding unambiguous_def by (intro allI impI) (erule value_syntax.cases, simp_all)
qed

lemma entity_unambiguous: "entity_syntax ts e \<Longrightarrow> unambiguous entity_syntax ts e"
proof (induction rule: entity_syntax.induct)
  case (option ts v k)
  show ?case
    unfolding unambiguous_def
  proof (intro allI impI)
    fix us w r q
    assume "entity_syntax us w" and e: "(TIdent k # TOther (CHR ''='') # ts) @ r = us @ q"
    then show "TIdent k # TOther (CHR ''='') # ts = us \<and> EOption k v = w"
    proof (cases rule: entity_syntax.cases)
      case o: (option us' v' k')
      with e have "ts @ r = us' @ q" "k = k'" by simp_all
      with value_unambiguous [OF option] o show ?thesis unfolding unambiguous_def by blast
    qed simp
  qed
next
  case (block ts es n)
  show ?case
    unfolding unambiguous_def
  proof (intro allI impI)
    fix us w r q
    assume "entity_syntax us w" and e: "(TIdent n # TOther (CHR ''{'') # ts @ [TOther (CHR ''}'')]) @ r = us @ q"
    then show "TIdent n # TOther (CHR ''{'') # ts @ [TOther (CHR ''}'')] = us \<and> EBlock n es = w"
    proof (cases rule: entity_syntax.cases)
      case b: (block us' ws m)
      with e have "ts @ (TOther (CHR ''}'') # r) = us' @ (TOther (CHR ''}'') # q)" by simp
      with many_unambiguous [OF block.IH b(3)] b e starts(2) closes_token(2) show ?thesis by simp
    qed simp
  qed
qed

lemma many_conj: "many P ts xs \<Longrightarrow> (\<And>ts x. P ts x \<Longrightarrow> Q ts x) \<Longrightarrow> many (\<lambda>ts x. P ts x \<and> Q ts x) ts xs"
  by (induction rule: many.induct) (auto intro: many.intros)

text \<open>What the rule around a sequence needs of its members, for the three kinds of sequences.\<close>

locale phrase_kind =
  fixes P :: "token list \<Rightarrow> 'a \<Rightarrow> bool"
  assumes begins: "P ts x \<Longrightarrow> \<not> closes (ts @ r)"
    and alone: "P ts x \<Longrightarrow> unambiguous P ts x"
begin

lemma sequence_unique:
  assumes "many P ts xs" "many P us ys" "ts @ r = us @ q" "closes r" "closes q"
  shows "ts = us \<and> xs = ys"
  by (rule many_unambiguous [OF many_conj [OF assms(1) alone] assms(2-5) begins])

lemma in_braces_unique:
  assumes "many P ts xs" "many P us ys"
    and "(TOther (CHR ''{'') # ts @ [TOther (CHR ''}'')]) @ r = (TOther (CHR ''{'') # us @ [TOther (CHR ''}'')]) @ q"
  shows "ts = us \<and> xs = ys"
  using sequence_unique [OF assms(1,2), of "TOther (CHR ''}'') # r" "TOther (CHR ''}'') # q"] assms(3)
  by (simp add: closes_token)

end

interpretation vals: phrase_kind value_syntax
  by unfold_locales (rule starts(1), assumption, rule value_unambiguous)

interpretation entities: phrase_kind entity_syntax
  by unfold_locales (rule starts(2), assumption, rule entity_unambiguous)

lemma conn_unambiguous: "conn_syntax ts c \<Longrightarrow> unambiguous conn_syntax ts c"
proof (induction rule: conn_syntax.induct)
  case (conn ts es n)
  show ?case
    unfolding unambiguous_def
  proof (intro allI impI)
    fix us w r q
    assume "conn_syntax us w" and e: "(TIdent n # TOther (CHR ''{'') # ts @ [TOther (CHR ''}'')]) @ r = us @ q"
    then show "TIdent n # TOther (CHR ''{'') # ts @ [TOther (CHR ''}'')] = us \<and> \<lparr>sc_Name = n, sc_Body = es\<rparr> = w"
      by (cases rule: conn_syntax.cases) (use entities.in_braces_unique [OF conn, of _ _ r q] in auto)
  qed
qed

interpretation conns: phrase_kind conn_syntax
  by unfold_locales (rule starts(3), assumption, rule conn_unambiguous)

lemma entry_unambiguous: "entry_syntax ts c \<Longrightarrow> unambiguous entry_syntax ts c"
proof (induction rule: entry_syntax.induct)
  case (entry ts cs cmd n)
  show ?case
    unfolding unambiguous_def
  proof (intro allI impI)
    fix us w r q
    assume "entry_syntax us w" and e: "(TIdent cmd # TIdent n # TOther (CHR ''{'') # ts @ [TOther (CHR ''}'')]) @ r = us @ q"
    then show "TIdent cmd # TIdent n # TOther (CHR ''{'') # ts @ [TOther (CHR ''}'')] = us
        \<and> \<lparr>se_Command = cmd, se_Name = n, se_Conn = cs\<rparr> = w"
      by (cases rule: entry_syntax.cases) (use conns.in_braces_unique [OF entry, of _ _ r q] in auto)
  qed
qed

interpretation entries: phrase_kind entry_syntax
  by unfold_locales (rule starts(4), assumption, rule entry_unambiguous)

lemma ast_unique: "ast_syntax ts a \<Longrightarrow> ast_syntax ts b \<Longrightarrow> a = b"
  using entries.sequence_unique [of ts a ts b "[]" "[]"] closes_token(3) by (simp add: ast_syntax_def)


section \<open>Texts that have none\<close>

text \<open>
  A character of no rule, such as the colons of an IPv6 address or the commas of a distinguished name, makes
  the whole listing unreadable, the entries of all connections.
\<close>

definition foreign :: "char \<Rightarrow> bool" where
  "foreign c \<longleftrightarrow> \<not> ident_char c \<and> \<not> space_char c \<and> \<not> other_char c \<and> c \<notin> set psk_text"

lemma foreign_unread: "foreign c \<Longrightarrow> c \<in> set s \<Longrightarrow> swan_lex s = None"
proof (induction s rule: swan_lex.induct)
  case (2 d s)
  have tail: "c \<in> set (dropWhile p s)" if "\<not> p c" "c \<in> set s" for p and s :: string
    using that by (metis set_takeWhileD takeWhile_dropWhile_id UnE set_append)
  have psk: "c \<in> set (drop (length psk_text) (d # s))" if "take (length psk_text) (d # s) = psk_text"
  proof -
    have "c \<in> set (take (length psk_text) (d # s) @ drop (length psk_text) (d # s))"
      using "2.prems"(2) by (simp only: append_take_drop_id)
    then show ?thesis using that "2.prems"(1) by (auto simp: foreign_def)
  qed
  show ?case
  proof (cases "take (length psk_text) (d # s) = psk_text")
    case True
    then show ?thesis using "2.IH"(1) [OF True "2.prems"(1) psk [OF True]] by simp
  next
    case nopsk: False
    show ?thesis
    proof (cases "d = c")
      case True
      with "2.prems"(1) nopsk show ?thesis by (simp add: foreign_def)
    next
      case False
      with "2.prems" have "c \<in> set s" by simp
      then show ?thesis
        using nopsk "2.IH"(2-4) "2.prems"(1) tail [of ident_char s] tail [of space_char s]
        by (auto simp: foreign_def)
    qed
  qed
qed simp

lemma foreign_unparsed: "parses parse \<Longrightarrow> foreign c \<Longrightarrow> c \<in> set s \<Longrightarrow> parse s = None"
  by (cases "parse s") (auto simp: parses_def foreign_unread)

lemma foreign_chars: "foreign (CHR '':'')" "foreign (CHR '','')" "foreign (CHR ''*'')"
  by (simp_all add: foreign_def ident_char_def space_char_def other_char_def psk_text_def)

end
