(* ===== verification/Messages.thy ===== *)
theory Messages
  imports Exec Restctl Xfrminion_Props
begin

text \<open>
  The texts that controller and servers exchange (\<open>pkg/comms/comms.go\<close>): how a request is written and how the
  handlers of xfrminion and restctl read it. Elsewhere a handler gets the request as a value; here it
  gets a text, and the lemmas show that for the texts the controller writes this is the same.
\<close>

section \<open>Writing\<close>

text \<open>The connections of a reload are written by the methods of the custom resources, a parameter here.\<close>

fun request_json :: "(conn_data list \<Rightarrow> json) \<Rightarrow> post_request \<Rightarrow> json" where
  "request_json conns (RemoteRouteRequest r) = JObj [(''remote_ip'', JStr r)]"
| "request_json conns (LocalRouteRequest v) = JObj [(''vxlan_ip'', JStr v)]"
| "request_json conns (BridgeFdbRequest c) = JObj [(''cilium_ip'', JStr c), (''interface_id'', JStr [])]"
| "request_json conns (ReloadData cs) = JObj [(''info'', conns cs)]"
| "request_json conns (RestartConnectionRequest n) = JObj [(''name'', JStr n)]"
| "request_json conns (RestartConnectionChildRequest n c) = JObj [(''connectionName'', JStr n), (''childName'', JStr c)]"
| "request_json conns (SetupVxlanRequest x v i) =
     JObj [(''xfrm_ip'', JStr x), (''xfrm_id'', JNum (show_int i)), (''vxlan_ip'', JStr v)]"

definition marshal_request :: "(conn_data list \<Rightarrow> json) \<Rightarrow> post_request \<Rightarrow> string" where
  "marshal_request conns r = print_json (request_json conns r)"

section \<open>Reading\<close>

text \<open>
  \<open>json.Unmarshal\<close> into a struct: names of fields are compared without regard to case (of the ASCII letters; the
  fields read here have no letter to which another one folds), every entry with the name of a
  field is stored, one after the other; null leaves a value as it is, a value of another type too, and makes the whole call fail.
\<close>

definition lower :: "char \<Rightarrow> char" where
  "lower c = (let n = of_char c :: nat in if 65 \<le> n \<and> n \<le> 90 then char_of (n + 32) else c)"

fun store_string :: "json \<Rightarrow> string \<times> bool \<Rightarrow> string \<times> bool" where
  "store_string (JStr s) (v, ok) = (s, ok)"
| "store_string JNull (v, ok) = (v, ok)"
| "store_string _ (v, ok) = (v, False)"

fun store_int :: "json \<Rightarrow> int \<times> bool \<Rightarrow> int \<times> bool" where
  "store_int (JNum lit) (v, ok) = (case parse_int 64 lit of (n, None) \<Rightarrow> (n, ok) | _ \<Rightarrow> (v, False))"
| "store_int JNull (v, ok) = (v, ok)"
| "store_int _ (v, ok) = (v, False)"

definition struct_field :: "(json \<Rightarrow> 'a \<times> bool \<Rightarrow> 'a \<times> bool) \<Rightarrow> 'a \<Rightarrow> string \<Rightarrow> json \<Rightarrow> 'a \<times> bool" where
  "struct_field store zero name j = (case j of
      JObj kvs \<Rightarrow> foldl (\<lambda>st (k, v). if map lower k = map lower name then store v st else st) (zero, True) kvs
    | JNull \<Rightarrow> (zero, True)
    | _ \<Rightarrow> (zero, False))"

definition string_field :: "string \<Rightarrow> json \<Rightarrow> string \<times> bool" where
  "string_field = struct_field store_string []"

definition int_field :: "string \<Rightarrow> json \<Rightarrow> int \<times> bool" where
  "int_field = struct_field store_int 0"

definition body_of :: "(json \<Rightarrow> 'a \<times> bool) \<Rightarrow> string option \<Rightarrow> 'a body" where
  "body_of decode text = (case text of
      None \<Rightarrow> Unreadable
    | Some s \<Rightarrow> (case parse_json s of
        None \<Rightarrow> NotJson
      | Some j \<Rightarrow> (case decode j of (v, True) \<Rightarrow> Parsed v | (_, False) \<Rightarrow> NotJson)))"

definition dec_fdb :: "json \<Rightarrow> string \<times> bool" where
  "dec_fdb j = (fst (string_field ''cilium_ip'' j), snd (string_field ''cilium_ip'' j) \<and> snd (string_field ''interface_id'' j))"

definition dec_setup :: "json \<Rightarrow> setup_request \<times> bool" where
  "dec_setup j = (\<lparr>rq_XfrmIP = fst (string_field ''xfrm_ip'' j), rq_XfrmID = fst (int_field ''xfrm_id'' j),
       rq_VxlanIP = fst (string_field ''vxlan_ip'' j)\<rparr>,
     snd (string_field ''xfrm_ip'' j) \<and> snd (int_field ''xfrm_id'' j) \<and> snd (string_field ''vxlan_ip'' j))"

definition dec_child_restart :: "json \<Rightarrow> (string \<times> string) \<times> bool" where
  "dec_child_restart j = ((fst (string_field ''connectionName'' j), fst (string_field ''childName'' j)),
     snd (string_field ''connectionName'' j) \<and> snd (string_field ''childName'' j))"

section \<open>The servers, over texts\<close>

definition xfrminion_http :: "'k netlink \<Rightarrow> string \<times> string option \<Rightarrow> ('k, reply, unit) io" where
  "xfrminion_http kn r = (case r of (path, text) \<Rightarrow>
     if path = '':8080/setupVxlan'' then setupVxlan kn (body_of dec_setup text)
     else if path = '':8080/addBridgeFDB'' then addBridgeFDB kn (body_of dec_fdb text)
     else if path = '':8080/addLocalRoute'' then addLocalRoute kn (body_of (string_field ''vxlan_ip'') text)
     else if path = '':8080/addRemoteRoute'' then addRemoteRoute kn (body_of (string_field ''remote_ip'') text)
     else if path = '':8080/deleteBridgeFDB'' then deleteBridgeFDB kn (body_of dec_fdb text)
     else if path = '':8080/deleteLocalRoute'' then deleteLocalRoute kn (body_of (string_field ''vxlan_ip'') text)
     else if path = '':8080/deleteRemoteRoute'' then deleteRemoteRoute kn (body_of (string_field ''remote_ip'') text)
     else fail (Replied 404))"

definition RestartConnection_http :: "'w swan \<Rightarrow> string option \<Rightarrow> 'w \<Rightarrow> (int \<times> string) \<times> 'w" where
  "RestartConnection_http sw text = RestartConnection sw (body_of (string_field ''name'') text)"

definition RestartConnectionChild_http :: "'w swan \<Rightarrow> string option \<Rightarrow> 'w \<Rightarrow> (int \<times> string) \<times> 'w" where
  "RestartConnectionChild_http sw text = RestartConnectionChild sw (body_of dec_child_restart text)"

definition getPid :: "int \<Rightarrow> http_reply" where
  "getPid pid = \<lparr>StatusCode = 200, Body = Some (print_json (JObj [(''pid'', JNum (show_int pid)), (''error'', JStr [])]))\<rparr>"

section \<open>What is written is read\<close>

lemma json_ok_int: "json_ok (JNum (show_int i))"
  using json_ok_num [of "nat i"] json_ok_num [of "nat (- i)"] by (auto simp: show_int_def num_char_def)

lemma request_json_ok: "(\<And>cs. json_ok (conns cs)) \<Longrightarrow> json_ok (request_json conns r)"
  by (cases r) (simp_all add: json_ok_int del: json_ok.simps(1))

lemma body_of_request:
  assumes "\<And>cs. json_ok (conns cs)" "decode (request_json conns r) = (v, True)"
  shows "body_of decode (Some (marshal_request conns r)) = Parsed v"
  using parse_print_json [OF request_json_ok [OF assms(1)]] assms(2) by (simp add: body_of_def marshal_request_def)

lemmas read_fields = string_field_def int_field_def struct_field_def lower_def

lemma remote_read: "string_field ''remote_ip'' (request_json conns r) = (req_remote r, True)"
  by (cases r) (simp_all add: read_fields)

lemma vxlan_read: "string_field ''vxlan_ip'' (request_json conns r) = (req_vxlan r, True)"
  by (cases r) (simp_all add: read_fields)

lemma fdb_read: "dec_fdb (request_json conns r) = (req_cilium r, True)"
  by (cases r) (simp_all add: read_fields dec_fdb_def)

lemma setup_read:
  "(\<And>x v i. r = SetupVxlanRequest x v i \<Longrightarrow> - (2 ^ 63) \<le> i \<and> i < 2 ^ 63) \<Longrightarrow>
     dec_setup (request_json conns r) = (req_setup r, True)"
  by (cases r) (simp_all add: read_fields dec_setup_def parse_int_show [of 64, simplified])

text \<open>
  C38. The handlers of xfrminion do with the text of a request what they do with the request: nothing is lost or
  misread between the controller and the server, whatever the path, as long as an interface id fits in 64 bits.
\<close>

theorem requests_survive:
  assumes "\<forall>cs. json_ok (conns cs)" "\<forall>x v i. req = SetupVxlanRequest x v i \<longrightarrow> - (2 ^ 63) \<le> i \<and> i < 2 ^ 63"
  shows "xfrminion_http kn (path, Some (marshal_request conns req)) = xfrminion kn (path, req)"
proof -
  have ok: "json_ok (conns cs)" for cs using assms(1) by blast
  have "dec_setup (request_json conns req) = (req_setup req, True)" using assms(2) by (intro setup_read) blast
  then show ?thesis
    by (simp add: xfrminion_http_def xfrminion_def body_of_request [OF ok] remote_read vxlan_read fdb_read)
qed

theorem requests_survive_witness:
  "xfrminion_http map_kernel ('':8080/setupVxlan'', Some (marshal_request (\<lambda>_. JNull) (SetupVxlanRequest ''10.0.0.2/24'' ''10.0.1.2/24'' 7)))
   = setupVxlan map_kernel (Parsed \<lparr>rq_XfrmIP = ''10.0.0.2/24'', rq_XfrmID = 7, rq_VxlanIP = ''10.0.1.2/24''\<rparr>)"
  using requests_survive [where conns = "\<lambda>_. JNull" and req = "SetupVxlanRequest ''10.0.0.2/24'' ''10.0.1.2/24'' 7"
    and path = "'':8080/setupVxlan''" and kn = map_kernel]
  by (simp add: xfrminion_def)

text \<open>The same for the restarts of restctl and the process id that xfrminion gives.\<close>

lemma restart_requests_survive:
  assumes "\<And>cs. json_ok (conns cs)"
  shows "RestartConnection_http sw (Some (marshal_request conns (RestartConnectionRequest n))) = RestartConnection sw (Parsed n)"
    "RestartConnectionChild_http sw (Some (marshal_request conns (RestartConnectionChildRequest n c))) = RestartConnectionChild sw (Parsed (n, c))"
  unfolding RestartConnection_http_def RestartConnectionChild_http_def
  by (subst body_of_request [OF assms]; simp add: read_fields dec_child_restart_def)+

lemma getPid_read:
  assumes "- (2 ^ 63) \<le> pid" "pid < 2 ^ 63"
  shows "map_option dec_pid (Body (getPid pid)) = Some (Some pid)"
proof -
  have "json_ok (JObj [(''pid'', JNum (show_int pid)), (''error'', JStr [])])"
    using json_ok_int by (simp del: json_ok.simps(1))
  from parse_print_json [OF this] show ?thesis
    using assms by (simp add: getPid_def dec_pid_def jfield_def json_str_ok_def parse_int_show [of 64, simplified])
qed

text \<open>Of two fields with one name the later one counts, also when the names differ in case.\<close>

lemma last_field_counts:
  "string_field ''vxlan_ip'' (JObj [(''vxlan_ip'', JStr a), (''VXLAN_IP'', JStr b)]) = (b, True)"
proof -
  have "map lower ''VXLAN_IP'' = ''vxlan_ip''" "map lower ''vxlan_ip'' = ''vxlan_ip''" by code_simp+
  then show ?thesis by (simp only: string_field_def struct_field_def json.case foldl_Cons foldl_Nil prod.case if_True refl store_string.simps)
qed

end
