(* ===== verification/Requests.thy ===== *)
theory Requests
  imports Exec_Actions Messages
begin

text \<open>
  The requests of the controller and the programs that answer them: restctl as a whole (\<open>main\<close> of
  \<open>cmd/restctl/main.go\<close>), the tables of handlers that both servers register, and a server that writes down the
  requests made to it. Every request an action makes goes to a registered path, with a body of the type that the handler of
  that path reads.
\<close>

section \<open>restctl\<close>

text \<open>
  The answers of the handlers that \<open>main\<close> registers, by the path of the request; the page of \<open>/metrics\<close> is what the
  collector (\<open>Exporter\<close>) sends. Reading the connections of a reload from the text is a parameter.
\<close>

datatype restctl_answer =
    TextAnswer "int \<times> string"
  | ReloadAnswer "int \<times> reload_reply option"
  | ConfigsAnswer "string list option"
  | MetricsAnswer
  | NotFound

definition p0ng :: restctl_answer where
  "p0ng = TextAnswer (200, ''p0ng'')"

definition restctl ::
  "'w vici \<Rightarrow> 'w swan \<Rightarrow> (string option \<Rightarrow> conn_data list option body) \<Rightarrow> string \<times> string option \<Rightarrow> ('w, unit, restctl_answer) io"
where
  "restctl vc sw read_reload r = (case r of (path, text) \<Rightarrow>
     if path = '':61410/metrics'' then ret MetricsAnswer
     else if path = '':61410/p1ng'' then ret p0ng
     else if path = '':61410/reload'' then bnd (reloadConfig vc (read_reload text)) (\<lambda>a. ret (ReloadAnswer a))
     else if path = '':61410/configs'' then (\<lambda>w. case getConfigs sw w of (a, w) \<Rightarrow> Some (Ok (ConfigsAnswer a), w))
     else if path = '':61410/conn-restart'' then (\<lambda>w. case RestartConnection_http sw text w of (a, w) \<Rightarrow> Some (Ok (TextAnswer a), w))
     else if path = '':61410/child-restart'' then (\<lambda>w. case RestartConnectionChild_http sw text w of (a, w) \<Rightarrow> Some (Ok (TextAnswer a), w))
     else ret NotFound)"

section \<open>The registered paths\<close>

definition healthz :: http_reply where
  "healthz = \<lparr>StatusCode = 200, Body = Some ''Ready''\<rparr>"

datatype payload = NoPayload | SetupPayload | FdbPayload | LocalPayload | RemotePayload | ReloadPayload | NamePayload | ChildPayload

fun payload_of :: "post_request \<Rightarrow> payload" where
  "payload_of (RemoteRouteRequest _) = RemotePayload"
| "payload_of (LocalRouteRequest _) = LocalPayload"
| "payload_of (BridgeFdbRequest _) = FdbPayload"
| "payload_of (ReloadData _) = ReloadPayload"
| "payload_of (RestartConnectionRequest _) = NamePayload"
| "payload_of (RestartConnectionChildRequest _ _) = ChildPayload"
| "payload_of (SetupVxlanRequest _ _ _) = SetupPayload"

text \<open>What the handler of each path reads from the body.\<close>

definition xfrminion_paths :: "(string \<times> payload) list" where
  "xfrminion_paths =
     [('':8080/pid'', NoPayload), ('':8080/setupVxlan'', SetupPayload), ('':8080/addBridgeFDB'', FdbPayload),
      ('':8080/addLocalRoute'', LocalPayload), ('':8080/addRemoteRoute'', RemotePayload),
      ('':8080/deleteBridgeFDB'', FdbPayload), ('':8080/deleteLocalRoute'', LocalPayload),
      ('':8080/deleteRemoteRoute'', RemotePayload), ('':8080/healthz'', NoPayload)]"

definition restctl_paths :: "(string \<times> payload) list" where
  "restctl_paths =
     [('':61410/metrics'', NoPayload), ('':61410/p1ng'', NoPayload), ('':61410/reload'', ReloadPayload),
      ('':61410/configs'', NoPayload), ('':61410/conn-restart'', NamePayload), ('':61410/child-restart'', ChildPayload)]"

text \<open>The tables list the paths that the programs answer.\<close>

lemma restctl_answers:
  "restctl vc sw rd (path, text) = ret NotFound \<longleftrightarrow> path \<notin> fst ` set restctl_paths"
proof (cases "path \<in> fst ` set restctl_paths")
  case True
  have "bnd m (\<lambda>a. ret (ReloadAnswer a)) w \<noteq> Some (Ok NotFound, w)" for m :: "('a, unit, int \<times> reload_reply option) io" and w
    by (auto simp: bnd_def ret_def split: option.splits outcome.splits)
  then have "bnd m (\<lambda>a. ret (ReloadAnswer a)) \<noteq> ret NotFound" for m :: "('a, unit, int \<times> reload_reply option) io"
    by (metis ret_def)
  moreover have "(\<lambda>w. case f w of (a, w) \<Rightarrow> Some (Ok (ConfigsAnswer a), w)) \<noteq> ret NotFound" for f :: "'a \<Rightarrow> string list option \<times> 'a"
    by (auto simp: ret_def fun_eq_iff split: prod.splits)
  moreover have "(\<lambda>w. case f w of (a, w) \<Rightarrow> Some (Ok (TextAnswer a), w)) \<noteq> ret NotFound" for f :: "'a \<Rightarrow> (int \<times> string) \<times> 'a"
    by (auto simp: ret_def fun_eq_iff split: prod.splits)
  moreover have "ret v \<noteq> (ret NotFound :: ('a, unit, restctl_answer) io)" if "v \<noteq> NotFound" for v
    using that by (auto simp: ret_def fun_eq_iff)
  ultimately show ?thesis using True by (auto simp: restctl_def restctl_paths_def p0ng_def)
qed (auto simp: restctl_def restctl_paths_def)

lemma xfrminion_unknown:
  "path \<notin> fst ` set xfrminion_paths \<Longrightarrow> xfrminion kn (path, r) = fail (Replied 404)"
  by (simp add: xfrminion_def xfrminion_paths_def)

section \<open>Computations that keep an invariant\<close>

definition keeps :: "('w \<Rightarrow> bool) \<Rightarrow> ('w, 'e, 'a) io \<Rightarrow> bool" where
  "keeps I m \<longleftrightarrow> (\<forall>w r w'. I w \<and> m w = Some (r, w') \<longrightarrow> I w')"

named_theorems keeps_rules

lemma keeps_basic [keeps_rules]:
  "keeps I (ret v)" "keeps I (fail e)" "keeps I crash" "keeps I (from_outcome r)"
  by (simp_all add: keeps_def from_outcome_def)

lemma keeps_bnd [keeps_rules]: "keeps I m \<Longrightarrow> (\<And>v. keeps I (f v)) \<Longrightarrow> keeps I (bnd m f)"
proof -
  assume m: "keeps I m" and f: "\<And>v. keeps I (f v)"
  have "I w'" if w: "I w" and b: "bnd m f w = Some (r, w')" for w r w'
  proof -
    obtain o1 w1 where s: "m w = Some (o1, w1)" using b by (cases "m w") (auto simp: bnd_def)
    then have "I w1" using m w unfolding keeps_def by blast
    with s b f show ?thesis unfolding keeps_def by (cases o1) (auto simp: bnd_def)
  qed
  then show "keeps I (bnd m f)" unfolding keeps_def by blast
qed

lemma keeps_ignore_err [keeps_rules]: "keeps I m \<Longrightarrow> keeps I (ignore_err m)"
  unfolding keeps_def ignore_err_def by (auto split: option.splits outcome.splits)

lemma keeps_in_order: "(\<And>x. x \<in> set xs \<Longrightarrow> keeps I (f x)) \<Longrightarrow> keeps I (in_order f xs)"
  by (induction xs) (auto intro: keeps_rules)

lemma keeps_if [keeps_rules]: "(b \<Longrightarrow> keeps I x) \<Longrightarrow> (\<not> b \<Longrightarrow> keeps I y) \<Longrightarrow> keeps I (if b then x else y)"
  by simp

lemma keeps_cases [keeps_rules]:
  "keeps I a \<Longrightarrow> (\<And>v. keeps I (f v)) \<Longrightarrow> keeps I (case x of None \<Rightarrow> a | Some v \<Rightarrow> f v)"
  "(\<And>e. keeps I (g e)) \<Longrightarrow> (\<And>v. keeps I (h v)) \<Longrightarrow> keeps I (case s of Inl e \<Rightarrow> g e | Inr v \<Rightarrow> h v)"
  "(\<And>v w. keeps I (k v w)) \<Longrightarrow> keeps I (case p of (v, w) \<Rightarrow> k v w)"
  by (simp_all split: option.split sum.split prod.split)

text \<open>A call keeps what its step keeps.\<close>

definition step_keeps :: "('w \<Rightarrow> bool) \<Rightarrow> ('w \<Rightarrow> 'r \<times> 'w) \<Rightarrow> bool" where
  "step_keeps I c \<longleftrightarrow> (\<forall>w. I w \<longrightarrow> I (snd (c w)))"

lemma keeps_call [keeps_rules]: "step_keeps I c \<Longrightarrow> keeps I (call f c)" "step_keeps I c \<Longrightarrow> keeps I (attempt c)"
  unfolding keeps_def step_keeps_def call_def attempt_def by (auto split: prod.splits; metis snd_conv)+

section \<open>The requests of the actions\<close>

datatype sent = Got string | Posted string post_request

text \<open>A request to a registered path, with the body that its handler reads.\<close>

definition served :: "sent \<Rightarrow> bool" where
  "served s = (case s of
      Got url \<Rightarrow> \<exists>ip path. url = pod_url ip path \<and> (path, NoPayload) \<in> set (xfrminion_paths @ restctl_paths)
    | Posted url r \<Rightarrow> \<exists>ip path. url = pod_url ip path \<and> (path, payload_of r) \<in> set (xfrminion_paths @ restctl_paths))"

lemma served_paths:
  "(path, NoPayload) \<in> set (xfrminion_paths @ restctl_paths) \<Longrightarrow> served (Got (pod_url ip path))"
  "(path, payload_of r) \<in> set (xfrminion_paths @ restctl_paths) \<Longrightarrow> served (Posted (pod_url ip path) r)"
  by (auto simp: served_def)

text \<open>What every call to the API server and every request that is served keeps, the actions keep.\<close>

locale kept_by_server =
  fixes sv :: "'w server" and I :: "'w \<Rightarrow> bool"
  assumes kept_pods: "step_keeps I (sv_get_pod sv k)" "step_keeps I (sv_list_pods sv)" "step_keeps I (sv_create_pod sv p)"
      "step_keeps I (sv_update_pod sv p)" "step_keeps I (sv_delete_pod sv p)"
    and kept_conns: "step_keeps I (sv_get_conn sv n)" "step_keeps I (sv_list_conns sv)" "step_keeps I (sv_update_status sv c)"
    and kept_reads: "step_keeps I (sv_get_group sv k)" "step_keeps I (sv_list_groups sv)" "step_keeps I (sv_get_secret sv k)"
    and kept_monitors: "step_keeps I (sv_create_monitor sv n)" "step_keeps I (sv_delete_monitor sv n)"
    and kept_jobs: "step_keeps I (sv_get_job sv k)" "step_keeps I (sv_create_job sv j)" "step_keeps I (sv_delete_job sv j)"
    and kept_requests: "served (Got url) \<Longrightarrow> step_keeps I (sv_http_get sv url)"
      "served (Posted url r) \<Longrightarrow> step_keeps I (sv_post sv url r)"
begin

lemmas kept = kept_pods kept_conns kept_reads kept_monitors kept_jobs

lemma kept_after_get: "sv_get_pod sv n w = (r, w') \<Longrightarrow> I w \<Longrightarrow> I w'"
  using kept_pods(1) [of n] unfolding step_keeps_def by (metis snd_conv)

lemma wait_phase_keeps: "I w \<Longrightarrow> I (snd (wait_phase sv timeout n tries pod w))"
proof (induction "nat (timeout + 1 - tries)" arbitrary: tries pod w rule: less_induct)
  case less
  obtain r w1 where g: "sv_get_pod sv n w = (r, w1)" by (cases "sv_get_pod sv n w")
  then have "I w1" using less.prems by (rule kept_after_get)
  with less.prems g less.hyps [of "tries + 1" w1 "keep_on_error pod r"] show ?case
    by (subst wait_phase.simps) (simp add: not_less)
qed

lemma wait_address_keeps: "I w \<Longrightarrow> I (snd (wait_address sv timeout n tries pod w))"
proof (induction "nat (timeout + 1 - tries)" arbitrary: tries pod w rule: less_induct)
  case less
  obtain r w1 where g: "sv_get_pod sv n w = (r, w1)" by (cases "sv_get_pod sv n w")
  then have "I w1" using less.prems by (rule kept_after_get)
  with less.prems g less.hyps [of "tries + 1" w1 "keep_on_error pod r"] show ?case
    by (subst wait_address.simps) (simp add: not_less)
qed

lemma wait_ready_keeps [keeps_rules]: "keeps I (wait_ready sv env n)"
proof -
  have "I (snd (waitForPodReady sv env n w))" if "I w" for w
  proof -
    obtain r w1 where g: "sv_get_pod sv n w = (r, w1)" by (cases "sv_get_pod sv n w")
    then have w1: "I w1" using that by (rule kept_after_get)
    show ?thesis
    proof (cases "IsTest env")
      case False
      let ?p = "wait_phase sv (WaitForPodTimeoutSeconds env) n (case r of Err e \<Rightarrow> if e \<noteq> ApiNotFound then 2 else 1 | _ \<Rightarrow> 1)
        (keep_on_error zero_pod r) w1"
      have p: "I (snd ?p)" using w1 by (rule wait_phase_keeps)
      obtain r2 w2 where s: "?p = (r2, w2)" by (cases ?p)
      with p have "I w2" by simp
      with False g s show ?thesis
        by (cases r2) (simp_all add: waitForPodReady_def Let_def wait_address_keeps)
    qed (use g w1 in \<open>simp add: waitForPodReady_def Let_def\<close>)
  qed
  then show ?thesis unfolding keeps_def wait_ready_def by (metis option.inject snd_conv)
qed

lemma requests_keep [keeps_rules]:
  "(path, NoPayload) \<in> set (xfrminion_paths @ restctl_paths) \<Longrightarrow> keeps I (http_get sv what (pod_url ip path))"
  "(path, payload_of r) \<in> set (xfrminion_paths @ restctl_paths) \<Longrightarrow> keeps I (send_post sv what (pod_url ip path) r)"
  unfolding http_get_def send_post_def by (intro keeps_rules kept_requests served_paths; assumption)+

lemma read_body_keeps [keeps_rules]: "keeps I (read_body what resp)"
  unfolding read_body_def by (intro keeps_rules)

lemma poll_job_keeps: "keeps I (poll_job sv n left job)"
proof (induction left arbitrary: job)
  case 0
  show ?case by (subst poll_job.simps) (intro keeps_rules; simp add: keeps_rules del: io_simps)
next
  case (Suc left)
  then show ?case by (subst poll_job.simps) (intro keeps_rules; simp add: keeps_rules kept del: io_simps)
qed

lemma waitForJob_keeps [keeps_rules]: "keeps I (waitForJobCompletion sv job)"
  unfolding waitForJobCompletion_def by (intro keeps_rules poll_job_keeps)

lemma poll_active_keeps: "keeps I (poll_active sv n left job)"
  by (induction left arbitrary: job) (simp_all add: keeps_rules kept del: io_simps)

lemma poll_gone_keeps: "keeps I (poll_gone sv n left)"
proof (induction left)
  case (Suc l)
  then show ?case
    unfolding poll_gone.simps by (intro keeps_rules kept) (simp_all add: keeps_rules split: api_error.split del: io_simps)
qed (simp add: keeps_rules del: io_simps)

lemma create_job_keeps [keeps_rules]: "keeps I (create_job sv job)"
  unfolding create_job_def replace_job_def
  by (intro keeps_rules kept poll_active_keeps poll_gone_keeps allI impI conjI | split api_error.split)+

lemma poll_annotation_keeps:
  assumes "poll_annotation sv same k spec w = Some y"
  shows "I w \<longrightarrow> I (snd y)"
proof (rule poll_annotation.raw_induct [of "\<lambda>sv' same k spec w y. sv' = sv \<longrightarrow> I w \<longrightarrow> I (snd y)", OF _ assms, THEN mp, OF _ refl], intro impI)
  fix poll sv' same k spec w y
  assume IH: "\<And>sv' same k spec w y. poll sv' same k spec w = Some y \<Longrightarrow> sv' = sv \<longrightarrow> I w \<longrightarrow> I (snd y)"
    and body: "(case sv_get_pod sv' k w of (r, w') \<Rightarrow> (case r of
        Ok p \<Rightarrow> if \<not> xfrm_json_ok (gstr (Annotations p) AnnotationSpec) then Some (Err (BadReply []), w')
          else if same (unmarshal_xfrm (gstr (Annotations p) AnnotationSpec)) spec then Some (Ok (), w')
          else poll sv' same k spec w'
      | Err e \<Rightarrow> Some (Err (ApiFailed [] e), w') | Panic \<Rightarrow> Some (Panic, w'))) = Some y"
    and sv: "sv' = sv" and w: "I w"
  obtain r w1 where g: "sv_get_pod sv k w = (r, w1)" by (cases "sv_get_pod sv k w")
  have "I w1" using g w by (rule kept_after_get)
  with body sv g IH [of sv same k spec w1 y] show "I (snd y)" by (auto split: outcome.splits if_splits)
qed

lemma update_annotation_keeps: "keeps I (updateXfrmSpecAnnotation sv same x)"
proof -
  have "keeps I (poll_annotation sv same k spec)" for k spec
    unfolding keeps_def using poll_annotation_keeps [of same k spec] by fastforce
  then show ?thesis
    unfolding updateXfrmSpecAnnotation_def Let_def by (intro keeps_rules kept)
qed

lemma record_route_keeps [keeps_rules]: "keeps I (record_route sv same a pod)"
  unfolding record_route_def Let_def by (rule update_annotation_keeps)

lemma getPodByIP_keeps [keeps_rules]: "keeps I (getPodByIP sv ip)"
  unfolding getPodByIP_def by (intro keeps_rules kept)

text \<open>The paths of the requests.\<close>

lemma registered:
  "('':8080/pid'', NoPayload) \<in> set (xfrminion_paths @ restctl_paths)" "('':61410/p1ng'', NoPayload) \<in> set (xfrminion_paths @ restctl_paths)"
  "('':8080/setupVxlan'', payload_of (SetupVxlanRequest x v i)) \<in> set (xfrminion_paths @ restctl_paths)"
  "('':8080/addRemoteRoute'', payload_of (RemoteRouteRequest r)) \<in> set (xfrminion_paths @ restctl_paths)"
  "('':8080/deleteRemoteRoute'', payload_of (RemoteRouteRequest r)) \<in> set (xfrminion_paths @ restctl_paths)"
  "('':8080/addLocalRoute'', payload_of (LocalRouteRequest r)) \<in> set (xfrminion_paths @ restctl_paths)"
  "('':8080/deleteLocalRoute'', payload_of (LocalRouteRequest r)) \<in> set (xfrminion_paths @ restctl_paths)"
  "('':8080/addBridgeFDB'', payload_of (BridgeFdbRequest u)) \<in> set (xfrminion_paths @ restctl_paths)"
  "('':8080/deleteBridgeFDB'', payload_of (BridgeFdbRequest u)) \<in> set (xfrminion_paths @ restctl_paths)"
  "('':61410/reload'', payload_of (ReloadData d)) \<in> set (xfrminion_paths @ restctl_paths)"
  "('':61410/conn-restart'', payload_of (RestartConnectionRequest n)) \<in> set (xfrminion_paths @ restctl_paths)"
  "('':61410/child-restart'', payload_of (RestartConnectionChildRequest n c)) \<in> set (xfrminion_paths @ restctl_paths)"
  by (simp_all add: xfrminion_paths_def restctl_paths_def)

lemma routes_keep:
  "keeps I (Do_AddRemoteRoute sv same env r p)" "keeps I (Do_DeleteRemoteRoute sv same env r p)"
  "keeps I (Do_AddLocalRoute sv same env r p)" "keeps I (Do_DeleteLocalRoute sv same env r p)"
  "keeps I (Do_AddBridgeFDB sv same v u p)" "keeps I (Do_DeleteBridgeFDB sv same v u p)"
  unfolding Do_AddRemoteRoute_def Do_DeleteRemoteRoute_def Do_AddLocalRoute_def Do_DeleteLocalRoute_def
    Do_AddBridgeFDB_def Do_DeleteBridgeFDB_def
  by (intro keeps_rules registered)+

lemma pods_keep: "keeps I (Do_CreatePod sv env p)" "keeps I (Do_DeletePod sv env p)"
proof -
  have "keeps I (complete_setup sv env p pod)" for pod
    unfolding complete_setup_def Xfrm_CompleteSetup_def Restctl_CompleteSetup_def Charon_CompleteSetup_def Let_def
    by (cases p; simp only: any_pod.case; intro keeps_rules keeps_in_order kept registered)
  then show "keeps I (Do_CreatePod sv env p)" unfolding Do_CreatePod_def by (intro keeps_rules kept)
  show "keeps I (Do_DeletePod sv env p)"
    unfolding Do_DeletePod_def complete_deletion_def Xfrm_CompleteDeletion_def
    by (cases p) (simp_all add: keeps_rules kept del: io_simps)
qed

lemma ping_proxy_keeps [keeps_rules]: "keeps I (ping_proxy sv (pod_url ip '':61410/p1ng'') n)"
proof (induction n)
  case (Suc l)
  have "step_keeps I (sv_http_get sv (pod_url ip '':61410/p1ng''))"
    by (intro kept_requests served_paths registered)
  with Suc show ?case unfolding ping_proxy.simps by (intro keeps_rules)
qed (simp add: keeps_rules del: io_simps)

lemma groups_of_configs_keeps [keeps_rules]: "keeps I (groups_of_configs sv cs m)"
  by (induction cs arbitrary: m) (simp_all add: get_group_io_def keeps_rules kept del: io_simps)

lemma secrets_of_configs_keeps [keeps_rules]: "keeps I (secrets_of_configs sv ours groups cs m)"
  by (induction cs arbitrary: m) (simp_all add: keeps_rules kept del: io_simps)

lemma connections_keep:
  "keeps I (Do_OverrideConfig sv env n cs)" "keeps I (Do_RestartConnection sv n ip)"
  "keeps I (Do_RestartChild sv n ch ip)" "keeps I (Do_UpdateChildStatus sv n)"
  unfolding Do_OverrideConfig_def Do_RestartConnection_def Do_RestartChild_def Do_UpdateChildStatus_def Let_def
  by (intro keeps_rules kept registered)+

lemma monitors_keep: "keeps I (Do_CreateMonitor sv)" "keeps I (Do_DeleteMonitor sv)"
  unfolding Do_CreateMonitor_def Do_DeleteMonitor_def
  by (intro keeps_rules kept | split api_error.split, intro conjI impI)+

lemma Do_keeps: "keeps I (Do sv same env a)"
  by (cases a) (simp_all only: Do.simps routes_keep pods_keep connections_keep monitors_keep)

lemma actions_keep: "in_order (Do sv same env) acts w = Some (r, w') \<Longrightarrow> I w \<Longrightarrow> I w'"
  using keeps_in_order [of acts I "Do sv same env"] Do_keeps unfolding keeps_def by blast

end

section \<open>Writing requests down\<close>

definition behind :: "('w \<Rightarrow> 'r \<times> 'w) \<Rightarrow> 'w \<times> sent list \<Rightarrow> 'r \<times> 'w \<times> sent list" where
  "behind c = (\<lambda>(w, l). case c w of (r, w') \<Rightarrow> (r, w', l))"

definition noting :: "sent \<Rightarrow> ('w \<Rightarrow> 'r \<times> 'w) \<Rightarrow> 'w \<times> sent list \<Rightarrow> 'r \<times> 'w \<times> sent list" where
  "noting s c = (\<lambda>(w, l). case c w of (r, w') \<Rightarrow> (r, w', l @ [s]))"

definition recorded :: "'w server \<Rightarrow> ('w \<times> sent list) server" where
  "recorded sv = \<lparr>
     sv_get_pod = (\<lambda>k. behind (sv_get_pod sv k)), sv_list_pods = behind (sv_list_pods sv),
     sv_create_pod = (\<lambda>p. behind (sv_create_pod sv p)), sv_update_pod = (\<lambda>p. behind (sv_update_pod sv p)),
     sv_delete_pod = (\<lambda>p. behind (sv_delete_pod sv p)), sv_get_conn = (\<lambda>n. behind (sv_get_conn sv n)),
     sv_list_conns = behind (sv_list_conns sv), sv_update_status = (\<lambda>c. behind (sv_update_status sv c)),
     sv_get_group = (\<lambda>k. behind (sv_get_group sv k)), sv_list_groups = behind (sv_list_groups sv),
     sv_get_secret = (\<lambda>k. behind (sv_get_secret sv k)), sv_create_monitor = (\<lambda>n. behind (sv_create_monitor sv n)),
     sv_delete_monitor = (\<lambda>n. behind (sv_delete_monitor sv n)), sv_get_job = (\<lambda>k. behind (sv_get_job sv k)),
     sv_create_job = (\<lambda>j. behind (sv_create_job sv j)), sv_delete_job = (\<lambda>j. behind (sv_delete_job sv j)),
     sv_http_get = (\<lambda>url. noting (Got url) (sv_http_get sv url)),
     sv_post = (\<lambda>url r. noting (Posted url r) (sv_post sv url r))\<rparr>"

definition all_served :: "'w \<times> sent list \<Rightarrow> bool" where
  "all_served wl \<longleftrightarrow> (\<forall>s \<in> set (snd wl). served s)"

lemma all_served_steps:
  "step_keeps all_served (behind c)" "served s \<Longrightarrow> step_keeps all_served (noting s c)"
  by (auto simp: step_keeps_def behind_def noting_def all_served_def split: prod.splits)

interpretation recorded: kept_by_server "recorded sv" all_served for sv :: "'w server"
  by unfold_locales (simp_all add: recorded_def all_served_steps)

text \<open>The actions read groups and secrets and do not write them.\<close>

interpretation map_reads: kept_by_server map_server "\<lambda>w. st_Groups w = gs \<and> st_Secrets w = ss" for gs ss
  by unfold_locales (auto simp: step_keeps_def map_server_def split: option.split)

lemma actions_only_read:
  "in_order (Do map_server same env) acts w = Some (r, w') \<Longrightarrow> st_Groups w' = st_Groups w \<and> st_Secrets w' = st_Secrets w"
  by (erule map_reads.actions_keep) simp

text \<open>
  C8. Every request is answered by a handler: whatever actions are carried out, on whatever API server and with whatever
  answers, each request that leaves the controller goes to a path that xfrminion or restctl registers in its \<open>main\<close>, on the port that it
  listens on, and a request with a body to a path whose handler reads a body of that type.
\<close>

theorem requests_served:
  assumes "in_order (Do (recorded sv) same env) acts (w, []) = Some (r, w', sent)"
  shows "\<forall>s \<in> set sent. served s"
  using recorded.actions_keep [OF assms] by (simp add: all_served_def)

definition no_objects :: store where
  "no_objects = \<lparr>st_Pods = [], st_Conns = [], st_Groups = [], st_Secrets = [], st_Jobs = [], st_Posts = []\<rparr>"

theorem requests_served_witness:
  "served (Posted ''http://10.0.0.1:61410/conn-restart'' (RestartConnectionRequest ''c''))"
proof -
  have "in_order (Do (recorded map_server) same env) [RestartConnectionAction ''c'' ''10.0.0.1''] (no_objects, [])
    = Some (Err (ApiFailed ''Error fetching IPSecConnection'' ApiNotFound),
        no_objects\<lparr>st_Posts := [(''http://10.0.0.1:61410/conn-restart'', RestartConnectionRequest ''c'')]\<rparr>,
        [Posted ''http://10.0.0.1:61410/conn-restart'' (RestartConnectionRequest ''c'')])" for same env
    by (simp add: Do_RestartConnection_def send_post_def recorded_def behind_def noting_def map_server_def bnd_def call_def
        read_body_def ret_def fail_def lookup_or_def no_objects_def pod_url_def)
  from requests_served [OF this] show ?thesis by simp
qed

end
