(* ===== verification/Converge.thy ===== *)
theory Converge
  imports Diff_Props
begin

text \<open>
  What carrying out the actions of a group does: a creation puts the pod of the action in place, a deletion
  removes the pod of its name, and a route action changes the routes of an xfrm pod and their record (\<open>route_step\<close>). Each action
  changes at most the pod of one name, so the fate of a name is decided by the actions that target it
  (\<open>keyed_steps\<close>), and these come from one group (\<open>pod_kind\<close>). The pods are those of the action, without
  the address that the cluster gives them; a pass that stops at a failed action has carried out those before it.
\<close>

section \<open>Actions on the pod of one name\<close>

definition carry_out :: "(action \<Rightarrow> 'w \<Rightarrow> 'w) \<Rightarrow> action list \<Rightarrow> 'w \<Rightarrow> 'w" where
  "carry_out step acts w = foldl (\<lambda>w a. step a w) w acts"

lemma carry_out_simps [simp]:
  "carry_out step [] w = w"
  "carry_out step (a # acts) w = carry_out step acts (step a w)"
  "carry_out step (xs @ ys) w = carry_out step ys (carry_out step xs w)"
  by (simp_all add: carry_out_def)

definition named :: "('p \<Rightarrow> string) \<Rightarrow> 'p list \<Rightarrow> string \<Rightarrow> 'p option" where
  "named nm ps n = find (\<lambda>p. nm p = n) ps"

lemma named_None_iff: "named nm ps n = None \<longleftrightarrow> n \<notin> nm ` set ps"
  by (auto simp: named_def find_None_iff)

lemma named_append: "named nm (xs @ ys) n = (case named nm xs n of None \<Rightarrow> named nm ys n | r \<Rightarrow> r)"
  by (induction xs) (auto simp: named_def)

lemma filter_concat_none: "(\<And>y. y \<in> set xs \<Longrightarrow> filter P (f y) = []) \<Longrightarrow> filter P (concat (map f xs)) = []"
  by (induction xs) auto

lemma named_concat_none: "(\<And>y. y \<in> set xs \<Longrightarrow> n \<notin> nm ` set (f y)) \<Longrightarrow> named nm (concat (map f xs)) n = None"
  by (auto simp: named_None_iff)

lemma distinct_split:
  assumes "distinct (map key xs)" "x \<in> set xs"
  obtains as bs where "xs = as @ x # bs" "\<And>y. y \<in> set as \<union> set bs \<Longrightarrow> key y \<noteq> key x"
proof -
  obtain as bs where "xs = as @ x # bs" using assms(2) by (meson split_list)
  moreover from this assms(1) have "key y \<noteq> key x" if "y \<in> set as \<union> set bs" for y
    using that by (auto simp: image_iff)
  ultimately show thesis by (rule that)
qed

lemma named_concat:
  assumes "distinct (map key xs)" "x \<in> set xs" "\<And>y. y \<in> set xs \<Longrightarrow> key y \<noteq> key x \<Longrightarrow> n \<notin> nm ` set (f y)"
  shows "named nm (concat (map f xs)) n = named nm (f x) n"
proof -
  obtain as bs where s: "xs = as @ x # bs" "\<And>y. y \<in> set as \<union> set bs \<Longrightarrow> key y \<noteq> key x"
    using distinct_split [OF assms(1,2)] by blast
  have "named nm (concat (map f as)) n = None" "named nm (concat (map f bs)) n = None"
    using s assms(3) by (intro named_concat_none; force)+
  then show ?thesis by (simp add: s(1) named_append split: option.split)
qed

lemma filter_concat_one:
  assumes "distinct (map key xs)" "x \<in> set xs" "\<And>y. y \<in> set xs \<Longrightarrow> key y \<noteq> key x \<Longrightarrow> filter P (f y) = []"
  shows "filter P (concat (map f xs)) = filter P (f x)"
proof -
  obtain as bs where s: "xs = as @ x # bs" "\<And>y. y \<in> set as \<union> set bs \<Longrightarrow> key y \<noteq> key x"
    using distinct_split [OF assms(1,2)] by blast
  have "filter P (concat (map f as)) = []" "filter P (concat (map f bs)) = []"
    using s assms(3) by (intro filter_concat_none; force)+
  then show ?thesis by (simp add: s(1))
qed

locale keyed_steps =
  fixes step :: "action \<Rightarrow> (string \<Rightarrow> 'v option) \<Rightarrow> string \<Rightarrow> 'v option"
    and target :: "action \<Rightarrow> string option"
    and upd :: "action \<Rightarrow> 'v option \<Rightarrow> 'v option"
  assumes step_at: "step a w n = (if target a = Some n then upd a (w n) else w n)"
begin

lemma carried_at: "carry_out step acts w n = foldl (\<lambda>v a. upd a v) (w n) (filter (\<lambda>a. target a = Some n) acts)"
  by (induction acts arbitrary: w) (simp_all add: step_at)

lemma carried_filter: "carry_out step (filter (\<lambda>a. target a \<noteq> None) acts) w = carry_out step acts w"
proof
  have "filter (\<lambda>a. target a = Some n) (filter (\<lambda>a. target a \<noteq> None) acts) = filter (\<lambda>a. target a = Some n) acts" for n
    unfolding filter_filter by (rule filter_cong) auto
  then show "carry_out step (filter (\<lambda>a. target a \<noteq> None) acts) w n = carry_out step acts w n" for n
    by (simp add: carried_at)
qed

lemma carried_cong:
  "w n = w' n \<Longrightarrow> filter (\<lambda>a. target a = Some n) acts = filter (\<lambda>a. target a = Some n) acts' \<Longrightarrow>
     carry_out step acts w n = carry_out step acts' w' n"
  by (simp add: carried_at)

end

text \<open>
  A kind of pods: those of a group, their names, what the world has for a pod (\<open>val\<close>), and when the world's entry is as
  desired. Deleting a group touches its pods only and leaves none.
\<close>

definition settles ::
  "(action \<Rightarrow> (string \<Rightarrow> 'v option) \<Rightarrow> string \<Rightarrow> 'v option) \<Rightarrow> ('p \<Rightarrow> string) \<Rightarrow> ('p \<Rightarrow> 'v) \<Rightarrow> ('p \<Rightarrow> 'v \<Rightarrow> bool)
   \<Rightarrow> action list \<Rightarrow> 'p list \<Rightarrow> 'p list \<Rightarrow> bool"
where
  "settles step nm val ok acts desired current =
     (let w = carry_out step acts (\<lambda>n. map_option val (named nm current n))
      in \<forall>n. case named nm desired n of None \<Rightarrow> w n = None | Some d \<Rightarrow> (\<exists>v. w n = Some v \<and> ok d v))"

lemma settled_iff:
  "settles step nm val ok [] ds cs \<longleftrightarrow>
     (\<forall>n. case named nm ds n of None \<Rightarrow> named nm cs n = None | Some d \<Rightarrow> \<exists>p. named nm cs n = Some p \<and> ok d (val p))"
proof -
  have "(case a of None \<Rightarrow> map_option val b = None | Some d \<Rightarrow> (\<exists>v. map_option val b = Some v \<and> ok d v))
      \<longleftrightarrow> (case a of None \<Rightarrow> b = None | Some d \<Rightarrow> \<exists>p. b = Some p \<and> ok d (val p))" for a b by (cases a) auto
  then show ?thesis by (simp only: settles_def Let_def carry_out_simps)
qed

locale pod_kind = keyed_steps step target upd
  for step :: "action \<Rightarrow> (string \<Rightarrow> 'v option) \<Rightarrow> string \<Rightarrow> 'v option" and target upd +
  fixes pods :: "group_state \<Rightarrow> 'p list" and nm :: "'p \<Rightarrow> string" and val :: "'p \<Rightarrow> 'v" and ok :: "'p \<Rightarrow> 'v \<Rightarrow> bool"
  assumes gone_targets: "a \<in> set (deleteNode g) \<Longrightarrow> target a = Some n \<Longrightarrow> n \<in> nm ` set (pods g)"
    and gone_hits: "n \<in> nm ` set (pods g) \<Longrightarrow> \<exists>a \<in> set (deleteNode g). target a = Some n"
    and gone_clears: "a \<in> set (deleteNode g) \<Longrightarrow> upd a v = None"
begin

lemma gone_settles: "settles step nm val ok (deleteNode g) [] (pods g)"
proof -
  have none: "foldl (\<lambda>v a. upd a v) v as = None" if "as \<noteq> [] \<or> v = None" "\<forall>a \<in> set as. \<forall>v. upd a v = None" for as v
    using that by (induction as arbitrary: v) auto
  have "foldl (\<lambda>v a. upd a v) (map_option val (named nm (pods g) n)) (filter (\<lambda>a. target a = Some n) (deleteNode g)) = None" for n
  proof (rule none)
    show "filter (\<lambda>a. target a = Some n) (deleteNode g) \<noteq> [] \<or> map_option val (named nm (pods g) n) = None"
      using gone_hits [of n g] by (auto simp: named_None_iff filter_empty_conv)
  qed (use gone_clears in auto)
  then show ?thesis by (simp add: settles_def Let_def carried_at named_def [of nm "[]"])
qed

lemma settles_targeting:
  assumes "settles step nm val ok acts ds cs" "filter (\<lambda>a. target a \<noteq> None) acts' = filter (\<lambda>a. target a \<noteq> None) acts"
  shows "settles step nm val ok acts' ds cs"
proof -
  have "carry_out step acts' w = carry_out step acts w" for w
    using assms(2) carried_filter [of acts w] carried_filter [of acts' w] by simp
  with assms(1) show ?thesis by (simp add: settles_def)
qed

lemma settles_at:
  assumes "settles step nm val ok acts ds cs" "w n = map_option val (named nm cs n)"
    and "filter (\<lambda>a. target a = Some n) acts' = filter (\<lambda>a. target a = Some n) acts"
  shows "case named nm ds n of None \<Rightarrow> carry_out step acts' w n = None
    | Some d \<Rightarrow> (\<exists>v. carry_out step acts' w n = Some v \<and> ok d v)"
  using assms(1) [unfolded settles_def Let_def, THEN spec, of n]
  by (simp only: carried_cong [of w n "\<lambda>n. map_option val (named nm cs n)" acts' acts, OF assms(2,3)])

text \<open>
  The groups together: blocks of actions, one for each desired group, that settle its pods, then the deletion of the
  groups that are no longer wanted. Pods of different groups have different names.
\<close>

lemma settles_groups:
  assumes dist: "distinct (map GroupRef ds)" "distinct (map GroupRef cs)"
    and cur: "\<And>g. g \<in> set ds \<Longrightarrow> cur g \<in> set cs \<and> GroupRef (cur g) = GroupRef g"
    and apart: "\<And>g h n. g \<in> set ds \<union> set cs \<Longrightarrow> h \<in> set ds \<union> set cs \<Longrightarrow>
      n \<in> nm ` set (pods g) \<Longrightarrow> n \<in> nm ` set (pods h) \<Longrightarrow> GroupRef g = GroupRef h"
    and pre: "\<And>a. a \<in> set pre \<Longrightarrow> target a = None"
    and targets: "\<And>g a n. g \<in> set ds \<Longrightarrow> a \<in> set (B g) \<Longrightarrow> target a = Some n \<Longrightarrow>
      n \<in> nm ` set (pods g) \<union> nm ` set (pods (cur g))"
    and block: "\<And>g. g \<in> set ds \<Longrightarrow> settles step nm val ok (B g) (pods g) (pods (cur g))"
  shows "settles step nm val ok (pre @ concat (map B ds)
      @ concat (map deleteNode (filter (\<lambda>c. GroupRef c \<notin> GroupRef ` set ds) cs))) (concat (map pods ds)) (concat (map pods cs))"
    (is "settles step nm val ok (pre @ ?as @ concat (map deleteNode ?gone)) _ _")
proof -
  let ?acts = "pre @ ?as @ concat (map deleteNode ?gone)"
  have "case named nm (concat (map pods ds)) n of
        None \<Rightarrow> carry_out step ?acts (\<lambda>n. map_option val (named nm (concat (map pods cs)) n)) n = None
      | Some d \<Rightarrow> (\<exists>v. carry_out step ?acts (\<lambda>n. map_option val (named nm (concat (map pods cs)) n)) n = Some v \<and> ok d v)" for n
  proof -
    let ?P = "\<lambda>a. target a = Some n" and ?w = "\<lambda>n. map_option val (named nm (concat (map pods cs)) n)"
    have fpre: "filter ?P pre = []" using pre by (auto simp: filter_empty_conv)
    have fgroup: "filter ?P (B h) = []"
      if "h \<in> set ds" "n \<notin> nm ` set (pods h)" "n \<notin> nm ` set (pods (cur h))" for h
      using targets [OF that(1)] that(2,3) by (auto simp: filter_empty_conv)
    have fgone: "filter ?P (deleteNode h) = []" if "n \<notin> nm ` set (pods h)" for h
      using gone_targets [of _ h n] that by (auto simp: filter_empty_conv)
    consider (kept) g where "g \<in> set ds" "n \<in> nm ` set (pods g) \<union> nm ` set (pods (cur g))"
      | (gone) c where "c \<in> set cs" "GroupRef c \<notin> GroupRef ` set ds" "n \<in> nm ` set (pods c)"
      | (none) "\<forall>g \<in> set ds \<union> set cs. n \<notin> nm ` set (pods g)"
    proof (cases "\<exists>c \<in> set cs. n \<in> nm ` set (pods c)")
      case True
      then obtain c where c: "c \<in> set cs" "n \<in> nm ` set (pods c)" by blast
      show thesis
      proof (cases "GroupRef c \<in> GroupRef ` set ds")
        case True
        then obtain g where g: "g \<in> set ds" "GroupRef c = GroupRef g" by blast
        then have "c = cur g" using cur [OF g(1)] c(1) dist(2) by (metis distinct_map inj_onD)
        with g(1) c(2) show thesis using kept by blast
      qed (use c gone in blast)
    qed (use kept none in blast)
    then show ?thesis
    proof cases
      case kept
      have other: "n \<notin> nm ` set (pods h)" if "h \<in> set ds \<union> set cs" "GroupRef h \<noteq> GroupRef g" for h
        using apart [of h g n] apart [of h "cur g" n] cur [OF kept(1)] kept that by auto
      have "n \<notin> nm ` set (pods h)" "n \<notin> nm ` set (pods (cur h))" if "h \<in> set ds" "GroupRef h \<noteq> GroupRef g" for h
        using other [of h] other [of "cur h"] cur [OF that(1)] that by simp_all
      then have "filter ?P ?as = filter ?P (B g)"
        using dist(1) kept(1) by (intro filter_concat_one [where key = GroupRef] fgroup) auto
      moreover have "filter ?P (concat (map deleteNode ?gone)) = []"
        using other kept(1) by (intro filter_concat_none fgone) force
      ultimately have f: "filter ?P ?acts = filter ?P (B g)" using fpre by simp
      have "named nm (concat (map pods cs)) n = named nm (pods (cur g)) n"
        using dist(2) cur [OF kept(1)] other by (intro named_concat [where key = GroupRef]) auto
      moreover have "named nm (concat (map pods ds)) n = named nm (pods g) n"
        using dist(1) kept(1) other by (intro named_concat [where key = GroupRef]) auto
      ultimately show ?thesis using settles_at [OF block [OF kept(1)], of ?w n ?acts, OF _ f] by simp
    next
      case gone
      have other: "n \<notin> nm ` set (pods h)" if "h \<in> set ds \<union> set cs" "GroupRef h \<noteq> GroupRef c" for h
        using apart [of h c n] gone that by auto
      have d: "n \<notin> nm ` set (pods g)" "n \<notin> nm ` set (pods (cur g))" if "g \<in> set ds" for g
      proof -
        have "GroupRef g \<noteq> GroupRef c" using gone(2) that by (metis imageI)
        with other [of g] other [of "cur g"] cur [OF that] that
        show "n \<notin> nm ` set (pods g)" "n \<notin> nm ` set (pods (cur g))" by simp_all
      qed
      have "filter ?P ?as = []" using d by (intro filter_concat_none fgroup)
      moreover have "filter ?P (concat (map deleteNode ?gone)) = filter ?P (deleteNode c)"
        using dist(2) gone(1,2) other by (intro filter_concat_one [where key = GroupRef] fgone) (auto simp: distinct_map_filter)
      ultimately have f: "filter ?P ?acts = filter ?P (deleteNode c)" using fpre by simp
      have "named nm (concat (map pods cs)) n = named nm (pods c) n"
        using dist(2) gone(1) other by (intro named_concat [where key = GroupRef]) auto
      moreover have "named nm (concat (map pods ds)) n = None" using d(1) by (intro named_concat_none)
      ultimately show ?thesis
        using settles_at [OF gone_settles [of c], of ?w n ?acts, OF _ f] by (simp add: named_def)
    next
      case none
      have "filter ?P ?acts = []"
        using none cur fpre by (simp, intro conjI filter_concat_none fgroup fgone) auto
      moreover have "named nm (concat (map pods cs)) n = None" "named nm (concat (map pods ds)) n = None"
        using none by (intro named_concat_none; auto)+
      ultimately show ?thesis by (simp add: carried_at)
    qed
  qed
  then show ?thesis by (simp only: settles_def Let_def) blast
qed

text \<open>What it means for one group that no action is needed any more.\<close>

lemma settled_group:
  assumes dist: "distinct (map GroupRef ds)" "distinct (map GroupRef cs)"
    and cur: "\<And>g. g \<in> set ds \<Longrightarrow> cur g \<in> set cs \<and> GroupRef (cur g) = GroupRef g"
    and apart: "\<And>g h n. g \<in> set ds \<union> set cs \<Longrightarrow> h \<in> set ds \<union> set cs \<Longrightarrow>
      n \<in> nm ` set (pods g) \<Longrightarrow> n \<in> nm ` set (pods h) \<Longrightarrow> GroupRef g = GroupRef h"
    and settled: "settles step nm val ok [] (concat (map pods ds)) (concat (map pods cs))"
  shows "g \<in> set ds \<Longrightarrow> settles step nm val ok [] (pods g) (pods (cur g))"
    "c \<in> set cs \<Longrightarrow> GroupRef c \<notin> GroupRef ` set ds \<Longrightarrow> pods c = []"
proof -
  let ?D = "named nm (concat (map pods ds))" and ?C = "named nm (concat (map pods cs))"
  have S: "case ?D n of None \<Rightarrow> ?C n = None | Some d \<Rightarrow> \<exists>p. ?C n = Some p \<and> ok d (val p)" for n
    using settled unfolding settled_iff by blast
  show "settles step nm val ok [] (pods g) (pods (cur g))" if g: "g \<in> set ds"
  proof -
    have "case named nm (pods g) n of None \<Rightarrow> named nm (pods (cur g)) n = None
        | Some d \<Rightarrow> \<exists>p. named nm (pods (cur g)) n = Some p \<and> ok d (val p)" for n
    proof (cases "n \<in> nm ` set (pods g) \<union> nm ` set (pods (cur g))")
      case True
      have other: "n \<notin> nm ` set (pods h)" if "h \<in> set ds \<union> set cs" "GroupRef h \<noteq> GroupRef g" for h
        using apart [of h g n] apart [of h "cur g" n] cur [OF g] g that True by auto
      have "?D n = named nm (pods g) n" using dist(1) g other by (intro named_concat [where key = GroupRef]) auto
      moreover have "?C n = named nm (pods (cur g)) n"
        using dist(2) cur [OF g] other by (intro named_concat [where key = GroupRef]) auto
      ultimately show ?thesis using S [of n] by (simp only:)
    qed (simp add: named_None_iff [THEN iffD2])
    then show ?thesis unfolding settled_iff by blast
  qed
  show "pods c = []" if c: "c \<in> set cs" "GroupRef c \<notin> GroupRef ` set ds"
  proof (rule ccontr)
    assume "pods c \<noteq> []"
    then obtain p where p: "p \<in> set (pods c)" by (cases "pods c") auto
    then have "?C (nm p) \<noteq> None" using c(1) by (auto simp: named_None_iff)
    then have "?D (nm p) \<noteq> None" using S [of "nm p"] by (auto split: option.splits)
    then obtain h where h: "h \<in> set ds" "nm p \<in> nm ` set (pods h)" by (auto simp: named_None_iff)
    have "GroupRef c = GroupRef h" by (rule apart [of c h "nm p"]) (use c(1) h p in auto)
    with c(2) h(1) show False by blast
  qed
qed

end

section \<open>The three kinds of pods\<close>

fun pod_of_action :: "action \<Rightarrow> any_pod option" where
  "pod_of_action (CreatePodAction p) = Some p"
| "pod_of_action (DeletePodAction p) = Some p"
| "pod_of_action a = map_option AnyXfrm (route_target a)"

fun charon_of :: "any_pod \<Rightarrow> charon_pod option" where
  "charon_of (AnyCharon p) = Some p"
| "charon_of _ = None"

fun restctl_of :: "any_pod \<Rightarrow> restctl_pod option" where
  "restctl_of (AnyRestctl p) = Some p"
| "restctl_of _ = None"

fun xfrm_of :: "any_pod \<Rightarrow> xfrm_pod option" where
  "xfrm_of (AnyXfrm p) = Some p"
| "xfrm_of _ = None"

lemma kind_iffs:
  "charon_of x = Some c \<longleftrightarrow> x = AnyCharon c" "restctl_of x = Some r \<longleftrightarrow> x = AnyRestctl r" "xfrm_of x = Some p \<longleftrightarrow> x = AnyXfrm p"
  by (cases x; auto)+

definition target_of :: "(any_pod \<Rightarrow> 's ipman_pod option) \<Rightarrow> action \<Rightarrow> string option" where
  "target_of sel a = Option.bind (pod_of_action a) (\<lambda>p. map_option (\<lambda>q. pm_Name (Meta q)) (sel p))"

text \<open>Charon and restctl pods are only created and deleted.\<close>

definition act_on_pods ::
  "(any_pod \<Rightarrow> 's ipman_pod option) \<Rightarrow> action \<Rightarrow> (string \<Rightarrow> 's ipman_pod option) \<Rightarrow> string \<Rightarrow> 's ipman_pod option"
where
  "act_on_pods sel a w = (case a of
      CreatePodAction p \<Rightarrow> (case sel p of None \<Rightarrow> w | Some q \<Rightarrow> w(pm_Name (Meta q) \<mapsto> q))
    | DeletePodAction p \<Rightarrow> (case sel p of None \<Rightarrow> w | Some q \<Rightarrow> w(pm_Name (Meta q) := None))
    | _ \<Rightarrow> w)"

definition upd_pod :: "(any_pod \<Rightarrow> 's ipman_pod option) \<Rightarrow> action \<Rightarrow> 's ipman_pod option \<Rightarrow> 's ipman_pod option" where
  "upd_pod sel a v = (case a of CreatePodAction p \<Rightarrow> sel p | DeletePodAction _ \<Rightarrow> None | _ \<Rightarrow> v)"

definition upd_xfrm :: "action \<Rightarrow> (xfrm_pod \<times> routes) option \<Rightarrow> (xfrm_pod \<times> routes) option" where
  "upd_xfrm a v = (case a of
      CreatePodAction p \<Rightarrow> map_option (\<lambda>q. (q, empty_routes)) (xfrm_of p)
    | DeletePodAction _ \<Rightarrow> None
    | _ \<Rightarrow> map_option (\<lambda>(q, inst). (with_routes (route_step a (xroutes q)) q, route_step a inst)) v)"

definition opt_list :: "'a option \<Rightarrow> 'a list" where
  "opt_list x = (case x of None \<Rightarrow> [] | Some a \<Rightarrow> [a])"

definition same_place :: "'s ipman_pod \<Rightarrow> 's ipman_pod \<Rightarrow> bool" where
  "same_place d p \<longleftrightarrow> pm_Name (Meta p) = pm_Name (Meta d) \<and> pm_Namespace (Meta p) = pm_Namespace (Meta d)
     \<and> pm_NodeName (Meta p) = pm_NodeName (Meta d)"

definition recorded_in :: "xfrm_pod \<Rightarrow> xfrm_pod \<times> routes \<Rightarrow> bool" where
  "recorded_in d v = recorded_as (fst v) d"

lemma deleteNode_deletes:
  "Charon g = Some p \<Longrightarrow> DeletePodAction (AnyCharon p) \<in> set (deleteNode g)"
  "Proxy g = Some q \<Longrightarrow> DeletePodAction (AnyRestctl q) \<in> set (deleteNode g)"
  "x \<in> set (Xfrms g) \<Longrightarrow> DeletePodAction (AnyXfrm x) \<in> set (deleteNode g)"
  by (simp_all add: deleteNode_def)

interpretation charons: pod_kind "act_on_pods charon_of" "target_of charon_of" "upd_pod charon_of"
    "\<lambda>g. opt_list (Charon g)" "\<lambda>p. pm_Name (Meta p)" "\<lambda>p. p" same_place
proof
  show "act_on_pods charon_of a w n = (if target_of charon_of a = Some n then upd_pod charon_of a (w n) else w n)" for a w n
    by (cases a) (auto simp: act_on_pods_def target_of_def upd_pod_def split: option.splits)
  show "n \<in> (\<lambda>p. pm_Name (Meta p)) ` set (opt_list (Charon g)) \<Longrightarrow> \<exists>a \<in> set (deleteNode g). target_of charon_of a = Some n" for g n
    using deleteNode_deletes [where g = g] by (cases "Charon g") (auto simp: opt_list_def target_of_def intro!: bexI)
qed (auto simp: deleteNode_def target_of_def opt_list_def upd_pod_def split: option.splits)

interpretation restctls: pod_kind "act_on_pods restctl_of" "target_of restctl_of" "upd_pod restctl_of"
    "\<lambda>g. opt_list (Proxy g)" "\<lambda>p. pm_Name (Meta p)" "\<lambda>p. p" same_place
proof
  show "act_on_pods restctl_of a w n = (if target_of restctl_of a = Some n then upd_pod restctl_of a (w n) else w n)" for a w n
    by (cases a) (auto simp: act_on_pods_def target_of_def upd_pod_def split: option.splits)
  show "n \<in> (\<lambda>p. pm_Name (Meta p)) ` set (opt_list (Proxy g)) \<Longrightarrow> \<exists>a \<in> set (deleteNode g). target_of restctl_of a = Some n" for g n
    using deleteNode_deletes [where g = g] by (cases "Proxy g") (auto simp: opt_list_def target_of_def intro!: bexI)
qed (auto simp: deleteNode_def target_of_def opt_list_def upd_pod_def split: option.splits)

interpretation xfrms: pod_kind act_on_xfrms "target_of xfrm_of" upd_xfrm Xfrms xname "\<lambda>p. (p, xroutes p)" recorded_in
proof
  have other: "xfrm_of p = None \<Longrightarrow> act_on_xfrms (CreatePodAction p) w = w"
    "xfrm_of p = None \<Longrightarrow> act_on_xfrms (DeletePodAction p) w = w" for p w
    by (cases p; simp add: act_on_xfrms_def)+
  show "act_on_xfrms a w n = (if target_of xfrm_of a = Some n then upd_xfrm a (w n) else w n)" for a w n
  proof (cases "route_target a")
    case None
    then show ?thesis
    proof (cases a)
      case (CreatePodAction p)
      then show ?thesis using other by (cases p) (auto simp: target_of_def upd_xfrm_def)
    next
      case (DeletePodAction p)
      then show ?thesis using other by (cases p) (auto simp: target_of_def upd_xfrm_def)
    qed (use None in \<open>simp_all add: act_on_xfrms_def target_of_def\<close>)
  next
    case (Some p)
    then have "target_of xfrm_of a = Some (xname p)"
      "upd_xfrm a v = map_option (\<lambda>(q, inst). (with_routes (route_step a (xroutes q)) q, route_step a inst)) v" for v
      by (cases a; simp add: target_of_def upd_xfrm_def)+
    then show ?thesis by (auto simp: act_on_xfrms_route [OF Some] split: option.splits)
  qed
  show "n \<in> xname ` set (Xfrms g) \<Longrightarrow> \<exists>a \<in> set (deleteNode g). target_of xfrm_of a = Some n" for g n
    using deleteNode_deletes(3) [where g = g] by (auto simp: target_of_def intro!: bexI)
qed (auto simp: deleteNode_def target_of_def upd_xfrm_def split: option.splits)

section \<open>The actions for one group\<close>

lemma opt_list_simps [simp]: "opt_list None = []" "opt_list (Some a) = [a]"
  by (simp_all add: opt_list_def)

lemma immutable_settles:
  assumes "\<And>p. sel (any p) = Some p"
  shows "settles (act_on_pods sel) (\<lambda>p. pm_Name (Meta p)) (\<lambda>p. p) same_place (diffImmutablePod any d c) (opt_list d) (opt_list c)"
  using assms
  by (cases d; cases c) (auto simp: settles_def named_def diffImmutablePod_def act_on_pods_def same_place_def comparePods_def)

definition act_on_monitor :: "action \<Rightarrow> bool \<Rightarrow> bool" where
  "act_on_monitor a w = (case a of CreateMonitorAction \<Rightarrow> True | DeleteMonitorAction \<Rightarrow> False | _ \<Rightarrow> w)"

definition monitor_free :: "action list \<Rightarrow> bool" where
  "monitor_free as \<longleftrightarrow> CreateMonitorAction \<notin> set as \<and> DeleteMonitorAction \<notin> set as"

lemma monitor_free_simps [simp]:
  "monitor_free []" "monitor_free (xs @ ys) \<longleftrightarrow> monitor_free xs \<and> monitor_free ys"
  by (auto simp: monitor_free_def)

lemma monitor_free_still: "monitor_free as \<Longrightarrow> carry_out act_on_monitor as w = w"
  by (induction as) (auto simp: monitor_free_def act_on_monitor_def split: action.split)

lemma monitor_free_pods: "(\<And>a. a \<in> set as \<Longrightarrow> pod_of_action a \<noteq> None) \<Longrightarrow> monitor_free as"
  by (force simp: monitor_free_def)

lemma proxy_pod_actions:
  assumes "fst (diffProxy fetch r d c conns) = Ok acts"
  shows "filter (\<lambda>a. target_of restctl_of a \<noteq> None) acts = diffImmutablePod AnyRestctl d c"
    "filter (\<lambda>a. pod_of_action a \<noteq> None) acts = diffImmutablePod AnyRestctl d c"
    "monitor_free acts"
  using assms
  by (auto simp: diffProxy_def diffImmutablePod_def comparePods_def target_of_def Let_def case_prod_unfold
      monitor_free_def split: option.splits if_splits configs_reply.splits)

lemma diff_xfrm_pods:
  assumes "diff_xfrm dslice dmap current x = Ok (acts, current')"
  shows "\<forall>a \<in> set acts. \<exists>p. pod_of_action a = Some (AnyXfrm p) \<and> xname p = xname x" "map xname current' = map xname current"
proof -
  have route: "route_target a = Some p \<Longrightarrow> pod_of_action a = Some (AnyXfrm p)" for a p by (cases a) auto
  have "(\<forall>a \<in> set acts. \<exists>p. pod_of_action a = Some (AnyXfrm p) \<and> xname p = xname x) \<and> map xname current' = map xname current"
  proof (cases "find_index (\<lambda>p. xname p = xname x) current")
    case None
    with assms show ?thesis by (auto simp: diff_xfrm_def createXfrmPod_def Let_def)
  next
    case (Some i)
    from find_index_find(2) [OF Some] have i: "i < length current" "xname (current ! i) = xname x" by auto
    with Some assms show ?thesis
      using diffRoutes_targets [of dslice dmap "current ! i" x]
      by (auto simp: diff_xfrm_def Let_def recreatePod_def map_update_same sorted_by_diffRoutes_keeps
          split: if_splits outcome.splits dest!: route)
  qed
  then show "\<forall>a \<in> set acts. \<exists>p. pod_of_action a = Some (AnyXfrm p) \<and> xname p = xname x" "map xname current' = map xname current"
    by auto
qed

lemma diff_desired_pods:
  "diff_desired dslice dmap xs current = Ok (acts, current') \<Longrightarrow>
     (\<forall>a \<in> set acts. \<exists>p. pod_of_action a = Some (AnyXfrm p) \<and> xname p \<in> xname ` set xs) \<and> map xname current' = map xname current"
proof (induction xs arbitrary: current acts current')
  case (Cons x xs)
  then obtain as c bs where s: "diff_xfrm dslice dmap current x = Ok (as, c)"
    "diff_desired dslice dmap xs c = Ok (bs, current')" "acts = as @ bs"
    by (auto simp: obind_Ok_iff)
  from diff_xfrm_pods [OF s(1)] Cons.IH [OF s(2)] s(3) show ?case by fastforce
qed simp

lemma diffXfrms_pods:
  assumes "diffXfrms dslice dmap ds cs = Ok acts" "a \<in> set acts"
  shows "\<exists>p. pod_of_action a = Some (AnyXfrm p) \<and> xname p \<in> xname ` set ds \<union> xname ` set cs"
proof -
  let ?same = "length ds = length cs"
  let ?ds = "if ?same then sortPods ds else ds" and ?cs = "if ?same then sortPods cs else cs"
  have names: "xname ` set ?ds = xname ` set ds" "set (map xname ?cs) = xname ` set cs" by (simp_all add: sortPods_def)
  have "acts \<noteq> []" using assms(2) by auto
  with assms(1) obtain as c where d: "diff_desired dslice dmap ?ds ?cs = Ok (as, c)"
    "acts = as @ map (\<lambda>x. DeletePodAction (AnyXfrm x)) (filter (\<lambda>x. \<not> binary_search_found xname ?ds (xname x)) c)"
    by (auto simp: diffXfrms_def Let_def obind_Ok_iff split: if_splits)
  from diff_desired_pods [OF d(1)] have p: "\<forall>a \<in> set as. \<exists>p. pod_of_action a = Some (AnyXfrm p) \<and> xname p \<in> xname ` set ds"
    "xname ` set c = xname ` set cs"
    using names by (metis, metis set_map)
  from assms(2) consider "a \<in> set as" | x where "x \<in> set c" "a = DeletePodAction (AnyXfrm x)" unfolding d(2) by auto
  then show ?thesis
  proof cases
    case (2 x)
    then have "xname x \<in> xname ` set cs" using p(2) by blast
    with 2 show ?thesis by simp
  qed (use p(1) in blast)
qed

lemma diffXfrms_settles:
  assumes "slice_diff_ok dslice" "map_diff_ok dmap" "xfrms_ok ds" "xfrms_ok cs"
  shows "\<exists>acts. diffXfrms dslice dmap ds cs = Ok acts \<and> settles act_on_xfrms xname (\<lambda>p. (p, xroutes p)) recorded_in acts ds cs"
proof -
  obtain acts where acts: "diffXfrms dslice dmap ds cs = Ok acts"
    "\<forall>n. n \<notin> xname ` set ds \<longrightarrow> run_xfrms acts (xfrm_world_of cs) n = None"
    "\<forall>x \<in> set ds. \<exists>p inst. run_xfrms acts (xfrm_world_of cs) (xname x) = Some (p, inst) \<and> recorded_as p x"
    using diffXfrms_run [OF assms] by blast
  have run: "carry_out act_on_xfrms acts (\<lambda>n. map_option (\<lambda>p. (p, xroutes p)) (named xname cs n)) = run_xfrms acts (xfrm_world_of cs)"
  proof -
    have "xfrm_world_of cs = (\<lambda>n. map_option (\<lambda>p. (p, xroutes p)) (named xname cs n))"
      by (simp add: xfrm_world_of_def named_def fun_eq_iff)
    then show ?thesis by (simp add: carry_out_def run_xfrms_def)
  qed
  have "case named xname ds n of None \<Rightarrow> run_xfrms acts (xfrm_world_of cs) n = None
      | Some d \<Rightarrow> \<exists>v. run_xfrms acts (xfrm_world_of cs) n = Some v \<and> recorded_in d v" for n
  proof (cases "named xname ds n")
    case None
    then have "n \<notin> xname ` set ds" by (simp add: named_None_iff)
    with acts(2) None show ?thesis by simp
  next
    case (Some d)
    then have "d \<in> set ds" "xname d = n" by (auto simp: named_def find_Some_iff)
    with acts(3) Some show ?thesis by (fastforce simp: recorded_in_def)
  qed
  then have "settles act_on_xfrms xname (\<lambda>p. (p, xroutes p)) recorded_in acts ds cs" unfolding settles_def Let_def run by blast
  with acts(1) show ?thesis by blast
qed

text \<open>Parts that are deeply equal get no actions and need none.\<close>

lemma equal_pods_settle:
  assumes "opt_pod_deep_eq d c"
  shows "diffImmutablePod any d c = []"
  using assms by (cases d; cases c) (auto simp: opt_pod_deep_eq_def ipman_pod_deep_eq_def diffImmutablePod_def comparePods_def)

lemma equal_xfrms_diff: "xfrms_deep_eq ds cs \<Longrightarrow> xfrms_ok ds \<Longrightarrow> xfrms_ok cs \<Longrightarrow> diffXfrms dslice dmap ds cs = Ok []"
proof -
  assume eq: "xfrms_deep_eq ds cs" and ok: "xfrms_ok ds" "xfrms_ok cs"
  have "ipman_pod_deep_eq xfrm_spec_deep_eq a b \<Longrightarrow> compareXfrmPods a b" for a b
    by (auto simp: ipman_pod_deep_eq_def xfrm_spec_deep_eq_def routes_deep_eq_def compareXfrmPods_def Let_def)
  with eq have "list_all2 compareXfrmPods ds cs"
    unfolding xfrms_deep_eq_def by (rule list_all2_mono)
  moreover from this have "length ds = length cs" by (rule list_all2_lengthD)
  moreover have "sortPods ds = ds" "sortPods cs = cs"
    using ok by (simp_all add: sortPods_def xfrms_ok_def sort_key_id_if_sorted)
  ultimately show ?thesis by (simp add: diffXfrms_def)
qed

definition answers :: "(string \<Rightarrow> configs_reply) \<Rightarrow> restctl_pod option \<Rightarrow> bool" where
  "answers fetch c = (case c of None \<Rightarrow> True | Some p \<Rightarrow> (\<exists>loaded. fetch (pm_IP (Meta p)) = LoadedConns loaded))"

lemma diffProxy_Ok: "answers fetch c \<Longrightarrow> \<exists>acts. fst (diffProxy fetch r d c conns) = Ok acts"
  by (cases d; cases c) (auto simp: answers_def diffProxy_def Let_def case_prod_unfold)

text \<open>The parts of the actions for a group.\<close>

lemma diff_group_parts:
  assumes "slice_diff_ok dslice" "map_diff_ok dmap" "xfrms_ok (Xfrms gs)" "xfrms_ok (Xfrms cgs)" "answers fetch (Proxy cgs)"
  obtains ps xs us where "fst (diff_group dslice dmap fetch conns r gs cgs) = Ok (diffCharon (Charon gs) (Charon cgs) @ ps @ xs @ us)"
    "filter (\<lambda>a. pod_of_action a \<noteq> None) ps = diffImmutablePod AnyRestctl (Proxy gs) (Proxy cgs)"
    "diffXfrms dslice dmap (Xfrms gs) (Xfrms cgs) = Ok xs"
    "settles act_on_xfrms xname (\<lambda>p. (p, xroutes p)) recorded_in xs (Xfrms gs) (Xfrms cgs)"
    "\<forall>a \<in> set us. pod_of_action a = None" "monitor_free ps" "monitor_free us"
proof -
  obtain xs where xs: "diffXfrms dslice dmap (Xfrms gs) (Xfrms cgs) = Ok xs"
    "settles act_on_xfrms xname (\<lambda>p. (p, xroutes p)) recorded_in xs (Xfrms gs) (Xfrms cgs)"
    using diffXfrms_settles [OF assms(1-4)] by blast
  have x0: "xfrms_deep_eq (Xfrms gs) (Xfrms cgs) \<Longrightarrow> xs = []"
    using equal_xfrms_diff [OF _ assms(3,4), of dslice dmap] xs(1) by simp
  have c0: "opt_pod_deep_eq (Charon gs) (Charon cgs) \<Longrightarrow> diffCharon (Charon gs) (Charon cgs) = []"
    by (simp add: diffCharon_def equal_pods_settle)
  show thesis
  proof (cases "group_deep_eq gs cgs")
    case True
    then have e: "opt_pod_deep_eq (Charon gs) (Charon cgs)" "opt_pod_deep_eq (Proxy gs) (Proxy cgs)" "xfrms_deep_eq (Xfrms gs) (Xfrms cgs)"
      by (simp_all add: group_deep_eq_def)
    show thesis
      by (rule that [of "[]" "[]" "[]"]) (use True xs c0 x0 e in \<open>simp_all add: diff_group_def equal_pods_settle\<close>)
  next
    case False
    obtain ps where ps: "fst (if opt_pod_deep_eq (Proxy gs) (Proxy cgs) then (Ok [], r)
        else diffProxy fetch r (Proxy gs) (Proxy cgs) conns) = Ok ps"
      "filter (\<lambda>a. pod_of_action a \<noteq> None) ps = diffImmutablePod AnyRestctl (Proxy gs) (Proxy cgs)"
      "monitor_free ps"
    proof (cases "opt_pod_deep_eq (Proxy gs) (Proxy cgs)")
      case True
      then show thesis using equal_pods_settle [OF True, of AnyRestctl] that [of "[]"] by simp
    next
      case False
      obtain ps where "fst (diffProxy fetch r (Proxy gs) (Proxy cgs) conns) = Ok ps" using diffProxy_Ok [OF assms(5)] by blast
      with False proxy_pod_actions(2,3) that show thesis by simp
    qed
    let ?is = "case Proxy cgs of None \<Rightarrow> [] | Some p \<Rightarrow> diffIPSecs (IPSecs gs) (IPSecs cgs) (pm_IP (Meta p))"
    have "(\<exists>n. a = UpdateChildConnectionStatus n) \<or> (\<exists>n ch ip. a = RestartChildConnectionAction n ch ip)" if "a \<in> set ?is" for a
      using that diffIPSecs_kinds [of a "IPSecs gs" "IPSecs cgs"] by (cases "Proxy cgs") auto
    then have i: "\<forall>a \<in> set ?is. pod_of_action a = None" "monitor_free ?is"
      by (fastforce, unfold monitor_free_def, blast)
    have "fst (diff_group dslice dmap fetch conns r gs cgs) = Ok (diffCharon (Charon gs) (Charon cgs) @ ps @ xs @ ?is)"
      using False ps(1) xs(1) x0 c0
      by (cases "opt_pod_deep_eq (Proxy gs) (Proxy cgs)") (auto simp: diff_group_def Let_def case_prod_unfold)
    from this ps(2) xs i(1) ps(3) i(2) show thesis by (rule that)
  qed
qed

lemma immutable_pods:
  "a \<in> set (diffImmutablePod any d c) \<Longrightarrow> \<exists>p. pod_of_action a = Some (any p) \<and> p \<in> set (opt_list d) \<union> set (opt_list c)"
  by (cases d; cases c) (auto simp: diffImmutablePod_def split: if_splits)

text \<open>Each part of the actions for a group targets pods of one kind.\<close>

definition group_block :: "group_state \<Rightarrow> group_state \<Rightarrow> action list \<Rightarrow> action list \<Rightarrow> action list \<Rightarrow> action list \<Rightarrow> bool" where
  "group_block gs cgs b ps xs us \<longleftrightarrow> b = diffCharon (Charon gs) (Charon cgs) @ ps @ xs @ us
     \<and> filter (\<lambda>a. pod_of_action a \<noteq> None) ps = diffImmutablePod AnyRestctl (Proxy gs) (Proxy cgs)
     \<and> settles act_on_xfrms xname (\<lambda>p. (p, xroutes p)) recorded_in xs (Xfrms gs) (Xfrms cgs)
     \<and> monitor_free ps \<and> monitor_free us
     \<and> (\<forall>a \<in> set xs. \<exists>p. pod_of_action a = Some (AnyXfrm p) \<and> xname p \<in> xname ` set (Xfrms gs) \<union> xname ` set (Xfrms cgs))
     \<and> (\<forall>a \<in> set us. pod_of_action a = None)"

lemma group_blockI:
  assumes "slice_diff_ok dslice" "map_diff_ok dmap" "xfrms_ok (Xfrms gs)" "xfrms_ok (Xfrms cgs)" "answers fetch (Proxy cgs)"
    and b: "fst (diff_group dslice dmap fetch conns r gs cgs) = Ok b"
  shows "\<exists>ps xs us. group_block gs cgs b ps xs us"
proof (rule diff_group_parts [OF assms(1-5), where conns = conns and r = r], goal_cases)
  case (1 ps xs us)
  have "group_block gs cgs b ps xs us"
    unfolding group_block_def using 1 b diffXfrms_pods [OF 1(3)] by (intro conjI ballI) simp_all
  then show ?case by blast
qed

lemma group_block_kinds:
  assumes "group_block gs cgs b ps xs us"
  shows "a \<in> set (diffCharon (Charon gs) (Charon cgs)) \<Longrightarrow>
      \<exists>p. pod_of_action a = Some (AnyCharon p) \<and> p \<in> set (opt_list (Charon gs)) \<union> set (opt_list (Charon cgs))"
    "a \<in> set ps \<Longrightarrow> pod_of_action a = None
      \<or> (\<exists>p. pod_of_action a = Some (AnyRestctl p) \<and> p \<in> set (opt_list (Proxy gs)) \<union> set (opt_list (Proxy cgs)))"
    "a \<in> set xs \<Longrightarrow> \<exists>p. pod_of_action a = Some (AnyXfrm p) \<and> xname p \<in> xname ` set (Xfrms gs) \<union> xname ` set (Xfrms cgs)"
    "a \<in> set us \<Longrightarrow> pod_of_action a = None"
proof -
  note g = assms [unfolded group_block_def]
  show "a \<in> set (diffCharon (Charon gs) (Charon cgs)) \<Longrightarrow>
      \<exists>p. pod_of_action a = Some (AnyCharon p) \<and> p \<in> set (opt_list (Charon gs)) \<union> set (opt_list (Charon cgs))"
    unfolding diffCharon_def by (rule immutable_pods)
  show "pod_of_action a = None
      \<or> (\<exists>p. pod_of_action a = Some (AnyRestctl p) \<and> p \<in> set (opt_list (Proxy gs)) \<union> set (opt_list (Proxy cgs)))" if "a \<in> set ps"
  proof (cases "pod_of_action a")
    case (Some x)
    with that have "a \<in> set (filter (\<lambda>a. pod_of_action a \<noteq> None) ps)" by simp
    then have "a \<in> set (diffImmutablePod AnyRestctl (Proxy gs) (Proxy cgs))" using g by (simp only:)
    from immutable_pods [OF this] show ?thesis ..
  qed simp
  show "a \<in> set xs \<Longrightarrow> \<exists>p. pod_of_action a = Some (AnyXfrm p) \<and> xname p \<in> xname ` set (Xfrms gs) \<union> xname ` set (Xfrms cgs)"
    "a \<in> set us \<Longrightarrow> pod_of_action a = None" using g by blast+
qed

lemma group_pods:
  assumes "slice_diff_ok dslice" "map_diff_ok dmap" "xfrms_ok (Xfrms gs)" "xfrms_ok (Xfrms cgs)" "answers fetch (Proxy cgs)"
    and "fst (diff_group dslice dmap fetch conns r gs cgs) = Ok b" and a: "a \<in> set b"
  shows "target_of charon_of a = Some n \<Longrightarrow> n \<in> (\<lambda>p. pm_Name (Meta p)) ` set (opt_list (Charon gs)) \<union> (\<lambda>p. pm_Name (Meta p)) ` set (opt_list (Charon cgs))"
    "target_of restctl_of a = Some n \<Longrightarrow> n \<in> (\<lambda>p. pm_Name (Meta p)) ` set (opt_list (Proxy gs)) \<union> (\<lambda>p. pm_Name (Meta p)) ` set (opt_list (Proxy cgs))"
    "target_of xfrm_of a = Some n \<Longrightarrow> n \<in> xname ` set (Xfrms gs) \<union> xname ` set (Xfrms cgs)"
proof -
  obtain ps xs us where p: "group_block gs cgs b ps xs us" using group_blockI [OF assms(1-6)] by blast
  then have "b = diffCharon (Charon gs) (Charon cgs) @ ps @ xs @ us" by (simp add: group_block_def)
  then have "pod_of_action a = None
    \<or> (\<exists>p. pod_of_action a = Some (AnyCharon p) \<and> p \<in> set (opt_list (Charon gs)) \<union> set (opt_list (Charon cgs)))
    \<or> (\<exists>p. pod_of_action a = Some (AnyRestctl p) \<and> p \<in> set (opt_list (Proxy gs)) \<union> set (opt_list (Proxy cgs)))
    \<or> (\<exists>p. pod_of_action a = Some (AnyXfrm p) \<and> xname p \<in> xname ` set (Xfrms gs) \<union> xname ` set (Xfrms cgs))"
    using a group_block_kinds [OF p] by (simp only: set_append Un_iff) blast
  then show "target_of charon_of a = Some n \<Longrightarrow> n \<in> (\<lambda>p. pm_Name (Meta p)) ` set (opt_list (Charon gs)) \<union> (\<lambda>p. pm_Name (Meta p)) ` set (opt_list (Charon cgs))"
    "target_of restctl_of a = Some n \<Longrightarrow> n \<in> (\<lambda>p. pm_Name (Meta p)) ` set (opt_list (Proxy gs)) \<union> (\<lambda>p. pm_Name (Meta p)) ` set (opt_list (Proxy cgs))"
    "target_of xfrm_of a = Some n \<Longrightarrow> n \<in> xname ` set (Xfrms gs) \<union> xname ` set (Xfrms cgs)"
    by (auto simp: target_of_def)
qed

lemma targeted:
  assumes p: "group_block gs cgs b ps xs us"
  shows "filter (\<lambda>a. target_of charon_of a \<noteq> None) b = filter (\<lambda>a. target_of charon_of a \<noteq> None) (diffCharon (Charon gs) (Charon cgs))"
    "filter (\<lambda>a. target_of restctl_of a \<noteq> None) b = filter (\<lambda>a. target_of restctl_of a \<noteq> None) ps"
    "filter (\<lambda>a. target_of xfrm_of a \<noteq> None) b = filter (\<lambda>a. target_of xfrm_of a \<noteq> None) xs"
proof -
  note k = group_block_kinds [OF p]
  have b: "b = diffCharon (Charon gs) (Charon cgs) @ ps @ xs @ us" using p by (simp add: group_block_def)
  have c: "target_of restctl_of a = None" "target_of xfrm_of a = None" if "a \<in> set (diffCharon (Charon gs) (Charon cgs))" for a
    using k(1) [OF that] by (auto simp: target_of_def)
  have q: "target_of charon_of a = None" "target_of xfrm_of a = None" if "a \<in> set ps" for a
    using k(2) [OF that] by (auto simp: target_of_def)
  have x: "target_of charon_of a = None" "target_of restctl_of a = None" if "a \<in> set xs" for a
    using k(3) [OF that] by (auto simp: target_of_def)
  have u: "target_of sel a = None" if "a \<in> set us" for a and sel :: "any_pod \<Rightarrow> 'z ipman_pod option"
    using k(4) [OF that] by (simp add: target_of_def)
  show "filter (\<lambda>a. target_of charon_of a \<noteq> None) b = filter (\<lambda>a. target_of charon_of a \<noteq> None) (diffCharon (Charon gs) (Charon cgs))"
    unfolding b using q(1) x(1) u by (auto simp: filter_empty_conv)
  show "filter (\<lambda>a. target_of restctl_of a \<noteq> None) b = filter (\<lambda>a. target_of restctl_of a \<noteq> None) ps"
    unfolding b using c(1) x(2) u by (auto simp: filter_empty_conv)
  show "filter (\<lambda>a. target_of xfrm_of a \<noteq> None) b = filter (\<lambda>a. target_of xfrm_of a \<noteq> None) xs"
    unfolding b using c(2) q(2) u by (auto simp: filter_empty_conv)
qed

lemma group_settles:
  assumes "slice_diff_ok dslice" "map_diff_ok dmap" "xfrms_ok (Xfrms gs)" "xfrms_ok (Xfrms cgs)" "answers fetch (Proxy cgs)"
    and "fst (diff_group dslice dmap fetch conns r gs cgs) = Ok b"
  shows "settles (act_on_pods charon_of) (\<lambda>p. pm_Name (Meta p)) (\<lambda>p. p) same_place b (opt_list (Charon gs)) (opt_list (Charon cgs))"
    "settles (act_on_pods restctl_of) (\<lambda>p. pm_Name (Meta p)) (\<lambda>p. p) same_place b (opt_list (Proxy gs)) (opt_list (Proxy cgs))"
    "settles act_on_xfrms xname (\<lambda>p. (p, xroutes p)) recorded_in b (Xfrms gs) (Xfrms cgs)"
    "monitor_free b"
proof -
  obtain ps xs us where p: "group_block gs cgs b ps xs us" using group_blockI [OF assms(1-6)] by blast
  note g = p [unfolded group_block_def]
  from charons.settles_targeting [OF _ targeted(1) [OF p]]
  show "settles (act_on_pods charon_of) (\<lambda>p. pm_Name (Meta p)) (\<lambda>p. p) same_place b (opt_list (Charon gs)) (opt_list (Charon cgs))"
    by (simp add: diffCharon_def immutable_settles)
  have "filter (\<lambda>a. target_of restctl_of a \<noteq> None) ps = filter (\<lambda>a. target_of restctl_of a \<noteq> None) (filter (\<lambda>a. pod_of_action a \<noteq> None) ps)"
    unfolding filter_filter by (rule filter_cong) (auto simp: target_of_def bind_eq_Some_conv)
  also have "filter (\<lambda>a. pod_of_action a \<noteq> None) ps = diffImmutablePod AnyRestctl (Proxy gs) (Proxy cgs)" using g by blast
  finally have "filter (\<lambda>a. target_of restctl_of a \<noteq> None) b
      = filter (\<lambda>a. target_of restctl_of a \<noteq> None) (diffImmutablePod AnyRestctl (Proxy gs) (Proxy cgs))"
    by (simp only: targeted(2) [OF p])
  from restctls.settles_targeting [OF _ this]
  show "settles (act_on_pods restctl_of) (\<lambda>p. pm_Name (Meta p)) (\<lambda>p. p) same_place b (opt_list (Proxy gs)) (opt_list (Proxy cgs))"
    by (simp add: immutable_settles)
  from xfrms.settles_targeting [OF _ targeted(3) [OF p]]
  show "settles act_on_xfrms xname (\<lambda>p. (p, xroutes p)) recorded_in b (Xfrms gs) (Xfrms cgs)" using g by blast
  have "monitor_free (diffCharon (Charon gs) (Charon cgs))" "monitor_free xs"
    using group_block_kinds(1,3) [OF p] by (intro monitor_free_pods; force)+
  with g show "monitor_free b" by simp
qed

end
