(* ===== verification/Converge_Props.thy ===== *)
theory Converge_Props
  imports Converge
begin

text \<open>
  The actions for all groups together: \<open>DiffStates\<close> leads to the desired pods of every kind and to the desired pod monitor,
  and where they are reached it asks for no further change of them.
\<close>

section \<open>The whole cluster\<close>

definition current_group :: "cluster_state \<Rightarrow> group_state \<Rightarrow> group_state" where
  "current_group current g = Groups current ! the (findGroup (GroupRef g) current)"

lemma findGroup_eq: "findGroup ref s = find_index (\<lambda>g. GroupRef g = ref) (Groups s)"
proof -
  have "gr_name a = gr_name b \<and> gr_namespace a = gr_namespace b \<longleftrightarrow> a = b" for a b :: charon_group_ref
    by (cases a; cases b) simp
  then show ?thesis by (simp add: findGroup_def)
qed

lemma current_group_in:
  assumes "findGroup (GroupRef g) current \<noteq> None"
  shows "current_group current g \<in> set (Groups current)" "GroupRef (current_group current g) = GroupRef g"
proof -
  obtain i where i: "findGroup (GroupRef g) current = Some i" using assms by blast
  with find_index_find(2) [of _ "Groups current" i]
  show "current_group current g \<in> set (Groups current)" "GroupRef (current_group current g) = GroupRef g"
    by (auto simp: current_group_def findGroup_eq)
qed

lemma findGroup_None_iff: "findGroup ref s = None \<longleftrightarrow> ref \<notin> GroupRef ` set (Groups s)"
proof -
  have "find_index P xs = None \<longleftrightarrow> (\<forall>x \<in> set xs. \<not> P x)" for P and xs :: "group_state list"
    by (induction xs) (auto split: option.splits)
  then show ?thesis by (auto simp: findGroup_eq)
qed

lemma diff_groups_blocks:
  assumes "\<And>g r. g \<in> set gs \<Longrightarrow> findGroup (GroupRef g) current \<noteq> None
      \<and> (\<exists>acts. fst (diff_group dslice dmap fetch conns r g (current_group current g)) = Ok acts)"
    and "distinct gs"
  shows "\<exists>B. fst (diff_groups dslice dmap fetch conns current r gs) = Ok (concat (map B gs))
    \<and> (\<forall>g \<in> set gs. \<exists>r. fst (diff_group dslice dmap fetch conns r g (current_group current g)) = Ok (B g))"
  using assms
proof (induction gs arbitrary: r)
  case (Cons g gs)
  obtain i where i: "findGroup (GroupRef g) current = Some i" "current_group current g = Groups current ! i"
    using Cons.prems(1) [of g r] by (auto simp: current_group_def)
  obtain b r' where b: "diff_group dslice dmap fetch conns r g (current_group current g) = (Ok b, r')"
    using Cons.prems(1) [of g r] by (metis list.set_intros(1) prod.collapse)
  obtain B where B: "fst (diff_groups dslice dmap fetch conns current r' gs) = Ok (concat (map B gs))"
    "\<forall>g \<in> set gs. \<exists>r. fst (diff_group dslice dmap fetch conns r g (current_group current g)) = Ok (B g)"
    using Cons.IH [of r'] Cons.prems by auto
  have "fst (diff_groups dslice dmap fetch conns current r (g # gs)) = Ok (concat (map (B(g := b)) (g # gs)))"
  proof -
    have "map (B(g := b)) gs = map B gs" using Cons.prems(2) by (intro map_cong) auto
    then show ?thesis using i b B(1) by (simp add: case_prod_unfold del: map_eq_conv)
  qed
  moreover have "\<exists>r. fst (diff_group dslice dmap fetch conns r h (current_group current h)) = Ok ((B(g := b)) h)"
    if "h \<in> set (g # gs)" for h
  proof (cases "h = g")
    case True
    with b show ?thesis by (metis fst_conv fun_upd_same)
  qed (use that B(2) in auto)
  ultimately show ?case by blast
qed simp

definition pods_of :: "(group_state \<Rightarrow> 's ipman_pod option) \<Rightarrow> cluster_state \<Rightarrow> 's ipman_pod list" where
  "pods_of sel s = concat (map (\<lambda>g. opt_list (sel g)) (Groups s))"

definition xfrms_of :: "cluster_state \<Rightarrow> xfrm_pod list" where
  "xfrms_of s = concat (map Xfrms (Groups s))"

definition disjoint_names :: "(group_state \<Rightarrow> 's ipman_pod list) \<Rightarrow> group_state list \<Rightarrow> bool" where
  "disjoint_names pods gs \<longleftrightarrow> (\<forall>g \<in> set gs. \<forall>h \<in> set gs. \<forall>p \<in> set (pods g). \<forall>q \<in> set (pods h).
     pm_Name (Meta p) = pm_Name (Meta q) \<longrightarrow> GroupRef g = GroupRef h)"

lemma disjoint_namesD:
  "disjoint_names pods gs \<Longrightarrow> g \<in> set gs \<Longrightarrow> h \<in> set gs \<Longrightarrow> n \<in> (\<lambda>p. pm_Name (Meta p)) ` set (pods g) \<Longrightarrow>
     n \<in> (\<lambda>p. pm_Name (Meta p)) ` set (pods h) \<Longrightarrow> GroupRef g = GroupRef h"
  unfolding disjoint_names_def by (elim imageE) blast

text \<open>Groups are listed once, and pods of different groups have different names.\<close>

definition groups_apart :: "cluster_state \<Rightarrow> cluster_state \<Rightarrow> bool" where
  "groups_apart a b \<longleftrightarrow> distinct (map GroupRef (Groups a)) \<and> distinct (map GroupRef (Groups b))
     \<and> disjoint_names (\<lambda>g. opt_list (Charon g)) (Groups a @ Groups b)
     \<and> disjoint_names (\<lambda>g. opt_list (Proxy g)) (Groups a @ Groups b) \<and> disjoint_names Xfrms (Groups a @ Groups b)"

lemma groups_apartD:
  assumes "groups_apart a b" and g: "g \<in> set (Groups a) \<union> set (Groups b)" and h: "h \<in> set (Groups a) \<union> set (Groups b)"
  shows "n \<in> (\<lambda>p. pm_Name (Meta p)) ` set (opt_list (Charon g)) \<Longrightarrow> n \<in> (\<lambda>p. pm_Name (Meta p)) ` set (opt_list (Charon h)) \<Longrightarrow> GroupRef g = GroupRef h"
    "n \<in> (\<lambda>p. pm_Name (Meta p)) ` set (opt_list (Proxy g)) \<Longrightarrow> n \<in> (\<lambda>p. pm_Name (Meta p)) ` set (opt_list (Proxy h)) \<Longrightarrow> GroupRef g = GroupRef h"
    "n \<in> (\<lambda>p. pm_Name (Meta p)) ` set (Xfrms g) \<Longrightarrow> n \<in> (\<lambda>p. pm_Name (Meta p)) ` set (Xfrms h) \<Longrightarrow> GroupRef g = GroupRef h"
proof -
  have in_both: "g \<in> set (Groups a @ Groups b)" "h \<in> set (Groups a @ Groups b)" using g h by auto
  note apart = assms(1) [unfolded groups_apart_def]
  note d = disjoint_namesD [OF _ in_both, of _ n]
  show "n \<in> (\<lambda>p. pm_Name (Meta p)) ` set (opt_list (Charon g)) \<Longrightarrow> n \<in> (\<lambda>p. pm_Name (Meta p)) ` set (opt_list (Charon h)) \<Longrightarrow> GroupRef g = GroupRef h"
    using apart by (intro d [of "\<lambda>g. opt_list (Charon g)"]) simp_all
  show "n \<in> (\<lambda>p. pm_Name (Meta p)) ` set (opt_list (Proxy g)) \<Longrightarrow> n \<in> (\<lambda>p. pm_Name (Meta p)) ` set (opt_list (Proxy h)) \<Longrightarrow> GroupRef g = GroupRef h"
    using apart by (intro d [of "\<lambda>g. opt_list (Proxy g)"]) simp_all
  show "n \<in> (\<lambda>p. pm_Name (Meta p)) ` set (Xfrms g) \<Longrightarrow> n \<in> (\<lambda>p. pm_Name (Meta p)) ` set (Xfrms h) \<Longrightarrow> GroupRef g = GroupRef h"
    using apart by (intro d [of Xfrms]) simp_all
qed

text \<open>Every desired group exists, and the restctl pods answer.\<close>

definition comparable :: "(string \<Rightarrow> configs_reply) \<Rightarrow> cluster_state \<Rightarrow> cluster_state \<Rightarrow> bool" where
  "comparable fetch desired current \<longleftrightarrow> groups_apart desired current
     \<and> (\<forall>g \<in> set (Groups desired). findGroup (GroupRef g) current \<noteq> None)
     \<and> (\<forall>g \<in> set (Groups desired) \<union> set (Groups current). xfrms_ok (Xfrms g))
     \<and> (\<forall>c \<in> set (Groups current). answers fetch (Proxy c))"

lemma comparableD:
  assumes "comparable fetch desired current"
  shows "g \<in> set (Groups desired) \<Longrightarrow> current_group current g \<in> set (Groups current) \<and> GroupRef (current_group current g) = GroupRef g"
    "distinct (map GroupRef (Groups desired))" "distinct (map GroupRef (Groups current))"
    "g \<in> set (Groups desired) \<Longrightarrow> xfrms_ok (Xfrms g)" "g \<in> set (Groups desired) \<Longrightarrow> xfrms_ok (Xfrms (current_group current g))"
    "g \<in> set (Groups desired) \<Longrightarrow> answers fetch (Proxy (current_group current g))"
  using assms current_group_in [of g current] by (auto simp: comparable_def groups_apart_def)

lemma comparable_apart: "comparable fetch desired current \<Longrightarrow> groups_apart desired current"
  by (simp add: comparable_def)

definition monitor_actions :: "cluster_state \<Rightarrow> cluster_state \<Rightarrow> action list" where
  "monitor_actions desired current =
     (if PodMonitor desired = True \<and> PodMonitor current = False then [CreateMonitorAction] else [])
     @ (if PodMonitor desired = False \<and> PodMonitor current = True then [DeleteMonitorAction] else [])"

definition gone_groups :: "cluster_state \<Rightarrow> cluster_state \<Rightarrow> group_state list" where
  "gone_groups desired current = filter (\<lambda>c. GroupRef c \<notin> GroupRef ` set (Groups desired)) (Groups current)"

lemma DiffStates_blocks:
  assumes c: "comparable fetch desired current" and ok: "slice_diff_ok dslice" "map_diff_ok dmap"
  obtains B where "fst (DiffStates dslice dmap fetch r desired current conns)
      = Ok (monitor_actions desired current @ concat (map B (Groups desired)) @ concat (map deleteNode (gone_groups desired current)))"
    "\<And>g. g \<in> set (Groups desired) \<Longrightarrow> \<exists>r. fst (diff_group dslice dmap fetch conns r g (current_group current g)) = Ok (B g)"
proof -
  let ?ds = "Groups desired"
  have "\<exists>acts. fst (diff_group dslice dmap fetch conns r g (current_group current g)) = Ok acts" if "g \<in> set ?ds" for g r
    by (rule diff_group_parts [OF ok comparableD(4,5,6) [OF c that], where conns = conns and r = r]) blast
  moreover have "distinct ?ds" using comparableD(2) [OF c] by (simp add: distinct_map)
  moreover have "\<forall>g \<in> set ?ds. findGroup (GroupRef g) current \<noteq> None" using c by (simp add: comparable_def)
  ultimately obtain B where "fst (diff_groups dslice dmap fetch conns current r ?ds) = Ok (concat (map B ?ds))"
    "\<forall>g \<in> set ?ds. \<exists>r. fst (diff_group dslice dmap fetch conns r g (current_group current g)) = Ok (B g)"
    using diff_groups_blocks [of ?ds current dslice dmap fetch conns r] by blast
  then show thesis
    by (intro that) (auto simp: DiffStates_def Let_def case_prod_unfold findGroup_None_iff monitor_actions_def gone_groups_def)
qed

text \<open>The actions turn the pods of the current state into those of the desired one.\<close>

definition charons_reached :: "action list \<Rightarrow> cluster_state \<Rightarrow> cluster_state \<Rightarrow> bool" where
  "charons_reached acts desired current = settles (act_on_pods charon_of) (\<lambda>p. pm_Name (Meta p)) (\<lambda>p. p) same_place acts
     (pods_of Charon desired) (pods_of Charon current)"

definition restctls_reached :: "action list \<Rightarrow> cluster_state \<Rightarrow> cluster_state \<Rightarrow> bool" where
  "restctls_reached acts desired current = settles (act_on_pods restctl_of) (\<lambda>p. pm_Name (Meta p)) (\<lambda>p. p) same_place acts
     (pods_of Proxy desired) (pods_of Proxy current)"

definition xfrms_reached :: "action list \<Rightarrow> cluster_state \<Rightarrow> cluster_state \<Rightarrow> bool" where
  "xfrms_reached acts desired current = settles act_on_xfrms (\<lambda>p. pm_Name (Meta p)) (\<lambda>p. (p, Routes (PSpec p))) recorded_in acts
     (xfrms_of desired) (xfrms_of current)"

definition monitor_reached :: "action list \<Rightarrow> cluster_state \<Rightarrow> cluster_state \<Rightarrow> bool" where
  "monitor_reached acts desired current \<longleftrightarrow> carry_out act_on_monitor acts (PodMonitor current) = PodMonitor desired"

text \<open>
  A kind of pods whose actions come from the comparison of groups: what holds for one group holds for the
  cluster. The three interpretations are the three kinds.
\<close>

locale cluster_kind = pod_kind step target upd pods nm val ok
  for step :: "action \<Rightarrow> (string \<Rightarrow> 'v option) \<Rightarrow> string \<Rightarrow> 'v option" and target upd
    and pods :: "group_state \<Rightarrow> 'p list" and nm :: "'p \<Rightarrow> string" and val :: "'p \<Rightarrow> 'v" and ok :: "'p \<Rightarrow> 'v \<Rightarrow> bool" +
  assumes group_reached: "slice_diff_ok dslice \<Longrightarrow> map_diff_ok dmap \<Longrightarrow> xfrms_ok (Xfrms gs) \<Longrightarrow> xfrms_ok (Xfrms cgs) \<Longrightarrow>
      answers fetch (Proxy cgs) \<Longrightarrow> fst (diff_group dslice dmap fetch conns r gs cgs) = Ok b \<Longrightarrow> settles step nm val ok b (pods gs) (pods cgs)"
    and group_targets: "slice_diff_ok dslice \<Longrightarrow> map_diff_ok dmap \<Longrightarrow> xfrms_ok (Xfrms gs) \<Longrightarrow> xfrms_ok (Xfrms cgs) \<Longrightarrow>
      answers fetch (Proxy cgs) \<Longrightarrow> fst (diff_group dslice dmap fetch conns r gs cgs) = Ok b \<Longrightarrow> a \<in> set b \<Longrightarrow> target a = Some n \<Longrightarrow>
      n \<in> nm ` set (pods gs) \<union> nm ` set (pods cgs)"
    and monitor_untargeted: "a \<in> set (monitor_actions desired current) \<Longrightarrow> target a = None"
    and kind_apart: "groups_apart desired current \<Longrightarrow> g \<in> set (Groups desired) \<union> set (Groups current) \<Longrightarrow>
      h \<in> set (Groups desired) \<union> set (Groups current) \<Longrightarrow> n \<in> nm ` set (pods g) \<Longrightarrow> n \<in> nm ` set (pods h) \<Longrightarrow> GroupRef g = GroupRef h"
begin

lemma cluster_reached:
  assumes c: "comparable fetch desired current" and ok: "slice_diff_ok dslice" "map_diff_ok dmap"
    and B: "\<And>g. g \<in> set (Groups desired) \<Longrightarrow> \<exists>r. fst (diff_group dslice dmap fetch conns r g (current_group current g)) = Ok (B g)"
  shows "settles step nm val ok (monitor_actions desired current @ concat (map B (Groups desired))
    @ concat (map deleteNode (gone_groups desired current))) (concat (map pods (Groups desired))) (concat (map pods (Groups current)))"
  unfolding gone_groups_def
proof (rule settles_groups [OF comparableD(2,3) [OF c] comparableD(1) [OF c]])
  note apart = kind_apart [OF comparable_apart [OF c]]
  show "GroupRef g = GroupRef h" if "g \<in> set (Groups desired) \<union> set (Groups current)" "h \<in> set (Groups desired) \<union> set (Groups current)"
      "n \<in> nm ` set (pods g)" "n \<in> nm ` set (pods h)" for g h n using apart that .
  show "n \<in> nm ` set (pods h) \<union> nm ` set (pods (current_group current h))"
    if h: "h \<in> set (Groups desired)" and a: "a \<in> set (B h)" "target a = Some n" for h a n
    using B [OF h] group_targets [OF ok comparableD(4,5,6) [OF c h] _ a] by blast
  show "settles step nm val ok (B g) (pods g) (pods (current_group current g))" if g: "g \<in> set (Groups desired)" for g
    using B [OF g] group_reached [OF ok comparableD(4,5,6) [OF c g]] by blast
qed (erule monitor_untargeted | assumption)+

lemma cluster_settled:
  assumes c: "comparable fetch desired current"
    and r: "settles step nm val ok [] (concat (map pods (Groups desired))) (concat (map pods (Groups current)))"
  shows "g \<in> set (Groups desired) \<Longrightarrow> settles step nm val ok [] (pods g) (pods (current_group current g))"
    "h \<in> set (gone_groups desired current) \<Longrightarrow> pods h = []"
proof -
  note s = settled_group [OF comparableD(2,3) [OF c] comparableD(1) [OF c] kind_apart [OF comparable_apart [OF c]] r]
  show "g \<in> set (Groups desired) \<Longrightarrow> settles step nm val ok [] (pods g) (pods (current_group current g))" by (rule s(1))
  show "h \<in> set (gone_groups desired current) \<Longrightarrow> pods h = []" unfolding gone_groups_def by (rule s(2)) auto
qed

end

lemma monitor_actions_elsewhere: "a \<in> set (monitor_actions desired current) \<Longrightarrow> target_of sel a = None"
  by (auto simp: monitor_actions_def target_of_def split: if_splits)

interpretation charons: cluster_kind "act_on_pods charon_of" "target_of charon_of" "upd_pod charon_of"
    "\<lambda>g. opt_list (Charon g)" "\<lambda>p. pm_Name (Meta p)" "\<lambda>p. p" same_place
  proof unfold_locales
  show "target_of charon_of a = None" if "a \<in> set (monitor_actions desired current)" for a desired current
    using that by (rule monitor_actions_elsewhere)
qed ((rule group_settles(1) group_pods(1) groups_apartD(1); assumption)+)

interpretation restctls: cluster_kind "act_on_pods restctl_of" "target_of restctl_of" "upd_pod restctl_of"
    "\<lambda>g. opt_list (Proxy g)" "\<lambda>p. pm_Name (Meta p)" "\<lambda>p. p" same_place
  proof unfold_locales
  show "target_of restctl_of a = None" if "a \<in> set (monitor_actions desired current)" for a desired current
    using that by (rule monitor_actions_elsewhere)
qed ((rule group_settles(2) group_pods(2) groups_apartD(2); assumption)+)

interpretation xfrms: cluster_kind act_on_xfrms "target_of xfrm_of" upd_xfrm Xfrms xname "\<lambda>p. (p, xroutes p)" recorded_in
  proof unfold_locales
  show "target_of xfrm_of a = None" if "a \<in> set (monitor_actions desired current)" for a desired current
    using that by (rule monitor_actions_elsewhere)
qed ((rule group_settles(3) group_pods(3) groups_apartD(3); assumption)+)

lemma monitor_reached_all:
  assumes "\<And>g. g \<in> set (Groups desired) \<Longrightarrow> monitor_free (B g)"
  shows "monitor_reached (monitor_actions desired current @ concat (map B (Groups desired))
    @ concat (map deleteNode (gone_groups desired current))) desired current"
proof -
  have "monitor_free (concat (map B (Groups desired)))" using assms by (simp add: monitor_free_def)
  moreover have "monitor_free (concat (map deleteNode gs))" for gs
    by (auto simp: deleteNode_def monitor_free_def split: option.splits)
  ultimately show ?thesis by (simp add: monitor_reached_def monitor_actions_def monitor_free_still act_on_monitor_def)
qed


section \<open>Nothing left to do\<close>

lemma diffRoutes_silent:
  assumes "slice_diff_ok dslice" "map_diff_ok dmap" "routes_distinct cur" "routes_distinct x"
    and "routes_equiv (xroutes cur) (xroutes x)"
  shows "diffRoutes dslice dmap cur x = Ok []"
proof -
  have slice: "dslice a b = []" if "set (elems a) = set (elems b)" "distinct (elems a)" "distinct (elems b)" for a b
  proof -
    from assms(1) that have "\<forall>c \<in> set (dslice a b). string_change c" "set (removed (dslice a b)) = {}" "set (added (dslice a b)) = {}"
      by (simp_all add: slice_diff_ok_def)
    moreover have "removed (c # cs) \<noteq> [] \<or> added (c # cs) \<noteq> []" if "string_change c" for c cs
      using that by (auto simp: string_change_def create_change_def delete_change_def update_change_def removed_Cons added_Cons)
    ultimately show ?thesis by (cases "dslice a b") auto
  qed
  have fdb: "dmap (BridgeFDB (xroutes cur)) (BridgeFDB (xroutes x)) = []"
  proof (rule ccontr)
    let ?a = "BridgeFDB (xroutes cur)" and ?b = "BridgeFDB (xroutes x)"
    assume "dmap ?a ?b \<noteq> []"
    then obtain c where c: "c \<in> set (dmap ?a ?b)" by (cases "dmap ?a ?b") auto
    have "filter (\<lambda>d. hd (ch_path d) = hd (ch_path c)) (dmap ?a ?b) = key_change (gmap_of ?a) (gmap_of ?b) (hd (ch_path c))"
      using assms(2-4) by (simp add: map_diff_ok_def routes_distinct_def)
    also have "\<dots> = []" using assms(5) by (simp add: key_change_def routes_equiv_def split: option.split)
    finally show False using c by (auto simp: filter_empty_conv)
  qed
  have "set (elems (Local (xroutes cur))) = set (elems (Local (xroutes x)))" "set (elems (Remote (xroutes cur))) = set (elems (Remote (xroutes x)))"
    using assms(5) by (auto simp: routes_equiv_def dest: mset_eq_setD)
  with slice fdb assms(3,4) show ?thesis by (simp add: diffRoutes_def Let_def routes_distinct_def)
qed

lemma diff_xfrm_silent:
  assumes ok: "slice_diff_ok dslice" "map_diff_ok dmap"
    and dist: "routes_distinct x" "\<forall>p \<in> set current. routes_distinct p"
    and p: "named xname current (xname x) = Some p" "recorded_as p x"
  obtains current' where "diff_xfrm dslice dmap current x = Ok ([], current')"
    "map xname current' = map xname current" "\<forall>p \<in> set current'. routes_distinct p"
    "\<And>n. n \<noteq> xname x \<Longrightarrow> named xname current' n = named xname current n"
proof -
  obtain acts current' where step: "diff_xfrm dslice dmap current x = Ok (acts, current')"
    "map xname current' = map xname current" "\<forall>p \<in> set current'. routes_distinct p"
    "\<And>n. n \<noteq> xname x \<Longrightarrow> find (\<lambda>p. xname p = n) current' = find (\<lambda>p. xname p = n) current"
    using diff_xfrm_step [OF ok dist, of "xfrm_world_of current"] by metis
  obtain i where i: "find_index (\<lambda>p. xname p = xname x) current = Some i" "current ! i = p" "p \<in> set current"
  proof (cases "find_index (\<lambda>p. xname p = xname x) current")
    case None
    from find_index_find(1) [OF this] p(1) show thesis by (simp add: named_def)
  next
    case (Some i)
    from find_index_find(2) [OF this] p(1) Some show thesis by (intro that) (auto simp: named_def)
  qed
  then have "diffRoutes dslice dmap p x = Ok []"
    using ok dist p(2) by (intro diffRoutes_silent) (auto simp: recorded_as_def)
  with i p(2) step(1) have "acts = []"
    by (auto simp: diff_xfrm_def Let_def recorded_as_def split: if_splits)
  with step show thesis by (intro that [of current']) (simp_all add: named_def)
qed

lemma diff_desired_silent:
  assumes ok: "slice_diff_ok dslice" "map_diff_ok dmap"
  shows "distinct (map xname xs) \<Longrightarrow> \<forall>x \<in> set xs. routes_distinct x \<Longrightarrow> \<forall>p \<in> set current. routes_distinct p \<Longrightarrow>
    \<forall>x \<in> set xs. \<exists>p. named xname current (xname x) = Some p \<and> recorded_as p x \<Longrightarrow>
    \<exists>c. diff_desired dslice dmap xs current = Ok ([], c) \<and> map xname c = map xname current"
proof (induction xs arbitrary: current)
  case (Cons x xs)
  from Cons.prems(4) obtain p where p: "named xname current (xname x) = Some p" "recorded_as p x" by auto
  from Cons.prems(2) have x: "routes_distinct x" by simp
  obtain c where c: "diff_xfrm dslice dmap current x = Ok ([], c)" "map xname c = map xname current" "\<forall>p \<in> set c. routes_distinct p"
    "\<And>n. n \<noteq> xname x \<Longrightarrow> named xname c n = named xname current n"
    by (rule diff_xfrm_silent [OF ok x Cons.prems(3) p]) blast
  have "\<forall>y \<in> set xs. \<exists>p. named xname c (xname y) = Some p \<and> recorded_as p y"
  proof
    fix y assume y: "y \<in> set xs"
    with Cons.prems(1) have "xname y \<noteq> xname x" by (auto simp: image_iff)
    with c(4) Cons.prems(4) y show "\<exists>p. named xname c (xname y) = Some p \<and> recorded_as p y" by simp
  qed
  with Cons.IH [of c] Cons.prems(1,2) c(3) obtain c' where "diff_desired dslice dmap xs c = Ok ([], c')" "map xname c' = map xname c" by auto
  with c(1,2) show ?case by simp
qed simp

lemma diffXfrms_silent:
  assumes ok: "slice_diff_ok dslice" "map_diff_ok dmap" and x: "xfrms_ok ds" "xfrms_ok cs"
    and settled: "settles act_on_xfrms xname (\<lambda>p. (p, xroutes p)) recorded_in [] ds cs"
  shows "diffXfrms dslice dmap ds cs = Ok []"
proof -
  note d = x [unfolded xfrms_ok_def]
  have S: "case named xname ds n of None \<Rightarrow> named xname cs n = None | Some d \<Rightarrow> \<exists>p. named xname cs n = Some p \<and> recorded_as p d" for n
    using settled [unfolded settled_iff recorded_in_def fst_conv] by blast
  have named: "named xname ds (xname x) = Some x" if "x \<in> set ds" for x
    using d(1) that find_distinct [of ds x] by (simp add: named_def)
  have "\<exists>p. named xname cs (xname x) = Some p \<and> recorded_as p x" if "x \<in> set ds" for x
    using S [of "xname x"] unfolding named [OF that] by simp
  then obtain c where c: "diff_desired dslice dmap ds cs = Ok ([], c)" "map xname c = map xname cs"
    using diff_desired_silent [OF ok, of ds cs] d by blast
  have "xname p \<in> xname ` set ds" if "p \<in> set c" for p
  proof (rule ccontr)
    assume "xname p \<notin> xname ` set ds"
    then have "named xname cs (xname p) = None" using S [of "xname p"] by (simp add: named_None_iff [THEN iffD2])
    moreover have "xname p \<in> xname ` set cs" using that c(2) by (metis image_eqI set_map)
    ultimately show False by (simp add: named_None_iff)
  qed
  then have "filter (\<lambda>x. \<not> binary_search_found xname ds (xname x)) c = []"
    using d(1) by (force simp: filter_empty_conv binary_search_found_iff)
  moreover have "sortPods ds = ds" "sortPods cs = cs" using d by (simp_all add: sortPods_def sort_key_id_if_sorted)
  ultimately show ?thesis using c(1) by (simp add: diffXfrms_def Let_def)
qed

text \<open>One pod or none in place.\<close>

lemma opt_settled:
  "settles step (\<lambda>p. pm_Name (Meta p)) (\<lambda>p. p) same_place [] (opt_list d) (opt_list c) \<Longrightarrow> diffImmutablePod any d c = []"
  unfolding settled_iff
  by (cases d; cases c) (auto simp: named_def same_place_def diffImmutablePod_silent comparePods_def split: if_splits)

lemma group_quiet:
  assumes "slice_diff_ok dslice" "map_diff_ok dmap" "xfrms_ok (Xfrms gs)" "xfrms_ok (Xfrms cgs)" "answers fetch (Proxy cgs)"
    and b: "fst (diff_group dslice dmap fetch conns r gs cgs) = Ok b"
    and "settles (act_on_pods charon_of) (\<lambda>p. pm_Name (Meta p)) (\<lambda>p. p) same_place [] (opt_list (Charon gs)) (opt_list (Charon cgs))"
      "settles (act_on_pods restctl_of) (\<lambda>p. pm_Name (Meta p)) (\<lambda>p. p) same_place [] (opt_list (Proxy gs)) (opt_list (Proxy cgs))"
      "settles act_on_xfrms xname (\<lambda>p. (p, xroutes p)) recorded_in [] (Xfrms gs) (Xfrms cgs)"
  shows "\<forall>a \<in> set b. pod_of_action a = None"
proof (rule diff_group_parts [OF assms(1-5), where conns = conns and r = r])
  fix ps xs us
  assume p: "fst (diff_group dslice dmap fetch conns r gs cgs) = Ok (diffCharon (Charon gs) (Charon cgs) @ ps @ xs @ us)"
    "filter (\<lambda>a. pod_of_action a \<noteq> None) ps = diffImmutablePod AnyRestctl (Proxy gs) (Proxy cgs)"
    "diffXfrms dslice dmap (Xfrms gs) (Xfrms cgs) = Ok xs" "\<forall>a \<in> set us. pod_of_action a = None"
  have "diffCharon (Charon gs) (Charon cgs) = []" using opt_settled [OF assms(7)] by (simp add: diffCharon_def)
  moreover have "\<forall>a \<in> set ps. pod_of_action a = None" using p(2) unfolding opt_settled [OF assms(8)] by (simp add: filter_empty_conv)
  moreover have "xs = []" using p(3) diffXfrms_silent [OF assms(1-4,9)] by simp
  ultimately show ?thesis using p(1,4) b by auto
qed

text \<open>
  C6. What the actions reach needs no further ones: when every pod of the current state is as carrying out the actions
  leaves it, \<open>DiffStates\<close> asks neither for a pod to be created or deleted nor for a route or the pod monitor to change; the
  order in which the routes are recorded does not matter. What may remain are configurations to load and connections to restart.
\<close>

theorem DiffStates_stable:
  assumes "slice_diff_ok dslice" "map_diff_ok dmap" "comparable fetch desired current"
    and "charons_reached [] desired current" "restctls_reached [] desired current"
    and "xfrms_reached [] desired current" "monitor_reached [] desired current"
  shows "\<exists>acts. fst (DiffStates dslice dmap fetch r desired current conns) = Ok acts
    \<and> (\<forall>a \<in> set acts. pod_of_action a = None \<and> a \<noteq> CreateMonitorAction \<and> a \<noteq> DeleteMonitorAction)"
proof -
  note ok = assms(1,2) and c = assms(3)
  note quiet = charons.cluster_settled [OF c assms(4) [unfolded charons_reached_def pods_of_def]]
    restctls.cluster_settled [OF c assms(5) [unfolded restctls_reached_def pods_of_def]]
    xfrms.cluster_settled [OF c assms(6) [unfolded xfrms_reached_def xfrms_of_def]]
  obtain B where d: "fst (DiffStates dslice dmap fetch r desired current conns)
      = Ok (monitor_actions desired current @ concat (map B (Groups desired)) @ concat (map deleteNode (gone_groups desired current)))"
    and B: "\<And>g. g \<in> set (Groups desired) \<Longrightarrow> \<exists>r. fst (diff_group dslice dmap fetch conns r g (current_group current g)) = Ok (B g)"
    using DiffStates_blocks [OF c ok] by blast
  have "monitor_actions desired current = []"
    using assms(7) by (simp add: monitor_reached_def monitor_actions_def)
  moreover have "deleteNode h = []" if "h \<in> set (gone_groups desired current)" for h
    using quiet(2,4,6) [OF that]
    by (auto simp: deleteNode_def opt_list_def split: option.splits)
  moreover have "monitor_free (B g) \<and> (\<forall>a \<in> set (B g). pod_of_action a = None)" if g: "g \<in> set (Groups desired)" for g
  proof -
    from B [OF g] obtain r where r: "fst (diff_group dslice dmap fetch conns r g (current_group current g)) = Ok (B g)" ..
    show ?thesis
      using group_settles(4) [OF ok comparableD(4,5,6) [OF c g] r]
        group_quiet [OF ok comparableD(4,5,6) [OF c g] r quiet(1,3,5) [OF g]] by blast
  qed
  ultimately show ?thesis using d by (auto simp: monitor_free_def)
qed

text \<open>
  A cluster in which one group has to be built up, with an xfrm pod whose routes change, and another is gone.
\<close>

definition wanted_cluster :: cluster_state where
  "wanted_cluster = \<lparr>Groups = [\<lparr>Charon = None, Proxy = Some sample_restctl, Xfrms = [sample_wanted_pod],
     GroupRef = \<lparr>gr_name = ''g'', gr_namespace = ''default''\<rparr>, IPSecs = []\<rparr>], PodMonitor = True\<rparr>"

definition found_cluster :: cluster_state where
  "found_cluster = \<lparr>Groups =
     [\<lparr>Charon = None, Proxy = None, Xfrms = [sample_xfrm_pod],
       GroupRef = \<lparr>gr_name = ''g'', gr_namespace = ''default''\<rparr>, IPSecs = []\<rparr>,
      \<lparr>Charon = None, Proxy = None, Xfrms = [other_xfrm_pod],
       GroupRef = \<lparr>gr_name = ''h'', gr_namespace = ''default''\<rparr>, IPSecs = []\<rparr>], PodMonitor = False\<rparr>"

definition settled_cluster :: cluster_state where
  "settled_cluster = wanted_cluster\<lparr>Groups := map (\<lambda>g. g\<lparr>Xfrms := map sort_routes (Xfrms g)\<rparr>) (Groups wanted_cluster)\<rparr>"

lemmas sample_cluster_defs = wanted_cluster_def found_cluster_def settled_cluster_def sample_restctl_def sample_wanted_pod_def
  sample_xfrm_pod_def other_xfrm_pod_def

lemma samples_comparable:
  "comparable (\<lambda>_. LoadedConns []) wanted_cluster found_cluster" "comparable (\<lambda>_. LoadedConns []) wanted_cluster settled_cluster"
  by (simp_all add: comparable_def groups_apart_def disjoint_names_def findGroup_def xfrms_ok_def routes_distinct_def answers_def
      gok_def sort_routes_def sample_cluster_defs)


theorem DiffStates_stable_witness:
  "\<exists>acts. fst (DiffStates ref_slice_diff ref_map_diff (\<lambda>_. LoadedConns []) sample_reconciler wanted_cluster settled_cluster []) = Ok acts
    \<and> (\<forall>a \<in> set acts. pod_of_action a = None)"
proof -
  have c: "charons_reached [] wanted_cluster settled_cluster" "restctls_reached [] wanted_cluster settled_cluster"
    "monitor_reached [] wanted_cluster settled_cluster"
    by (simp_all add: charons_reached_def restctls_reached_def monitor_reached_def settled_iff named_def pods_of_def
        same_place_def comparePods_def settled_cluster_def wanted_cluster_def)
  have x: "xfrms_reached [] wanted_cluster settled_cluster"
    by (simp add: xfrms_reached_def settled_iff named_def xfrms_of_def recorded_in_def recorded_as_def routes_equiv_def
        settled_cluster_def wanted_cluster_def)
  from DiffStates_stable [OF ref_slice_diff_ok ref_map_diff_ok samples_comparable(2) c(1,2) x c(3)] show ?thesis by blast
qed

end
