(* ===== verification/Spec2Isabelle.thy ===== *)
theory Spec2Isabelle
  imports Operator Alloc Mutate_Props Validate_Props Restctl_Run Xfrminion_Props Exec_Props Exporter_Props
    Node_Tools_Props Deep_Copy_Props Kernel_Props Admission Helpers Swan_Syntax Requests Converge_Props
begin

text \<open>
  ipman is a Kubernetes operator that runs strongSwan connections for pods. This library models its Go code.

  \<^bold>\<open>The program.\<close> A user declares \<open>CharonGroup\<close>s and \<open>IPSecConnection\<close>s (\<open>api/v1\<close>); the children of a
  connection have pools of addresses. For every group the controller (\<open>internal/controller\<close>) keeps a charon
  pod with the IKE daemon and a restctl pod (\<open>cmd/restctl\<close>), a server that hands connections to the daemon and
  watches them; for every child it keeps an xfrm pod (\<open>cmd/xfrminion\<close>), a server that sets up links, routes and
  forwarding entries in the network namespace of its pod. One pass of the reconciler reads the current state from the API
  server, computes the desired one, and carries out the actions that \<open>DiffStates\<close> returns: by calls to the API
  server and by requests to the servers in the pods. A pod that asks for an address of a pool is
  changed by the mutating webhook (\<open>internal/webhook/v1\<close>): it takes the address out of the pool, notes it
  as pending in the status of the connection, and adds an init container (\<open>cmd/vxlandlord\<close>); the controller later
  recomputes the free addresses from the pods it sees. The validating webhook guards changes of connections. The job
  \<open>cmd/xfrminjector\<close> moves the interface of a child from the charon pod into its xfrm pod.

  \<^bold>\<open>Theories, in the order they build on each other.\<close>

  \<^item> \<open>Prelude\<close>, \<open>Go_Strings\<close>, \<open>Go_Net\<close>, \<open>Go_Time\<close>, \<open>Json\<close>: Go's maps, slices, results and the parts of its standard
    library that the code calls, with their laws (what a lookup returns after an insert, that parsing returns what
    was printed).
  \<^item> \<open>Api\<close>: the custom resources and their comparisons. \<open>Deep_Copy\<close>, \<open>Deep_Copy_Props\<close>: their copies (\<open>deepcopy.go\<close>) over a
    store of maps and slices, and what a copy shares with its original; everywhere else resources are values.
  \<^item> \<open>Pods\<close>, \<open>Pod_Specs\<close>: the typed pods of \<open>state.go\<close>, \<open>charon_pod.go\<close>, \<open>restctl_pod.go\<close> and \<open>xfrm_pod.go\<close>, their way into
    Kubernetes pods and back; reading returns what was created.
  \<^item> \<open>Cluster\<close>: \<open>GetClusterState\<close> and \<open>CreateDesiredState\<close> of \<open>ipman_controller.go\<close>.
  \<^item> \<open>Actions\<close>, \<open>Routes\<close>, \<open>Diff\<close>, \<open>Diff_Xfrms\<close>, \<open>Diff_Props\<close>: the actions as data, \<open>DiffStates\<close> and all it calls. The
    abstract specification is the meaning of a list of actions on the routes of a pod (\<open>run_routes\<close>) and on the
    set of xfrm pods; the lemmas show that the actions reach the desired state, when a comparison is
    silent, and when a restart or a reload is asked for. \<open>Converge\<close>, \<open>Converge_Props\<close>: the whole comparison over the
    three kinds of pods (locales \<open>keyed_steps\<close>, \<open>pod_kind\<close>, \<open>cluster_kind\<close>, interpreted for charon, restctl and xfrm
    pods): its actions lead from the pods of the current cluster to those of the desired one, and none is left where
    they are reached.
  \<^item> \<open>Server\<close>, \<open>Exec\<close>, \<open>Exec_Actions\<close>, \<open>Exec_Store\<close>, \<open>Exec_Props\<close>: the \<open>Do\<close> methods of \<open>actions.go\<close>, the waiting and deleting
    loops of \<open>generic.go\<close>, \<open>CompleteSetup\<close> and the injector job, as functions on the state of the API server. The
    interfaces \<open>kube_store\<close>, \<open>pod_store\<close> and \<open>conn_api\<close> state what the proofs need of it; \<open>map_server\<close> provides it.
    The lemmas show that \<open>Do\<close> records what \<open>route_step\<close> means, that the waiting ends, which actions panic.
  \<^item> \<open>Status\<close>, \<open>Reconcile\<close>, \<open>Operator\<close>: the update of the status, the whole pass with its errors and delays, the start of
    the operator and the passes that follow each other; what the reconciler remembers from pass to pass.
  \<^item> \<open>Validate\<close>, \<open>Validate_Props\<close>, \<open>Mutate\<close>, \<open>Mutate_Props\<close>, \<open>Admission\<close>: the two webhooks, from the HTTP request to the
    answer. \<open>Alloc\<close>: the state machine of webhook, controller, pods and clock that share the addresses of a connection,
    as a step relation; no address is handed out twice, as long as the children share none.
  \<^item> \<open>Swan\<close>, \<open>Swan_Props\<close>, \<open>Swan_Syntax\<close>, \<open>Restctl\<close>, \<open>Restctl_Props\<close>: the listings of the daemon (grammar, visitors,
    \<open>checkStatus\<close>), the translation of a connection, the handlers of restctl. \<open>Restctl_Run\<close>: its start and its two
    loops with the channel between them, as a step relation; no failure is lost or reordered. \<open>Exporter\<close>, \<open>Exporter_Props\<close>: its metrics.
  \<^item> \<open>Xfrminion\<close>, \<open>Xfrminion_Props\<close>, \<open>Kernel_Props\<close>: the handlers of xfrminion over a kernel that is a parameter
    (\<open>kernel_routes\<close>, \<open>kernel_bridge\<close>; \<open>map_kernel\<close> provides them), and the composition from \<open>diffRoutes\<close> over the requests to
    the routes in the kernel. \<open>Messages\<close>: the texts of the requests (\<open>pkg/comms\<close>); a server does with a text what it does with the request.
    \<open>Requests\<close>: the paths that xfrminion and restctl register, and that every request of an action is served.
  \<^item> \<open>Node_Tools\<close>, \<open>Node_Tools_Props\<close>: vxlandlord, xfrminjector and the environment of the operator; the init
    container reads what the webhook wrote and leaves the routes of its child in the kernel. \<open>Helpers\<close>: small functions
    that only tests call, and the filter of pod events.

  \<^bold>\<open>Representation.\<close> A definition has the name of its Go function where that is possible; a method carries
  the name of its type in front (\<open>Xfrm_ApplySpec\<close>), and \<open>Do_X\<close> is the \<open>Do\<close> method of \<open>XAction\<close>. A call that may fail returns
  an \<open>outcome\<close> (value, error or panic); one that talks to the outside is a function on the state of the outside
  (\<open>io\<close>), with \<open>None\<close> for one that does not return. A map is a list of entries, its order any order of a \<open>range\<close> loop.
  Interface ids are \<open>32 word\<close>, bytes of addresses \<open>8 word\<close>; numbers from \<open>strconv\<close> are bounded where they are parsed.

  \<^bold>\<open>Bounds and termination.\<close> The waiting loops of the controller end by a measure on the tries left, deletions after
  \<open>DeletePodMaxRetries\<close> of them. Three loops of the code have no bound and are partial functions: the poll
  of an annotation after it was written, the wait for the VICI client, whose counter is never
  incremented, and the creation of a lease that exists; \<open>None\<close> is the run that does not end. The JSON parser has as fuel the length of its text, enough for every printed value
  (\<open>fuel_le_length\<close>).

  \<^bold>\<open>Hypotheses about other code.\<close> \<open>slice_diff_ok\<close> and \<open>map_diff_ok\<close>: \<open>diff.Diff\<close> of r3labs/diff reports each
  difference of two lists or maps once. \<open>same_ok\<close>: it finds no change exactly between equal specifications. \<open>kube_store\<close>,
  \<open>pod_store\<close>, \<open>conn_api\<close>: the API server returns what was written to it. \<open>kernel_routes\<close>: the kernel refuses a
  route to a network that has one and removes one that is there. \<open>keeps_routes\<close>: a route that was added is in its table. Each is shown for a concrete function or server.

  \<^bold>\<open>Not modelled.\<close> The parser that participle builds from the tags (the grammar is); \<open>HashSum\<close> (a hash of a JSON text, not called);
  the JSON of custom resources on their way to the API server and to restctl; \<open>SetupWithManager\<close> apart from
  its filter, and \<open>groupversion_info.go\<close>: registrations with frameworks; in the \<open>main\<close> functions the clients, servers and signals that
  they set up (a flag says whether a step succeeds); logging, events, \<open>time.Sleep\<close>; message types of \<open>pkg/comms\<close> that nothing uses. Metadata of objects is reduced to names, labels and annotations, and
  the version of an object to the assumption that a status update is based on what was read.
\<close>

end
